(* ===== verification/Prelude.thy ===== *)
theory Prelude
  imports Main "HOL-Library.Word" "HOL-Library.Char_ord" "HOL-Library.List_Lexorder"
    "HOL-Library.Multiset" "HOL-Library.Product_Lexorder"
begin

text \<open>
  Shared vocabulary of the development: the integer types of the C++ code, the parts of the C and
  C++ standard library the sources call on strings (character classes, substring search,
  \<^verbatim>\<open>std::to_string\<close>, \<^verbatim>\<open>std::from_chars\<close>), and generic lemmas on
  lists that the component theories use: counting the rows that satisfy a predicate, updating the
  rows that satisfy a predicate, sorted lists of keys.

  A C++ \<^verbatim>\<open>std::string\<close> is a HOL \<open>string\<close>: a list of bytes. Sizes are byte counts.
\<close>

section \<open>Collections of rewrite rules\<close>

named_theorems table_simps \<open>reading and writing the rows of a table\<close>
named_theorems engine_simps \<open>unfolding the calls into a database engine\<close>

section \<open>Integer types\<close>

text \<open>
  \<^verbatim>\<open>std::int64_t\<close> identifiers are only compared, stored and printed; they are
  mathematical integers here and the range is stated where it matters. \<^verbatim>\<open>std::size_t\<close>
  limits are kept at their width, because the repositories convert them to signed 64-bit
  integers before handing them to the database.
\<close>

type_synonym int64 = int
type_synonym size_t = "64 word"

definition int64_range :: "int \<Rightarrow> bool" where
  "int64_range i \<longleftrightarrow> - (2 ^ 63) \<le> i \<and> i < 2 ^ 63"

text \<open>\<^verbatim>\<open>static_cast<std::int64_t>\<close> of a \<^verbatim>\<open>std::size_t\<close>.\<close>

definition int64_of_size :: "size_t \<Rightarrow> int" where
  "int64_of_size n = sint n"

section \<open>Characters\<close>

text \<open>The \<^verbatim>\<open><cctype>\<close> predicates in the C locale, on unsigned bytes.\<close>

definition isspace :: "char \<Rightarrow> bool" where
  "isspace c \<longleftrightarrow> c \<in> {CHR '' '', CHR 0x09, CHR 0x0A, CHR 0x0B, CHR 0x0C, CHR 0x0D}"

definition isdigit :: "char \<Rightarrow> bool" where
  "isdigit c \<longleftrightarrow> 48 \<le> (of_char c :: nat) \<and> (of_char c :: nat) \<le> 57"

definition islower :: "char \<Rightarrow> bool" where
  "islower c \<longleftrightarrow> 97 \<le> (of_char c :: nat) \<and> (of_char c :: nat) \<le> 122"

definition isupper :: "char \<Rightarrow> bool" where
  "isupper c \<longleftrightarrow> 65 \<le> (of_char c :: nat) \<and> (of_char c :: nat) \<le> 90"

definition isalnum :: "char \<Rightarrow> bool" where
  "isalnum c \<longleftrightarrow> isdigit c \<or> islower c \<or> isupper c"

definition tolower :: "char \<Rightarrow> char" where
  "tolower c = (if isupper c then char_of ((of_char c :: nat) + 32) else c)"

abbreviation newline :: char where
  "newline \<equiv> CHR 0x0A"

abbreviation carriage_return :: char where
  "carriage_return \<equiv> CHR 0x0D"

abbreviation nul :: char where
  "nul \<equiv> CHR 0x00"

section \<open>Strings\<close>

definition starts_with :: "string \<Rightarrow> string \<Rightarrow> bool" where
  "starts_with s p \<longleftrightarrow> take (length p) s = p"

definition ends_with :: "string \<Rightarrow> string \<Rightarrow> bool" where
  "ends_with s p \<longleftrightarrow> length p \<le> length s \<and> drop (length s - length p) s = p"

text \<open>\<^verbatim>\<open>s.find(p) != npos\<close>.\<close>

fun contains :: "string \<Rightarrow> string \<Rightarrow> bool" where
  "contains [] p = (p = [])"
| "contains (c # s) p = (starts_with (c # s) p \<or> contains s p)"

text \<open>The C string a \<^verbatim>\<open>const char *\<close> reader sees: the bytes before the first NUL.\<close>

definition c_str :: "string \<Rightarrow> string" where
  "c_str s = takeWhile (\<lambda>c. c \<noteq> nul) s"

lemma c_str_id [simp]: "nul \<notin> set s \<Longrightarrow> c_str s = s"
  by (auto simp: c_str_def takeWhile_eq_all_conv)

lemma c_str_no_nul [simp]: "nul \<notin> set (c_str s)"
  by (auto simp: c_str_def dest: set_takeWhileD)

lemma c_str_idem [simp]: "c_str (c_str s) = c_str s"
  by simp

text \<open>Texts with a separator between them.\<close>

fun join_with :: "string \<Rightarrow> string list \<Rightarrow> string" where
  "join_with separator [] = []"
| "join_with separator [x] = x"
| "join_with separator (x # y # rest) = x @ separator @ join_with separator (y # rest)"

text \<open>\<^verbatim>\<open>std::to_string\<close> on integers.\<close>

definition digit_char :: "nat \<Rightarrow> char" where
  "digit_char d = char_of (48 + d)"

fun to_string_nat :: "nat \<Rightarrow> string" where
  "to_string_nat n =
     (if n < 10 then [digit_char n] else to_string_nat (n div 10) @ [digit_char (n mod 10)])"

declare to_string_nat.simps [simp del]

definition to_string :: "int \<Rightarrow> string" where
  "to_string i = (if i < 0 then CHR ''-'' # to_string_nat (nat (- i)) else to_string_nat (nat i))"

text \<open>
  \<^verbatim>\<open>std::from_chars\<close> for \<^verbatim>\<open>std::int64_t\<close>, base ten: an optional minus
  sign and a non-empty run of digits. The result carries the value and the unread suffix; on an
  error the destination variable keeps its old value.
\<close>

datatype from_chars_result =
    Parsed int string
  | Invalid_argument
  | Out_of_range string

fun digits_value :: "nat \<Rightarrow> string \<Rightarrow> nat" where
  "digits_value acc [] = acc"
| "digits_value acc (c # cs) = digits_value (acc * 10 + ((of_char c :: nat) - 48)) cs"

fun split_sign :: "string \<Rightarrow> bool \<times> string" where
  "split_sign [] = (False, [])"
| "split_sign (c # cs) = (if c = CHR ''-'' then (True, cs) else (False, c # cs))"

definition from_chars_int64 :: "string \<Rightarrow> from_chars_result" where
  "from_chars_int64 s =
     (let (negative, body) = split_sign s;
          digits = takeWhile isdigit body;
          rest = dropWhile isdigit body
      in if digits = [] then Invalid_argument
         else let magnitude = int (digits_value 0 digits);
                  value = (if negative then - magnitude else magnitude)
              in if int64_range value then Parsed value rest else Out_of_range rest)"

section \<open>Printing and reading integers\<close>

lemma of_char_digit_char [simp]: "d < 10 \<Longrightarrow> of_char (digit_char d) = (48 + d :: nat)"
  by (simp add: digit_char_def)

lemma isdigit_digit_char [simp]: "d < 10 \<Longrightarrow> isdigit (digit_char d)"
  by (simp add: isdigit_def)

lemma digits_value_append: "digits_value acc (xs @ ys) = digits_value (digits_value acc xs) ys"
  by (induction xs arbitrary: acc) auto

lemma to_string_nat_digits: "c \<in> set (to_string_nat n) \<Longrightarrow> isdigit c"
proof (induction n rule: to_string_nat.induct)
  case (1 n)
  then show ?case
    by (subst (asm) (2) to_string_nat.simps) (auto split: if_splits)
qed

lemma to_string_nat_not_Nil [simp]: "to_string_nat n \<noteq> []"
  by (subst to_string_nat.simps) simp

lemma digits_value_to_string_nat: "digits_value 0 (to_string_nat n) = n"
proof (induction n rule: to_string_nat.induct)
  case (1 n)
  then show ?case
    by (subst to_string_nat.simps) (auto simp: digits_value_append)
qed

lemma to_string_nat_no_minus: "CHR ''-'' \<notin> set (to_string_nat n)"
  using to_string_nat_digits [of "CHR ''-''" n] by (auto simp: isdigit_def)

lemma to_string_nat_inj: "to_string_nat m = to_string_nat n \<longleftrightarrow> m = n"
  by (metis digits_value_to_string_nat)

lemma to_string_inj [simp]: "to_string i = to_string j \<longleftrightarrow> i = j"
proof -
  have "CHR ''-'' # xs = to_string_nat n \<longleftrightarrow> False" for xs n
    using to_string_nat_no_minus [of n] by (metis list.set_intros(1))
  moreover have "to_string_nat n = CHR ''-'' # xs \<longleftrightarrow> False" for xs n
    using to_string_nat_no_minus [of n] by (metis list.set_intros(1))
  ultimately show ?thesis
    by (auto simp: to_string_def to_string_nat_inj split: if_splits)
qed

lemma to_string_no_nul [simp]: "nul \<notin> set (to_string i)"
  using to_string_nat_digits [of nul] by (auto simp: to_string_def isdigit_def)

text \<open>Reading back what \<^verbatim>\<open>std::to_string\<close> printed, whatever non-digit follows.\<close>

lemma from_chars_of_to_string:
  assumes "rest = [] \<or> \<not> isdigit (hd rest)"
  shows "from_chars_int64 (to_string i @ rest) = (if int64_range i then Parsed i rest else Out_of_range rest)"
proof -
  have taken: "takeWhile isdigit (to_string_nat n @ rest) = to_string_nat n"
    "dropWhile isdigit (to_string_nat n @ rest) = rest" for n
    using assms to_string_nat_digits [of _ n]
    by (auto simp: takeWhile_append dropWhile_append takeWhile_eq_all_conv dropWhile_eq_Nil_conv
        intro: takeWhile_eq_Nil_iff [THEN iffD2] dropWhile_eq_self_iff [THEN iffD2])
  have unsigned: "split_sign (to_string_nat n @ rest) = (False, to_string_nat n @ rest)" for n
    using to_string_nat_no_minus [of n] to_string_nat_not_Nil [of n]
    by (cases "to_string_nat n") auto
  show ?thesis
    by (simp add: from_chars_int64_def to_string_def taken unsigned digits_value_to_string_nat)
qed

lemma from_chars_to_string:
  assumes "int64_range i" and "rest = [] \<or> \<not> isdigit (hd rest)"
  shows "from_chars_int64 (to_string i @ rest) = Parsed i rest"
  using from_chars_of_to_string assms by simp

lemmas from_chars_to_string_all [simp] =
  from_chars_to_string [where rest = "[]", simplified]

section \<open>Lists of rows\<close>

text \<open>The number of rows that satisfy a predicate, as SQL's \<^verbatim>\<open>COUNT(*)\<close>.\<close>

definition count_where :: "('a \<Rightarrow> bool) \<Rightarrow> 'a list \<Rightarrow> nat" where
  "count_where P xs = length (filter P xs)"

text \<open>The rows with those that satisfy a predicate rewritten, as SQL's \<^verbatim>\<open>UPDATE\<close>.\<close>

definition update_where :: "('a \<Rightarrow> bool) \<Rightarrow> ('a \<Rightarrow> 'a) \<Rightarrow> 'a list \<Rightarrow> 'a list" where
  "update_where P f xs = map (\<lambda>x. if P x then f x else x) xs"

lemma count_where_Nil [simp]: "count_where P [] = 0"
  and count_where_Cons [simp]: "count_where P (x # xs) = (if P x then 1 else 0) + count_where P xs"
  and count_where_append [simp]: "count_where P (xs @ ys) = count_where P xs + count_where P ys"
  by (simp_all add: count_where_def)

lemma count_where_cong:
  "(\<And>x. x \<in> set xs \<Longrightarrow> P x = Q x) \<Longrightarrow> count_where P xs = count_where Q xs"
  by (simp add: count_where_def cong: filter_cong)

lemma count_where_mono:
  "(\<And>x. x \<in> set xs \<Longrightarrow> P x \<Longrightarrow> Q x) \<Longrightarrow> count_where P xs \<le> count_where Q xs"
  by (induction xs) auto

lemma count_where_pos_iff: "0 < count_where P xs \<longleftrightarrow> (\<exists>x \<in> set xs. P x)"
  by (induction xs) auto

lemma count_where_0_iff: "count_where P xs = 0 \<longleftrightarrow> (\<forall>x \<in> set xs. \<not> P x)"
  by (induction xs) auto

lemma count_where_map: "count_where P (map f xs) = count_where (P \<circ> f) xs"
  by (induction xs) auto

lemma update_where_Nil [simp]: "update_where P f [] = []"
  and update_where_Cons [simp]:
    "update_where P f (x # xs) = (if P x then f x else x) # update_where P f xs"
  and update_where_append [simp]:
    "update_where P f (xs @ ys) = update_where P f xs @ update_where P f ys"
  by (simp_all add: update_where_def)

lemma length_update_where [simp]: "length (update_where P f xs) = length xs"
  by (simp add: update_where_def)

lemma map_update_where:
  "(\<And>x. x \<in> set xs \<Longrightarrow> P x \<Longrightarrow> g (f x) = g x) \<Longrightarrow> map g (update_where P f xs) = map g xs"
  by (simp add: update_where_def)

lemma set_update_where: "set (update_where P f xs) = (\<lambda>x. if P x then f x else x) ` set xs"
  by (simp add: update_where_def)

lemma update_where_none: "(\<And>x. x \<in> set xs \<Longrightarrow> \<not> P x) \<Longrightarrow> update_where P f xs = xs"
  by (simp add: update_where_def map_idI)

lemma map_update_where_comm:
  assumes "\<And>x. x \<in> set xs \<Longrightarrow> P x = Q (h x)" and "\<And>x. x \<in> set xs \<Longrightarrow> P x \<Longrightarrow> h (f x) = g (h x)"
  shows "map h (update_where P f xs) = update_where Q g (map h xs)"
  using assms by (induction xs) auto

text \<open>A list whose keys are strictly increasing has one element per key.\<close>

abbreviation ascending :: "('a \<Rightarrow> 'k::linorder) \<Rightarrow> 'a list \<Rightarrow> bool" where
  "ascending k xs \<equiv> sorted_wrt (<) (map k xs)"

lemma ascending_distinct: "ascending k xs \<Longrightarrow> distinct (map k xs)"
  by (rule strict_sorted_iff [THEN iffD1, THEN conjunct2])

lemma ascending_filter: "ascending k xs \<Longrightarrow> ascending k (filter P xs)"
  by (simp add: sorted_wrt_map sorted_wrt_filter)

lemma distinct_keys_eq:
  "distinct (map k xs) \<Longrightarrow> x \<in> set xs \<Longrightarrow> y \<in> set xs \<Longrightarrow> k x = k y \<Longrightarrow> x = y"
  by (meson distinct_map inj_on_eq_iff)

lemma count_where_key:
  "distinct (map k xs) \<Longrightarrow> count_where (\<lambda>x. k x = i \<and> P x) xs
     = (if \<exists>x \<in> set xs. k x = i \<and> P x then 1 else 0)"
  by (induction xs) (auto simp: count_where_0_iff image_iff)

text \<open>The effect on a count of rewriting the one row with a given key.\<close>

lemma count_where_update_key:
  assumes "distinct (map k xs)" and "x \<in> set xs"
  shows "count_where P (update_where (\<lambda>y. k y = k x) f xs) + (if P x then 1 else 0)
       = count_where P xs + (if P (f x) then 1 else 0)"
  using assms
proof (induction xs)
  case Nil
  then show ?case by simp
next
  case (Cons y ys)
  show ?case
  proof (cases "k y = k x")
    case True
    then have "update_where (\<lambda>y. k y = k x) f ys = ys"
      using Cons.prems(1) by (intro update_where_none) (auto simp: image_iff)
    moreover have "y = x"
      using True Cons.prems by force
    ultimately show ?thesis by simp
  next
    case False
    then have "x \<in> set ys" using Cons.prems(2) by auto
    then show ?thesis using False Cons by simp
  qed
qed

lemma find_Some_iff_in: "List.find P xs = Some x \<Longrightarrow> x \<in> set xs \<and> P x"
  by (auto simp: find_Some_iff)

lemma find_key_iff:
  "distinct (map k xs) \<Longrightarrow> List.find (\<lambda>x. k x = i) xs = Some x \<longleftrightarrow> x \<in> set xs \<and> k x = i"
  by (induction xs) auto

lemma find_key_and:
  "distinct (map k xs) \<Longrightarrow> List.find (\<lambda>x. k x = i \<and> P x) xs
     = (case List.find (\<lambda>x. k x = i) xs of Some x \<Rightarrow> if P x then Some x else None | None \<Rightarrow> None)"
proof (induction xs)
  case (Cons a xs)
  have "List.find (\<lambda>x. k x = i \<and> P x) xs = None" if "k a = i"
    using Cons.prems that by (auto simp: find_None_iff image_iff)
  then show ?case using Cons by auto
qed simp

lemma find_first:
  assumes "List.find P xs = Some x"
  obtains us ws where "xs = us @ x # ws" "P x" "\<forall>u \<in> set us. \<not> P u"
proof -
  obtain i where i: "i < length xs" "P (xs ! i)" "x = xs ! i" "\<forall>j < i. \<not> P (xs ! j)"
    using assms by (auto simp: find_Some_iff)
  have "xs = take i xs @ x # drop (Suc i) xs" using i by (simp add: id_take_nth_drop)
  moreover have "\<forall>u \<in> set (take i xs). \<not> P u" using i by (auto simp: in_set_conv_nth)
  ultimately show ?thesis using that i by blast
qed

lemma find_unique:
  "x \<in> set xs \<Longrightarrow> P x \<Longrightarrow> (\<And>y. y \<in> set xs \<Longrightarrow> P y \<Longrightarrow> y = x) \<Longrightarrow> List.find P xs = Some x"
  by (metis find_None_iff find_Some_iff_in option.exhaust)

lemma find_append_iff:
  "List.find P (xs @ ys) = (case List.find P xs of Some x \<Rightarrow> Some x | None \<Rightarrow> List.find P ys)"
  by (induction xs) auto

lemma find_filter: "List.find P xs = (case filter P xs of [] \<Rightarrow> None | x # _ \<Rightarrow> Some x)"
  by (induction xs) auto

lemma find_map: "List.find P (map f xs) = map_option f (List.find (P \<circ> f) xs)"
  by (induction xs) auto

lemma find_cong: "(\<And>x. x \<in> set xs \<Longrightarrow> P x = Q x) \<Longrightarrow> List.find P xs = List.find Q xs"
  by (induction xs) auto

text \<open>Sorting by a key that no two elements share depends on the set of elements only.\<close>

lemma sort_key_unique:
  assumes "set xs = set ys" "distinct (map k xs)" "distinct (map k ys)"
  shows "sort_key k xs = sort_key k ys"
proof (rule map_sorted_distinct_set_unique)
  show "inj_on k (set (sort_key k xs) \<union> set (sort_key k ys))"
    using assms by (simp add: distinct_map)
  have "mset (map k (sort_key k zs)) = mset (map k zs)" for zs by (simp add: mset_map)
  then show "distinct (map k (sort_key k xs))" "distinct (map k (sort_key k ys))"
    using assms(2,3) by (metis mset_eq_imp_distinct_iff)+
qed (simp_all add: assms(1))

lemma sort_key_map: "sort_key f (map g xs) = map g (sort_key (f \<circ> g) xs)"
proof -
  have "insort_key f (g x) (map g ys) = map g (insort_key (f \<circ> g) x ys)" for x ys
    by (induction ys) auto
  then show ?thesis by (induction xs) auto
qed

section \<open>Multisets\<close>

lemma subset_mset_add: "A \<subseteq># B \<Longrightarrow> A \<subseteq># add_mset x B"
  by (simp add: subseteq_mset_def le_SucI)

lemma subset_mset_without: "A \<subseteq># add_mset x B \<Longrightarrow> x \<notin># A \<Longrightarrow> A \<subseteq># B"
  unfolding subseteq_mset_def by (metis count_add_mset le0 not_in_iff)

end
