(* ===== verification/Core_Types.thy ===== *)
theory Core_Types
  imports Prelude
begin

text \<open>
  The data types the components exchange, one per struct or enum of
  \<^verbatim>\<open>backend/include/algorithm-trainer/\<close>: verdicts and judge results
  (\<^verbatim>\<open>judge.h\<close>), executions (\<^verbatim>\<open>executor.h\<close>), submissions
  (\<^verbatim>\<open>submission.h\<close>, \<^verbatim>\<open>submission-record.h\<close>), problems and their hidden
  tests (\<^verbatim>\<open>problem.h\<close>), and the functions that print the enums. A
  \<^verbatim>\<open>std::variant<Value, Error>\<close> is a sum with the error on the left, as the sources
  treat the error first. Record fields carry a short prefix because HOL selectors share one name
  space.
\<close>

section \<open>Verdicts and judge results (judge.h, judge.cpp)\<close>

datatype verdict = accepted | wrong_answer | runtime_error | time_limit_exceeded

fun verdict_name :: "verdict \<Rightarrow> string" where
  "verdict_name accepted = ''Accepted''"
| "verdict_name wrong_answer = ''Wrong Answer''"
| "verdict_name runtime_error = ''Runtime Error''"
| "verdict_name time_limit_exceeded = ''Time Limit Exceeded''"

record judge_request =
  jr_problem_id :: string
  jr_language :: string
  jr_source_code :: string

datatype judge_result =
    Judged verdict
  | RuntimeError string
  | JudgeError string

section \<open>Executions (executor.h)\<close>

record execution_request =
  xr_language :: string
  xr_source_code :: string
  xr_standard_input :: string

record execution_result =
  exit_code :: int
  standard_output :: string
  standard_error :: string
  timed_out :: bool
  execution_error_type :: "string option"

datatype executor_error = ExecutorError string

type_synonym executor_result = "executor_error + execution_result"

section \<open>Submissions (submission.h, submission-record.h, submission-record.cpp)\<close>

record submission_request =
  rq_problem_id :: string
  rq_language :: string
  rq_code :: string
  rq_user_id :: "int64 option"

datatype submission_status = queued | running | completed | failed

fun submission_status_name :: "submission_status \<Rightarrow> string" where
  "submission_status_name queued = ''Queued''"
| "submission_status_name running = ''Running''"
| "submission_status_name completed = ''Completed''"
| "submission_status_name failed = ''Failed''"

record submission_record =
  sr_id :: int64
  sr_problem_id :: string
  sr_language :: string
  sr_source_code :: string
  sr_status :: submission_status
  sr_verdict :: "verdict option"
  sr_created_at :: string
  sr_completed_at :: "string option"
  sr_user_id :: "int64 option"
  sr_error_type :: "string option"
  sr_retry_of :: "int64 option"

record completed_problem =
  cp_problem_id :: string
  cp_completed_at :: string

record user_progress =
  total_submissions :: int64
  accepted_submissions :: int64
  current_streak_days :: int64
  most_recent_submission_problem_id :: "string option"
  completed_problems :: "completed_problem list"

section \<open>Problems (problem.h, difficulty_name of problem.cpp)\<close>

datatype problem_difficulty = easy | medium | hard

fun difficulty_name :: "problem_difficulty \<Rightarrow> string" where
  "difficulty_name easy = ''Easy''"
| "difficulty_name medium = ''Medium''"
| "difficulty_name hard = ''Hard''"

record problem_example =
  ex_input :: string
  ex_output :: string

record problem_test_case =
  tc_input :: string
  tc_expected_output :: string
  tc_id :: int64
  tc_position :: int64
  tc_enabled :: bool
  tc_revision :: int64

record problem =
  pb_id :: string
  pb_title :: string
  pb_description :: string
  pb_input_format :: string
  pb_output_format :: string
  pb_difficulty :: problem_difficulty
  pb_tags :: "string list"
  pb_languages :: "string list"
  pb_examples :: "problem_example list"
  pb_enabled :: bool
  pb_revision :: int64
  pb_hidden_tests :: "problem_test_case list"

section \<open>Repository errors (submission-repository.h, problem-repository.h)\<close>

datatype repository_error_code = internal | user_submission_limit | queue_full

record repository_error =
  re_message :: string
  re_code :: repository_error_code

text \<open>\<^verbatim>\<open>RepositoryError{message}\<close>: the code defaults to \<^term>\<open>internal\<close>.\<close>

definition RepositoryError :: "string \<Rightarrow> repository_error" where
  "RepositoryError m = \<lparr>re_message = m, re_code = internal\<rparr>"

record submission_admin_filter =
  fl_status :: "submission_status option"
  fl_error_type :: "string option"
  fl_language :: "string option"
  fl_problem_id :: "string option"
  fl_user_id :: "int64 option"
  fl_created_from :: "string option"
  fl_created_to :: "string option"

datatype problem_repository_error = ProblemRepositoryError string

section \<open>The lifecycle of a submission\<close>

text \<open>A submission is active while it is queued or running, terminal afterwards.\<close>

definition active :: "submission_record \<Rightarrow> bool" where
  "active r \<longleftrightarrow> sr_status r = queued \<or> sr_status r = running"

definition terminal :: "submission_record \<Rightarrow> bool" where
  "terminal r \<longleftrightarrow> sr_status r = completed \<or> sr_status r = failed"

lemma terminal_iff: "terminal r \<longleftrightarrow> \<not> active r"
  by (cases "sr_status r") (auto simp: terminal_def active_def)

lemma verdict_name_inj [simp]: "verdict_name v = verdict_name w \<longleftrightarrow> v = w"
  by (cases v; cases w) simp_all

lemma difficulty_name_inj [simp]: "difficulty_name v = difficulty_name w \<longleftrightarrow> v = w"
  by (cases v; cases w) simp_all

lemma verdict_name_no_nul [simp]: "nul \<notin> set (verdict_name v)"
  by (cases v) simp_all

end
