(* ===== verification/Schema.thy ===== *)
theory Schema
  imports Core_Types
begin

text \<open>
  The relational state all repositories share: one record per table of
  \<^verbatim>\<open>migrations/001\<close>--\<^verbatim>\<open>008\<close> and
  \<^verbatim>\<open>migrations/postgresql/001-initial-schema.sql\<close>, with the constraints the schema
  declares. The type parameter is the time stamp type: SQLite stores ISO 8601 text, PostgreSQL
  stores \<^verbatim>\<open>TIMESTAMPTZ\<close> values.

  A table is the list of its rows in insertion order; \<open>*_seq\<close> is the last identifier its
  AUTOINCREMENT or IDENTITY column has handed out. An \<^verbatim>\<open>INSERT\<close> or
  \<^verbatim>\<open>UPDATE\<close> that would violate a constraint has no effect and reports a violation,
  which is what the engine does with a failing statement.
\<close>

section \<open>Rows\<close>

record 't submission_row =
  row_id :: int64
  row_problem_id :: string
  row_language :: string
  row_source_code :: string
  row_status :: string
  row_verdict :: "string option"
  row_created_at :: 't
  row_completed_at :: "'t option"
  row_user_id :: "int64 option"
  row_error_type :: "string option"
  row_retry_of :: "int64 option"

record 't user_row =
  usr_id :: int64
  usr_username :: string
  usr_password_hash :: string
  usr_created_at :: 't
  usr_is_admin :: bool

record 't session_row =
  ses_id :: int64
  ses_user_id :: int64
  ses_token_hash :: string
  ses_created_at :: 't
  ses_expires_at :: 't

record 't problem_row =
  prb_id :: string
  prb_title :: string
  prb_description :: string
  prb_input_format :: string
  prb_output_format :: string
  prb_difficulty :: string
  prb_tags_json :: string
  prb_languages_json :: string
  prb_examples_json :: string
  prb_enabled :: bool
  prb_created_at :: 't
  prb_updated_at :: 't
  prb_revision :: int64

record test_row =
  tst_id :: int64
  tst_problem_id :: string
  tst_input :: string
  tst_expected_output :: string
  tst_position :: int64
  tst_enabled :: bool
  tst_revision :: int64

record 't audit_row =
  aud_id :: int64
  aud_admin_user_id :: int64
  aud_action :: string
  aud_entity_type :: string
  aud_entity_id :: string
  aud_details_json :: string
  aud_created_at :: 't

record 't database =
  users :: "'t user_row list"
  users_seq :: int64
  sessions :: "'t session_row list"
  sessions_seq :: int64
  problems :: "'t problem_row list"
  problem_tests :: "test_row list"
  problem_tests_seq :: int64
  submissions :: "'t submission_row list"
  submissions_seq :: int64
  admin_audit_log :: "'t audit_row list"
  admin_audit_log_seq :: int64

definition empty_database :: "'t database" where
  "empty_database = \<lparr>users = [], users_seq = 0, sessions = [], sessions_seq = 0, problems = [],
     problem_tests = [], problem_tests_seq = 0, submissions = [], submissions_seq = 0,
     admin_audit_log = [], admin_audit_log_seq = 0\<rparr>"

section \<open>Constraints of the submissions table\<close>

definition check_status :: "'t submission_row \<Rightarrow> bool" where
  "check_status r \<longleftrightarrow> row_status r \<in> {''queued'', ''running'', ''completed'', ''failed''}"

definition check_verdict :: "'t submission_row \<Rightarrow> bool" where
  "check_verdict r \<longleftrightarrow> (case row_verdict r of None \<Rightarrow> True
     | Some v \<Rightarrow> v \<in> {''Accepted'', ''Wrong Answer'', ''Runtime Error'', ''Time Limit Exceeded''})"

definition check_lifecycle :: "'t submission_row \<Rightarrow> bool" where
  "check_lifecycle r \<longleftrightarrow>
     (row_status r \<in> {''queued'', ''running''} \<and> row_verdict r = None \<and> row_completed_at r = None) \<or>
     (row_status r = ''completed'' \<and> row_verdict r \<noteq> None \<and> row_completed_at r \<noteq> None) \<or>
     (row_status r = ''failed'' \<and> row_verdict r = None \<and> row_completed_at r \<noteq> None)"

definition submission_check :: "'t submission_row \<Rightarrow> bool" where
  "submission_check r \<longleftrightarrow> check_status r \<and> check_verdict r \<and> check_lifecycle r"

text \<open>The foreign keys of a submission row: its owner and the submission it retries.\<close>

definition submission_references :: "'t database \<Rightarrow> 't submission_row \<Rightarrow> bool" where
  "submission_references db r \<longleftrightarrow>
     (case row_user_id r of None \<Rightarrow> True | Some u \<Rightarrow> u \<in> usr_id ` set (users db)) \<and>
     (case row_retry_of r of None \<Rightarrow> True | Some i \<Rightarrow> i \<in> row_id ` set (submissions db))"

text \<open>The partial unique index \<^verbatim>\<open>submissions_retry_once_index\<close>.\<close>

definition retry_free :: "'t database \<Rightarrow> int64 option \<Rightarrow> bool" where
  "retry_free db i \<longleftrightarrow> i = None \<or> i \<notin> row_retry_of ` set (submissions db)"

section \<open>Statements on the submissions table\<close>

text \<open>
  \<^verbatim>\<open>INSERT INTO submissions\<close>: the engine chooses the identifier and fails when the
  64-bit column has none left, the row must satisfy every constraint, and columns the statement does not name are NULL. \<open>gap\<close> is the number
  of identifiers the sequence lost to statements that failed earlier (a PostgreSQL sequence does
  not roll back; SQLite's does, so its gap is 0).
\<close>

definition insert_submission ::
    "nat \<Rightarrow> 't submission_row \<Rightarrow> 't database \<Rightarrow> ('t submission_row \<times> 't database) option" where
  "insert_submission gap r db =
     (let i = submissions_seq db + 1 + int gap; r' = r\<lparr>row_id := i\<rparr>
      in if int64_range i \<and> submission_check r' \<and> submission_references db r' \<and> retry_free db (row_retry_of r')
         then Some (r', db\<lparr>submissions := submissions db @ [r'], submissions_seq := i\<rparr>)
         else None)"

text \<open>
  \<^verbatim>\<open>UPDATE submissions SET \<dots> WHERE \<dots>\<close> for assignments that touch neither a key
  nor a reference; None when an updated row would violate a check.
\<close>

definition update_submissions ::
    "('t submission_row \<Rightarrow> bool) \<Rightarrow> ('t submission_row \<Rightarrow> 't submission_row) \<Rightarrow> 't database
       \<Rightarrow> 't database option" where
  "update_submissions P f db =
     (if \<forall>r \<in> set (filter P (submissions db)). submission_check (f r)
      then Some (db\<lparr>submissions := update_where P f (submissions db)\<rparr>)
      else None)"

definition row_active :: "'t submission_row \<Rightarrow> bool" where
  "row_active r \<longleftrightarrow> row_status r = ''queued'' \<or> row_status r = ''running''"

text \<open>
  \<^verbatim>\<open>INSERT INTO admin_audit_log\<close>: the administrator must exist.
\<close>

definition insert_audit ::
    "nat \<Rightarrow> 't audit_row \<Rightarrow> 't database \<Rightarrow> 't database option" where
  "insert_audit gap r db =
     (if aud_admin_user_id r \<in> usr_id ` set (users db)
      then let i = admin_audit_log_seq db + 1 + int gap
           in Some (db\<lparr>admin_audit_log := admin_audit_log db @ [r\<lparr>aud_id := i\<rparr>],
                       admin_audit_log_seq := i\<rparr>)
      else None)"

section \<open>Well-formed databases\<close>

text \<open>What the schema's constraints maintain of the submissions table.\<close>

definition wf_submissions :: "'t database \<Rightarrow> bool" where
  "wf_submissions db \<longleftrightarrow>
     (\<forall>r \<in> set (submissions db). submission_check r \<and> submission_references db r
        \<and> 0 < row_id r \<and> row_id r \<le> submissions_seq db) \<and>
     0 \<le> submissions_seq db \<and> int64_range (submissions_seq db) \<and>
     (\<forall>u \<in> set (users db). int64_range (usr_id u)) \<and>
     ascending row_id (submissions db) \<and>
     (\<forall>r \<in> set (submissions db). \<forall>r' \<in> set (submissions db).
        row_retry_of r \<noteq> None \<longrightarrow> row_retry_of r = row_retry_of r' \<longrightarrow> r = r')"

lemma wf_empty_database [simp]: "wf_submissions empty_database"
  by (simp add: wf_submissions_def empty_database_def int64_range_def)

lemma wf_distinct_ids: "wf_submissions db \<Longrightarrow> distinct (map row_id (submissions db))"
  by (simp add: wf_submissions_def ascending_distinct)

lemma wf_submission_check: "wf_submissions db \<Longrightarrow> r \<in> set (submissions db) \<Longrightarrow> submission_check r"
  by (simp add: wf_submissions_def)

lemma insert_submission_Some:
  assumes "insert_submission gap r db = Some (r', db')"
  shows "r' = r\<lparr>row_id := submissions_seq db + 1 + int gap\<rparr>"
    and "db' = db\<lparr>submissions := submissions db @ [r'], submissions_seq := row_id r'\<rparr>"
    and "submission_check r'" and "submission_references db r'" and "retry_free db (row_retry_of r')"
    and "int64_range (row_id r')"
  using assms by (auto simp: insert_submission_def Let_def split: if_splits)

lemma submission_references_append [simp]:
  "submission_references db r \<Longrightarrow>
     submission_references (db\<lparr>submissions := submissions db @ xs, submissions_seq := n\<rparr>) r"
  by (auto simp: submission_references_def split: option.splits)

lemma wf_insert_submission:
  assumes wf: "wf_submissions db" and ins: "insert_submission gap r db = Some (r', db')"
  shows "wf_submissions db'"
proof -
  note new = insert_submission_Some [OF ins]
  have fresh: "row_id x < row_id r'" if "x \<in> set (submissions db)" for x
    using wf that new(1) by (fastforce simp: wf_submissions_def)
  have "0 < row_id r'" using wf new(1) by (simp add: wf_submissions_def)
  moreover have "ascending row_id (submissions db @ [r'])"
    using wf fresh by (simp add: wf_submissions_def sorted_wrt_append)
  moreover have "row_retry_of x = row_retry_of r' \<Longrightarrow> row_retry_of x \<noteq> None \<Longrightarrow> False"
    if "x \<in> set (submissions db)" for x
    using new(5) that by (auto simp: retry_free_def image_iff)
  ultimately show ?thesis
    using wf new(3,4,6) fresh unfolding wf_submissions_def new(2)
    by (fastforce simp: order.strict_implies_order)
qed

lemma update_submissions_Some:
  assumes "update_submissions P f db = Some db'"
  shows "db' = db\<lparr>submissions := update_where P f (submissions db)\<rparr>"
    and "\<And>r. r \<in> set (submissions db) \<Longrightarrow> P r \<Longrightarrow> submission_check (f r)"
  using assms by (auto simp: update_submissions_def split: if_splits)

text \<open>Every integer column of a well-formed table is a 64-bit integer.\<close>

lemma wf_int64_columns:
  assumes wf: "wf_submissions db" and r: "r \<in> set (submissions db)"
  shows "int64_range (row_id r)" "row_user_id r = Some u \<Longrightarrow> int64_range u"
    "row_retry_of r = Some i \<Longrightarrow> int64_range i"
proof -
  have ids: "int64_range (row_id x)" if "x \<in> set (submissions db)" for x
    using wf that by (fastforce simp: wf_submissions_def int64_range_def)
  then show "int64_range (row_id r)" using r by simp
  have ref: "submission_references db r" using wf r by (simp add: wf_submissions_def)
  show "int64_range u" if "row_user_id r = Some u"
    using wf ref that by (auto simp: wf_submissions_def submission_references_def)
  show "int64_range i" if "row_retry_of r = Some i"
    using ref that ids by (auto simp: submission_references_def)
qed

text \<open>An update that keeps the keys and references of the rows keeps the table well formed.\<close>

definition keeps_keys :: "('t submission_row \<Rightarrow> 't submission_row) \<Rightarrow> bool" where
  "keeps_keys f \<longleftrightarrow> (\<forall>r. row_id (f r) = row_id r \<and> row_user_id (f r) = row_user_id r
     \<and> row_retry_of (f r) = row_retry_of r)"

lemma keeps_keysD:
  assumes "keeps_keys f"
  shows "row_id (f r) = row_id r" "row_user_id (f r) = row_user_id r"
    "row_retry_of (f r) = row_retry_of r"
  using assms by (simp_all add: keeps_keys_def)

lemma update_where_row_id:
  "keeps_keys f \<Longrightarrow> map row_id (update_where P f xs) = map row_id xs"
  by (rule map_update_where) (simp add: keeps_keysD)

lemma wf_update_submissions:
  assumes wf: "wf_submissions db" and upd: "update_submissions P f db = Some db'"
    and keys: "keeps_keys f"
  shows "wf_submissions db'"
proof -
  note db' = update_submissions_Some [OF upd]
  let ?g = "\<lambda>r. if P r then f r else r"
  have rows: "set (submissions db') = ?g ` set (submissions db)"
    by (simp add: db'(1) set_update_where)
  have ids: "map row_id (submissions db') = map row_id (submissions db)"
    by (simp add: db'(1) update_where_row_id [OF keys])
  then have idset: "row_id ` set (submissions db') = row_id ` set (submissions db)"
    by (metis list.set_map)
  have row_ok: "submission_check (?g r) \<and> submission_references db' (?g r)
      \<and> 0 < row_id (?g r) \<and> row_id (?g r) \<le> submissions_seq db'"
    if r: "r \<in> set (submissions db)" for r
    using wf r db'(2) [OF r] idset
    by (auto simp: keeps_keysD [OF keys] wf_submissions_def submission_references_def db'(1) split: option.splits)
  have retry: "?g r = ?g r'" if "r \<in> set (submissions db)" "r' \<in> set (submissions db)"
    "row_retry_of (?g r) \<noteq> None" "row_retry_of (?g r) = row_retry_of (?g r')" for r r'
  proof -
    have "row_retry_of (?g x) = row_retry_of x" for x by (simp add: keeps_keysD [OF keys])
    then have "r = r'"
      using wf that unfolding wf_submissions_def by metis
    then show ?thesis by simp
  qed
  have "0 \<le> submissions_seq db'" "ascending row_id (submissions db')"
    "int64_range (submissions_seq db')" "\<forall>u \<in> set (users db'). int64_range (usr_id u)"
    using wf ids by (simp_all add: wf_submissions_def db'(1))
  then show ?thesis
    unfolding wf_submissions_def rows using row_ok retry by blast
qed

end
