(* ===== verification/Submission_Repository.thy ===== *)
theory Submission_Repository
  imports Schema
begin

text \<open>
  The abstract class \<^verbatim>\<open>SubmissionRepository\<close> of
  \<^verbatim>\<open>submission-repository.h\<close>: its virtual functions as a record of operations
  (\<open>submission_repository\<close>), and its contract as a locale (\<open>submission_store\<close>).
  Two theories implement it, \<^verbatim>\<open>Sqlite_Submissions\<close> and
  \<^verbatim>\<open>Pg_Submissions\<close>, and interpret the locale on their operations;
  \<^verbatim>\<open>Submission_Service\<close>, \<^verbatim>\<open>Submission_Worker\<close> and
  \<^verbatim>\<open>Judging_System\<close> are its clients.

  An operation takes what the engine does during the call (type \<open>'e\<close>: faults, the clock),
  its arguments and the state of the store, and returns its result with the new state.
\<close>

section \<open>The virtual functions\<close>

record ('e, 's) submission_repository =
  create_op :: "'e \<Rightarrow> submission_request \<Rightarrow> 's \<Rightarrow> (repository_error + submission_record) \<times> 's"
  complete_op :: "'e \<Rightarrow> int64 \<Rightarrow> verdict \<Rightarrow> string option \<Rightarrow> 's
      \<Rightarrow> (repository_error + submission_record) \<times> 's"
  fail_op :: "'e \<Rightarrow> int64 \<Rightarrow> string option \<Rightarrow> 's \<Rightarrow> (repository_error + submission_record) \<times> 's"
  claim_next_op :: "'e \<Rightarrow> 's \<Rightarrow> (repository_error + submission_record option) \<times> 's"
  recover_running_op :: "'e \<Rightarrow> 's \<Rightarrow> (repository_error + nat) \<times> 's"
  find_op :: "'e \<Rightarrow> int64 \<Rightarrow> 's \<Rightarrow> repository_error + submission_record option"
  history_op :: "'e \<Rightarrow> int64 \<Rightarrow> string \<Rightarrow> 's \<Rightarrow> repository_error + submission_record list"
  progress_op :: "'e \<Rightarrow> int64 \<Rightarrow> 's \<Rightarrow> repository_error + user_progress"
  list_all_op :: "'e \<Rightarrow> 's \<Rightarrow> repository_error + submission_record list"
  list_filtered_op :: "'e \<Rightarrow> submission_admin_filter \<Rightarrow> 's
      \<Rightarrow> repository_error + submission_record list"
  retry_op :: "'e \<Rightarrow> int64 \<Rightarrow> int64 \<Rightarrow> 's \<Rightarrow> (repository_error + submission_record) \<times> 's"
  audit_op :: "'e \<Rightarrow> int64 \<Rightarrow> string \<Rightarrow> string \<Rightarrow> string \<Rightarrow> string \<Rightarrow> 's
      \<Rightarrow> (repository_error + unit) \<times> 's"

text \<open>The admission limits, \<^verbatim>\<open>SubmissionQueueLimits\<close> with its defaults.\<close>

record queue_limits =
  maximum_active_submissions :: size_t
  maximum_active_submissions_per_user :: size_t
  maximum_running_submissions_per_user :: size_t

definition default_limits :: queue_limits where
  "default_limits = \<lparr>maximum_active_submissions = 100, maximum_active_submissions_per_user = 5,
     maximum_running_submissions_per_user = 1\<rparr>"

section \<open>The abstract queue\<close>

text \<open>
  What a repository promises is stated over the list of stored records in the order of their
  identifiers. Anonymous submissions (no owner) form one bucket.
\<close>

definition active_of :: "int64 option \<Rightarrow> submission_record list \<Rightarrow> nat" where
  "active_of u rs = count_where (\<lambda>r. active r \<and> sr_user_id r = u) rs"

definition running_of :: "int64 option \<Rightarrow> submission_record list \<Rightarrow> nat" where
  "running_of u rs = count_where (\<lambda>r. sr_status r = running \<and> sr_user_id r = u) rs"

definition below :: "nat \<Rightarrow> size_t \<Rightarrow> bool" where
  "below n limit \<longleftrightarrow> int n < int64_of_size limit"

definition admitted :: "queue_limits \<Rightarrow> int64 option \<Rightarrow> submission_record list \<Rightarrow> bool" where
  "admitted lim u rs \<longleftrightarrow> below (count_where active rs) (maximum_active_submissions lim)
     \<and> below (active_of u rs) (maximum_active_submissions_per_user lim)"

definition claimable :: "queue_limits \<Rightarrow> submission_record list \<Rightarrow> submission_record \<Rightarrow> bool" where
  "claimable lim rs r \<longleftrightarrow> sr_status r = queued
     \<and> below (running_of (sr_user_id r) rs) (maximum_running_submissions_per_user lim)"

definition retryable :: "submission_record list \<Rightarrow> submission_record \<Rightarrow> bool" where
  "retryable rs r \<longleftrightarrow> (sr_status r = failed \<or> sr_verdict r = Some runtime_error)
     \<and> (\<forall>x \<in> set rs. sr_retry_of x \<noteq> Some (sr_id r))"

text \<open>A queued record: no verdict, no completion time, no error.\<close>

definition fresh_record :: "submission_record \<Rightarrow> bool" where
  "fresh_record r \<longleftrightarrow> sr_status r = queued \<and> sr_verdict r = None \<and> sr_completed_at r = None
     \<and> sr_error_type r = None"

text \<open>The record stores the request's texts as the store keeps them.\<close>

definition stores_request :: "(string \<Rightarrow> string) \<Rightarrow> submission_request \<Rightarrow> submission_record \<Rightarrow> bool" where
  "stores_request stored q r \<longleftrightarrow> sr_problem_id r = stored (rq_problem_id q)
     \<and> sr_language r = stored (rq_language q) \<and> sr_source_code r = stored (rq_code q)
     \<and> sr_user_id r = rq_user_id q"

definition lifecycle_ok :: "submission_record \<Rightarrow> bool" where
  "lifecycle_ok r \<longleftrightarrow>
     (active r \<and> sr_verdict r = None \<and> sr_completed_at r = None) \<or>
     (sr_status r = completed \<and> sr_verdict r \<noteq> None \<and> sr_completed_at r \<noteq> None) \<or>
     (sr_status r = failed \<and> sr_verdict r = None \<and> sr_completed_at r \<noteq> None)"

definition set_record :: "submission_record \<Rightarrow> submission_record list \<Rightarrow> submission_record list" where
  "set_record r rs = update_where (\<lambda>x. sr_id x = sr_id r) (\<lambda>_. r) rs"

definition requeue :: "submission_record list \<Rightarrow> submission_record list" where
  "requeue rs = update_where (\<lambda>x. sr_status x = running) (\<lambda>x. x\<lparr>sr_status := queued\<rparr>) rs"

lemma active_of_append [simp]: "active_of u (xs @ ys) = active_of u xs + active_of u ys"
  by (simp add: active_of_def)

lemma running_of_append [simp]: "running_of u (xs @ ys) = running_of u xs + running_of u ys"
  by (simp add: running_of_def)

section \<open>The contract\<close>

locale submission_store =
  fixes repo :: "('e, 's) submission_repository"
    and limits :: queue_limits
    and stored :: "string \<Rightarrow> string"
    and records :: "'s \<Rightarrow> submission_record list"
    and ok :: "'s \<Rightarrow> bool"
    and healthy :: "'e \<Rightarrow> bool"
  assumes ascending_ids: "ok s \<Longrightarrow> ascending sr_id (records s)"
    and lifecycle: "ok s \<Longrightarrow> r \<in> set (records s) \<Longrightarrow> lifecycle_ok r"
    and create_keeps_ok: "ok s \<Longrightarrow> create_op repo e q s = (res, s') \<Longrightarrow> ok s'"
    and create_error: "ok s \<Longrightarrow> create_op repo e q s = (Inl err, s') \<Longrightarrow> records s' = records s"
    and create_stores: "ok s \<Longrightarrow> create_op repo e q s = (Inr r, s') \<Longrightarrow>
        records s' = records s @ [r] \<and> fresh_record r \<and> stores_request stored q r
        \<and> sr_retry_of r = None \<and> admitted limits (rq_user_id q) (records s)"
    and complete_keeps_ok: "ok s \<Longrightarrow> complete_op repo e i v et s = (res, s') \<Longrightarrow> ok s'"
    and complete_error: "ok s \<Longrightarrow> complete_op repo e i v et s = (Inl err, s') \<Longrightarrow>
        records s' = records s"
    and complete_stores: "ok s \<Longrightarrow> complete_op repo e i v et s = (Inr r, s') \<Longrightarrow>
        \<exists>x t. x \<in> set (records s) \<and> sr_id x = i \<and> sr_status x = running
          \<and> r = x\<lparr>sr_status := completed, sr_verdict := Some v, sr_completed_at := Some t,
                  sr_error_type := map_option stored et\<rparr>
          \<and> records s' = set_record r (records s)"
    and complete_succeeds: "ok s \<Longrightarrow> healthy e \<Longrightarrow> x \<in> set (records s) \<Longrightarrow> sr_status x = running \<Longrightarrow>
        \<exists>r s'. complete_op repo e (sr_id x) v et s = (Inr r, s')"
    and fail_keeps_ok: "ok s \<Longrightarrow> fail_op repo e i et s = (res, s') \<Longrightarrow> ok s'"
    and fail_error: "ok s \<Longrightarrow> fail_op repo e i et s = (Inl err, s') \<Longrightarrow> records s' = records s"
    and fail_stores: "ok s \<Longrightarrow> fail_op repo e i et s = (Inr r, s') \<Longrightarrow>
        \<exists>x t. x \<in> set (records s) \<and> sr_id x = i \<and> sr_status x = running
          \<and> r = x\<lparr>sr_status := failed, sr_completed_at := Some t,
                  sr_error_type := map_option stored et\<rparr>
          \<and> records s' = set_record r (records s)"
    and fail_succeeds: "ok s \<Longrightarrow> healthy e \<Longrightarrow> x \<in> set (records s) \<Longrightarrow> sr_status x = running \<Longrightarrow>
        \<exists>r s'. fail_op repo e (sr_id x) et s = (Inr r, s')"
    and claim_keeps_ok: "ok s \<Longrightarrow> claim_next_op repo e s = (claimed, s') \<Longrightarrow> ok s'"
    and claim_error: "ok s \<Longrightarrow> claim_next_op repo e s = (Inl err, s') \<Longrightarrow> records s' = records s"
    and claim_none: "ok s \<Longrightarrow> claim_next_op repo e s = (Inr None, s') \<Longrightarrow>
        records s' = records s \<and> List.find (claimable limits (records s)) (records s) = None"
    and claim_some: "ok s \<Longrightarrow> claim_next_op repo e s = (Inr (Some r), s') \<Longrightarrow>
        \<exists>x. List.find (claimable limits (records s)) (records s) = Some x
          \<and> r = x\<lparr>sr_status := running\<rparr> \<and> records s' = set_record r (records s)"
    and claim_succeeds: "ok s \<Longrightarrow> healthy e \<Longrightarrow> \<exists>r s'. claim_next_op repo e s = (Inr r, s')"
    and recover_keeps_ok: "ok s \<Longrightarrow> recover_running_op repo e s = (requeued, s') \<Longrightarrow> ok s'"
    and recover_error: "ok s \<Longrightarrow> recover_running_op repo e s = (Inl err, s') \<Longrightarrow>
        records s' = records s"
    and recover_requeues: "ok s \<Longrightarrow> recover_running_op repo e s = (Inr n, s') \<Longrightarrow>
        records s' = requeue (records s)
        \<and> n = count_where (\<lambda>r. sr_status r = running) (records s)"
    and find_finds: "ok s \<Longrightarrow> find_op repo e i s = Inr found \<Longrightarrow>
        found = List.find (\<lambda>r. sr_id r = i) (records s)"
    and retry_keeps_ok: "ok s \<Longrightarrow> retry_op repo e i admin s = (res, s') \<Longrightarrow> ok s'"
    and retry_error: "ok s \<Longrightarrow> retry_op repo e i admin s = (Inl err, s') \<Longrightarrow> records s' = records s"
    and retry_stores: "ok s \<Longrightarrow> retry_op repo e i admin s = (Inr r, s') \<Longrightarrow>
        \<exists>x. x \<in> set (records s) \<and> sr_id x = i \<and> retryable (records s) x
          \<and> admitted limits (sr_user_id x) (records s) \<and> fresh_record r
          \<and> sr_problem_id r = sr_problem_id x \<and> sr_language r = sr_language x
          \<and> sr_source_code r = sr_source_code x \<and> sr_user_id r = sr_user_id x
          \<and> sr_retry_of r = Some i \<and> records s' = records s @ [r]"
    and audit_keeps: "ok s \<Longrightarrow> audit_op repo e admin action ty entity d s = (outcome, s') \<Longrightarrow>
        ok s' \<and> records s' = records s"

end
