(* ===== verification/Submission_Worker.thy ===== *)
theory Submission_Worker
  imports Submission_Repository
begin

text \<open>
  \<^verbatim>\<open>SubmissionWorkerPool\<close> (\<^verbatim>\<open>submission-worker.h\<close>,
  \<^verbatim>\<open>submission-worker.cpp\<close>): \<open>process_one\<close> with its error paths, the worker's
  loop, \<open>start\<close> and \<open>stop\<close>. The judge is the argument the class takes by reference: a
  function on its own state that returns a result or throws. The clients' lemmas are proved over any
  store that keeps the contract; the interleaving of several workers is in
  \<^verbatim>\<open>Judging_System\<close>.
\<close>

section \<open>One submission\<close>

datatype judge_outcome =
    Returns judge_result
  | Throws

type_synonym 'j judge = "judge_request \<Rightarrow> 'j \<Rightarrow> judge_outcome \<times> 'j"

datatype work_result = processed | idle | work_repository_error

definition judge_request_of :: "submission_record \<Rightarrow> judge_request" where
  "judge_request_of r = \<lparr>jr_problem_id = sr_problem_id r, jr_language = sr_language r,
     jr_source_code = sr_source_code r\<rparr>"

text \<open>
  The local lambda \<^verbatim>\<open>complete\<close>: a verdict that cannot be stored turns the submission into
  a failed one. \<open>es\<close> is what the engine does at the successive repository calls.
\<close>

definition complete_or_fail ::
    "('e, 's) submission_repository \<Rightarrow> (nat \<Rightarrow> 'e) \<Rightarrow> int64 \<Rightarrow> verdict \<Rightarrow> string option \<Rightarrow> 's \<Rightarrow> 's" where
  "complete_or_fail repo es i v error_type s =
     (case complete_op repo (es 1) i v error_type s of
        (Inl _, s') \<Rightarrow> snd (fail_op repo (es 2) i (Some ''Result Persistence Error'') s')
      | (Inr _, s') \<Rightarrow> s')"

definition process_one ::
    "('e, 's) submission_repository \<Rightarrow> 'j judge \<Rightarrow> (nat \<Rightarrow> 'e) \<Rightarrow> 's \<times> 'j
       \<Rightarrow> work_result \<times> 's \<times> 'j" where
  "process_one repo judge es = (\<lambda>(s, j).
     (case claim_next_op repo (es 0) s of
        (Inl _, s') \<Rightarrow> (work_repository_error, s', j)
      | (Inr None, s') \<Rightarrow> (idle, s', j)
      | (Inr (Some submission), s') \<Rightarrow>
          (case judge (judge_request_of submission) j of
             (Returns (JudgeError _), j') \<Rightarrow>
               (processed, snd (fail_op repo (es 1) (sr_id submission) (Some ''Sandbox Error'') s'), j')
           | (Returns (RuntimeError ty), j') \<Rightarrow>
               (processed,
                complete_or_fail repo es (sr_id submission) runtime_error (Some ty) s', j')
           | (Returns (Judged v), j') \<Rightarrow>
               (processed, complete_or_fail repo es (sr_id submission) v None s', j')
           | (Throws, j') \<Rightarrow>
               (processed, snd (fail_op repo (es 1) (sr_id submission) (Some ''Worker Error'') s'), j'))))"

section \<open>The loop and the pool\<close>

text \<open>
  \<^verbatim>\<open>worker_loop\<close>: \<open>stopping k\<close> is the value of the flag at its \<open>k\<close>-th reading
  and \<open>es k\<close> the engine during the \<open>k\<close>-th call of \<open>process_one\<close>; the wait between
  two rounds has no effect on the state. The loop ends only when the flag is set, so it runs on fuel.
\<close>

fun worker_loop ::
    "('e, 's) submission_repository \<Rightarrow> 'j judge \<Rightarrow> (nat \<Rightarrow> bool) \<Rightarrow> (nat \<Rightarrow> nat \<Rightarrow> 'e) \<Rightarrow> nat
       \<Rightarrow> nat \<Rightarrow> nat \<Rightarrow> 's \<times> 'j \<Rightarrow> ('s \<times> 'j) option" where
  "worker_loop repo judge stopping es 0 k n st = None"
| "worker_loop repo judge stopping es (Suc fuel) k n st =
     (if stopping k then Some st
      else case process_one repo judge (es n) st of
          (processed, st') \<Rightarrow> worker_loop repo judge stopping es fuel (Suc k) (Suc n) st'
        | (_, st') \<Rightarrow> if stopping (Suc k) then Some st'
            else worker_loop repo judge stopping es fuel (Suc (Suc k)) (Suc n) st')"

record worker_pool =
  worker_count :: size_t
  stopping_flag :: bool
  started :: bool
  workers :: nat

definition pool_start ::
    "('e, 's) submission_repository \<Rightarrow> 'e \<Rightarrow> worker_pool \<Rightarrow> 's \<Rightarrow> string option \<times> worker_pool \<times> 's" where
  "pool_start repo e p s =
     (if started p then (None, p, s)
      else case recover_running_op repo e s of
          (Inl err, s') \<Rightarrow> (Some (re_message err), p, s')
        | (Inr _, s') \<Rightarrow>
            (None, p\<lparr>stopping_flag := False, started := True, workers := unat (worker_count p)\<rparr>, s'))"

text \<open>\<^verbatim>\<open>stop\<close> joins every worker; each has left its loop because the flag is set.\<close>

definition pool_stop :: "worker_pool \<Rightarrow> worker_pool" where
  "pool_stop p =
     (if \<not> started p then p else p\<lparr>stopping_flag := True, started := False, workers := 0\<rparr>)"

section \<open>Facts about records\<close>

lemma set_record_ids [simp]: "map sr_id (set_record r rs) = map sr_id rs"
  unfolding set_record_def by (rule map_update_where) simp

lemma set_record_other: "x \<in> set rs \<Longrightarrow> sr_id x \<noteq> sr_id r \<Longrightarrow> x \<in> set (set_record r rs)"
  by (force simp: set_record_def set_update_where)

lemma in_set_record:
  "x \<in> set (set_record r rs) \<Longrightarrow> x = r \<or> (x \<in> set rs \<and> sr_id x \<noteq> sr_id r)"
  by (auto simp: set_record_def set_update_where split: if_splits)

lemma set_record_in: "x \<in> set rs \<Longrightarrow> sr_id x = sr_id r \<Longrightarrow> r \<in> set (set_record r rs)"
  by (force simp: set_record_def set_update_where)

lemma set_record_count:
  assumes "distinct (map sr_id rs)" "x \<in> set rs" "sr_id x = sr_id r"
  shows "count_where P (set_record r rs) + (if P x then 1 else 0)
    = count_where P rs + (if P r then 1 else 0)"
  using count_where_update_key [OF assms(1,2), of P "\<lambda>_. r"] assms(3) by (simp add: set_record_def)

lemma set_record_twice:
  assumes "sr_id a = sr_id b" shows "set_record b (set_record a rs) = set_record b rs"
  using assms by (auto simp: set_record_def update_where_def)

section \<open>What one round does, over any store that keeps the contract\<close>

text \<open>The verdict and error type a judge outcome is stored as.\<close>

fun outcome_record :: "(string \<Rightarrow> string) \<Rightarrow> judge_outcome \<Rightarrow> string \<Rightarrow> submission_record \<Rightarrow> submission_record" where
  "outcome_record stored (Returns (Judged v)) t x =
     x\<lparr>sr_status := completed, sr_verdict := Some v, sr_completed_at := Some t, sr_error_type := None\<rparr>"
| "outcome_record stored (Returns (RuntimeError ty)) t x =
     x\<lparr>sr_status := completed, sr_verdict := Some runtime_error, sr_completed_at := Some t,
       sr_error_type := Some (stored ty)\<rparr>"
| "outcome_record stored (Returns (JudgeError m)) t x =
     x\<lparr>sr_status := failed, sr_completed_at := Some t, sr_error_type := Some (stored ''Sandbox Error'')\<rparr>"
| "outcome_record stored Throws t x =
     x\<lparr>sr_status := failed, sr_completed_at := Some t, sr_error_type := Some (stored ''Worker Error'')\<rparr>"

lemma outcome_record_terminal [simp]: "terminal (outcome_record stored out t x)"
  by (cases "(stored, out, t, x)" rule: outcome_record.cases) (simp_all add: terminal_def)

lemma outcome_record_id [simp]: "sr_id (outcome_record stored out t x) = sr_id x"
  by (cases "(stored, out, t, x)" rule: outcome_record.cases) simp_all

context submission_store
begin

lemma distinct_ids: "ok s \<Longrightarrow> distinct (map sr_id (records s))"
  by (rule ascending_distinct [OF ascending_ids])

lemma claimed_record:
  assumes "ok s" "claim_next_op repo e s = (Inr (Some r), s')"
  obtains x where "x \<in> set (records s)" "claimable limits (records s) x"
    "r = x\<lparr>sr_status := running\<rparr>" "records s' = set_record r (records s)" "r \<in> set (records s')"
proof -
  obtain x where x: "List.find (claimable limits (records s)) (records s) = Some x"
    "r = x\<lparr>sr_status := running\<rparr>" "records s' = set_record r (records s)"
    using claim_some [OF assms] by blast
  note found = find_Some_iff_in [OF x(1)]
  have "r \<in> set (records s')"
    using set_record_in [of x "records s" r] found x(2,3) by simp
  then show ?thesis using that [of x] found x(2,3) by blast
qed

text \<open>On a healthy engine a running record can be completed and failed.\<close>

lemma complete_running:
  assumes "ok s" "healthy e" "r \<in> set (records s)" "sr_status r = running"
  obtains t s' where "complete_op repo e (sr_id r) v et s
      = (Inr (r\<lparr>sr_status := completed, sr_verdict := Some v, sr_completed_at := Some t,
               sr_error_type := map_option stored et\<rparr>), s')" "ok s'"
    "records s' = set_record (r\<lparr>sr_status := completed, sr_verdict := Some v,
       sr_completed_at := Some t, sr_error_type := map_option stored et\<rparr>) (records s)"
proof -
  obtain z s' where op: "complete_op repo e (sr_id r) v et s = (Inr z, s')"
    using complete_succeeds [OF assms] by metis
  have "y = r" if "y \<in> set (records s)" "sr_id y = sr_id r" for y
    using distinct_keys_eq [OF distinct_ids [OF assms(1)] that(1) assms(3) that(2)] .
  then show ?thesis
    using complete_stores [OF assms(1) op] complete_keeps_ok [OF assms(1) op] op that by blast
qed

lemma fail_running:
  assumes "ok s" "healthy e" "r \<in> set (records s)" "sr_status r = running"
  obtains t s' where "fail_op repo e (sr_id r) et s
      = (Inr (r\<lparr>sr_status := failed, sr_completed_at := Some t,
               sr_error_type := map_option stored et\<rparr>), s')" "ok s'"
    "records s' = set_record (r\<lparr>sr_status := failed, sr_completed_at := Some t,
       sr_error_type := map_option stored et\<rparr>) (records s)"
proof -
  obtain z s' where op: "fail_op repo e (sr_id r) et s = (Inr z, s')"
    using fail_succeeds [OF assms] by metis
  have "y = r" if "y \<in> set (records s)" "sr_id y = sr_id r" for y
    using distinct_keys_eq [OF distinct_ids [OF assms(1)] that(1) assms(3) that(2)] .
  then show ?thesis
    using fail_stores [OF assms(1) op] fail_keeps_ok [OF assms(1) op] op that by blast
qed

text \<open>
  On a healthy engine the round stores the judge's outcome in the first claimable record and changes
  no other.
\<close>

lemma process_one_stores:
  assumes ok: "ok s" and healthy: "\<And>k. healthy (es k)"
    and first: "List.find (claimable limits (records s)) (records s) = Some x"
    and judged: "judge (judge_request_of x) j = (out, j')"
  obtains t s' where "process_one repo judge es (s, j) = (processed, s', j')" "ok s'"
    "records s' = set_record (outcome_record stored out t x) (records s)"
proof -
  obtain claimed s1 where claim: "claim_next_op repo (es 0) s = (Inr claimed, s1)"
    using claim_succeeds [OF ok healthy] by blast
  let ?r = "x\<lparr>sr_status := running\<rparr>"
  have claimed: "claimed = Some ?r" "records s1 = set_record ?r (records s)"
    using claim first claim_none [OF ok, of "es 0" s1] claim_some [OF ok, of "es 0" _ s1]
    by (cases claimed; auto)+
  have ok1: "ok s1" by (rule claim_keeps_ok [OF ok claim])
  have r: "?r \<in> set (records s1)" "sr_status ?r = running"
    using set_record_in [of x "records s" ?r] find_Some_iff_in [OF first] claimed(2) by simp_all
  have twice: "set_record b (records s1) = set_record b (records s)" if "sr_id b = sr_id x" for b
    using that by (simp add: claimed(2) set_record_twice)
  have "judge_request_of ?r = judge_request_of x" by (simp add: judge_request_of_def)
  note run = process_one_def claim claimed(1) this judged complete_or_fail_def twice
  show ?thesis
  proof (cases out)
    case Throws
    obtain t s2 where "fail_op repo (es 1) (sr_id ?r) (Some ''Worker Error'') s1
        = (Inr (?r\<lparr>sr_status := failed, sr_completed_at := Some t,
               sr_error_type := map_option stored (Some ''Worker Error'')\<rparr>), s2)" "ok s2"
      "records s2 = set_record (?r\<lparr>sr_status := failed, sr_completed_at := Some t,
         sr_error_type := map_option stored (Some ''Worker Error'')\<rparr>) (records s1)"
      by (rule fail_running [OF ok1 healthy r])
    then show ?thesis using that [of s2 t] Throws by (simp add: run)
  next
    case (Returns res)
    show ?thesis
    proof (cases res)
      case (JudgeError m)
      obtain t s2 where "fail_op repo (es 1) (sr_id ?r) (Some ''Sandbox Error'') s1
          = (Inr (?r\<lparr>sr_status := failed, sr_completed_at := Some t,
                 sr_error_type := map_option stored (Some ''Sandbox Error'')\<rparr>), s2)" "ok s2"
        "records s2 = set_record (?r\<lparr>sr_status := failed, sr_completed_at := Some t,
           sr_error_type := map_option stored (Some ''Sandbox Error'')\<rparr>) (records s1)"
        by (rule fail_running [OF ok1 healthy r])
      then show ?thesis using that [of s2 t] Returns JudgeError by (simp add: run)
    next
      case (Judged v)
      then show ?thesis using that Returns
        by (rule_tac v = v and et = None in complete_running [OF ok1 healthy [of 1] r])
          (simp add: run)
    next
      case (RuntimeError ty)
      then show ?thesis using that Returns
        by (rule_tac v = runtime_error and et = "Some ty" in complete_running [OF ok1 healthy [of 1] r])
          (simp add: run)
    qed
  qed
qed

lemma process_one_idle:
  assumes ok: "ok s" and healthy: "healthy (es 0)"
    and none: "List.find (claimable limits (records s)) (records s) = None"
  obtains s' where "process_one repo judge es (s, j) = (idle, s', j)" "ok s'" "records s' = records s"
proof -
  obtain claimed s' where claim: "claim_next_op repo (es 0) s = (Inr claimed, s')"
    using claim_succeeds [OF ok healthy] by blast
  then have "claimed = None"
    using claim_some [OF ok, of "es 0" _ s'] none by (cases claimed) auto
  then show ?thesis
    using that claim claim_keeps_ok [OF ok claim] claim_none [OF ok, of "es 0" s']
    by (simp add: process_one_def)
qed

text \<open>
  A single worker on a healthy engine empties the queue: when no record is running at the start,
  every record is terminal when the loop ends, if the stop flag is set after at least as many
  readings as there are queued records.
\<close>

lemma worker_drains:
  assumes "ok s" and healthy: "\<And>k i. healthy (es k i)"
    and "below 0 (maximum_running_submissions_per_user limits)"
    and "\<forall>r \<in> set (records s). sr_status r \<noteq> running"
    and "count_where (\<lambda>r. sr_status r = queued) (records s) \<le> N - k" and "N - k < fuel"
  shows "\<exists>s' j'. worker_loop repo judge (\<lambda>m. N \<le> m) es fuel k n (s, j) = Some (s', j') \<and> ok s'
    \<and> (\<forall>r \<in> set (records s'). terminal r) \<and> map sr_id (records s') = map sr_id (records s)"
  using assms(1,4-6)
proof (induction fuel arbitrary: s j k n)
  case 0
  then show ?case by simp
next
  case (Suc fuel)
  have claimable: "claimable limits (records s) r \<longleftrightarrow> sr_status r = queued" for r
    using Suc.prems(2) assms(3)
    by (auto simp: claimable_def running_of_def count_where_0_iff [THEN iffD2])
  have all_terminal: "\<forall>r \<in> set (records s). terminal r"
    if "\<forall>r \<in> set (records s). sr_status r \<noteq> queued"
    using that Suc.prems(2) by (auto simp: terminal_iff active_def)
  show ?case
  proof (cases "N \<le> k")
    case True
    then have "\<forall>r \<in> set (records s). sr_status r \<noteq> queued"
      using Suc.prems(3) by (simp add: count_where_0_iff)
    then show ?thesis using True all_terminal Suc.prems(1) by simp
  next
    case False
    show ?thesis
    proof (cases "List.find (claimable limits (records s)) (records s)")
      case None
      then have "\<forall>r \<in> set (records s). sr_status r \<noteq> queued"
        by (auto simp: find_None_iff claimable)
      moreover obtain s1 where round: "process_one repo judge (es n) (s, j) = (idle, s1, j)" "ok s1"
        "records s1 = records s"
        by (rule process_one_idle [where es = "es n", OF Suc.prems(1) healthy None])
      moreover have "count_where (\<lambda>r. sr_status r = queued) (records s1) \<le> N - Suc (Suc k)"
        using calculation by (simp add: count_where_0_iff [THEN iffD2])
      moreover have "N - Suc (Suc k) < fuel" if "\<not> N \<le> Suc k"
        using Suc.prems(4) that by simp
      ultimately show ?thesis
        using Suc.IH [of s1 "Suc (Suc k)" "Suc n" j] Suc.prems(2) all_terminal False by auto
    next
      case (Some x)
      obtain out j1 where judged: "judge (judge_request_of x) j = (out, j1)"
        by (cases "judge (judge_request_of x) j")
      obtain t s1 where round: "process_one repo judge (es n) (s, j) = (processed, s1, j1)" "ok s1"
        "records s1 = set_record (outcome_record stored out t x) (records s)"
        by (rule process_one_stores [where es = "es n" and judge = judge and j = j, OF Suc.prems(1) healthy Some judged])
      note x = find_Some_iff_in [OF Some, unfolded claimable]
      have final: "terminal (outcome_record stored out t x)" by simp
      have "count_where (\<lambda>r. sr_status r = queued) (records s1) + 1
          = count_where (\<lambda>r. sr_status r = queued) (records s)"
        using set_record_count [OF distinct_ids [OF Suc.prems(1)], of x
            "outcome_record stored out t x" "\<lambda>r. sr_status r = queued"] x final round(3)
        by (auto simp: terminal_def)
      then have "count_where (\<lambda>r. sr_status r = queued) (records s1) \<le> N - Suc k" "N - Suc k < fuel"
        using Suc.prems(3,4) False by simp_all
      moreover have "\<forall>r \<in> set (records s1). sr_status r \<noteq> running"
        using Suc.prems(2) final round(3) by (auto simp: terminal_def dest!: in_set_record)
      ultimately show ?thesis
        using Suc.IH [OF round(2), of "Suc k" "Suc n" j1] round False by simp
    qed
  qed
qed

end

end
