(* ===== verification/Submission_Service.thy ===== *)
theory Submission_Service
  imports Submission_Repository
begin

text \<open>
  \<^verbatim>\<open>SubmissionService\<close> (\<^verbatim>\<open>submission-service.h\<close>,
  \<^verbatim>\<open>submission-service.cpp\<close>): a client of the repository interface that maps repository
  errors to service errors and wakes the workers after a submission was stored. The notifier is an
  optional function on the state \<open>n\<close> it acts on.
\<close>

datatype submission_service_error_code =
    service_internal
  | rate_limited
  | service_queue_full

record submission_service_error =
  se_message :: string
  se_code :: submission_service_error_code

definition SubmissionServiceError :: "string \<Rightarrow> submission_service_error" where
  "SubmissionServiceError m = \<lparr>se_message = m, se_code = service_internal\<rparr>"

definition submit ::
    "('e, 's) submission_repository \<Rightarrow> ('n \<Rightarrow> 'n) option \<Rightarrow> 'e \<Rightarrow> submission_request \<Rightarrow> 's \<Rightarrow> 'n
       \<Rightarrow> (submission_service_error + submission_record) \<times> 's \<times> 'n" where
  "submit repo queue_notifier e q s n =
     (case create_op repo e q s of
        (Inl err, s') \<Rightarrow>
          (Inl \<lparr>se_message = re_message err,
                se_code = (if re_code err = user_submission_limit then rate_limited
                           else if re_code err = queue_full then service_queue_full
                           else service_internal)\<rparr>, s', n)
      | (Inr rec, s') \<Rightarrow>
          (Inr rec, s', case queue_notifier of None \<Rightarrow> n | Some notify \<Rightarrow> notify n))"

definition service_find ::
    "('e, 's) submission_repository \<Rightarrow> 'e \<Rightarrow> int64 \<Rightarrow> 's
       \<Rightarrow> submission_service_error + submission_record option" where
  "service_find repo e i s =
     map_sum (SubmissionServiceError \<circ> re_message) (\<lambda>x. x) (find_op repo e i s)"

definition service_history ::
    "('e, 's) submission_repository \<Rightarrow> 'e \<Rightarrow> int64 \<Rightarrow> string \<Rightarrow> 's
       \<Rightarrow> submission_service_error + submission_record list" where
  "service_history repo e user problem s =
     map_sum (SubmissionServiceError \<circ> re_message) (\<lambda>x. x) (history_op repo e user problem s)"

definition service_progress ::
    "('e, 's) submission_repository \<Rightarrow> 'e \<Rightarrow> int64 \<Rightarrow> 's
       \<Rightarrow> submission_service_error + user_progress" where
  "service_progress repo e user s =
     map_sum (SubmissionServiceError \<circ> re_message) (\<lambda>x. x) (progress_op repo e user s)"

section \<open>The service over any store that keeps the contract\<close>

context submission_store
begin

text \<open>A submission is accepted exactly once: the accepted record can be found under its number.\<close>

lemma submit_then_find:
  assumes ok: "ok s" and sub: "submit repo nt e q s n = (Inr r, s', n')"
    and "service_find repo e' (sr_id r) s' = Inr found"
  shows "found = Some r"
proof -
  from sub have create: "create_op repo e q s = (Inr r, s')"
    by (auto simp: submit_def split: prod.splits sum.splits)
  note stored = create_stores [OF ok create]
  have ok': "ok s'" by (rule create_keeps_ok [OF ok create])
  have "find_op repo e' (sr_id r) s' = Inr found"
    using assms(3) by (cases "find_op repo e' (sr_id r) s'") (simp_all add: service_find_def)
  then have "found = List.find (\<lambda>x. sr_id x = sr_id r) (records s')"
    by (rule find_finds [OF ok'])
  then show ?thesis
    using stored find_key_iff [OF ascending_distinct [OF ascending_ids [OF ok']], of "sr_id r" r]
    by simp
qed

lemma submit_rejected:
  assumes "ok s" "submit repo nt e q s n = (Inl err, s', n')"
  shows "records s' = records s" "n' = n" "ok s'"
proof -
  from assms(2) obtain x where "create_op repo e q s = (Inl x, s')" "n' = n"
    by (auto simp: submit_def split: prod.splits sum.splits)
  then show "records s' = records s" "n' = n" "ok s'"
    using create_error [OF assms(1)] create_keeps_ok [OF assms(1)] by auto
qed

end

end
