(* ===== verification/Judging_System.thy ===== *)
theory Judging_System
  imports Submission_Worker Submission_Service
begin

text \<open>
  The judging system: HTTP handlers and the workers of one pool, interleaved at the granularity of
  repository calls. Each repository call is one statement or one transaction of the database, so a
  step is atomic there; between two calls of \<^verbatim>\<open>process_one\<close> any other actor may run.

  A worker is idle, or judging the submission it claimed, or about to mark it failed because its
  result could not be stored. \<open>restart\<close> is the end of the process (all claims are forgotten)
  followed by \<^verbatim>\<open>SubmissionWorkerPool::start\<close>.
\<close>

section \<open>The step relation\<close>

datatype worker_phase =
    Idle
  | Judging int64
  | Persist_failed int64

fun held :: "worker_phase \<Rightarrow> int64 option" where
  "held Idle = None"
| "held (Judging i) = Some i"
| "held (Persist_failed i) = Some i"

record 's system =
  store :: 's
  phase :: "nat \<Rightarrow> worker_phase"

definition set_phase :: "nat \<Rightarrow> worker_phase \<Rightarrow> 's \<Rightarrow> 's system \<Rightarrow> 's system" where
  "set_phase w p s y = y\<lparr>store := s, phase := (phase y)(w := p)\<rparr>"

inductive system_step :: "('e, 's) submission_repository \<Rightarrow> 's system \<Rightarrow> 's system \<Rightarrow> bool"
  for repo :: "('e, 's) submission_repository"
where
  Submit: "create_op repo e q (store y) = (res, s') \<Longrightarrow> system_step repo y (y\<lparr>store := s'\<rparr>)"
| Retry: "retry_op repo e i admin (store y) = (res, s') \<Longrightarrow> system_step repo y (y\<lparr>store := s'\<rparr>)"
| Audit: "audit_op repo e admin action ty entity d (store y) = (out, s') \<Longrightarrow>
    system_step repo y (y\<lparr>store := s'\<rparr>)"
| Claim: "phase y w = Idle \<Longrightarrow> claim_next_op repo e (store y) = (Inr (Some r), s') \<Longrightarrow>
    system_step repo y (set_phase w (Judging (sr_id r)) s' y)"
| No_claim: "phase y w = Idle \<Longrightarrow> claim_next_op repo e (store y) = (claimed, s') \<Longrightarrow>
    claimed = Inr None \<or> claimed = Inl err \<Longrightarrow> system_step repo y (y\<lparr>store := s'\<rparr>)"
| Complete: "phase y w = Judging i \<Longrightarrow> complete_op repo e i v et (store y) = (Inr r, s') \<Longrightarrow>
    system_step repo y (set_phase w Idle s' y)"
| Complete_error: "phase y w = Judging i \<Longrightarrow> complete_op repo e i v et (store y) = (Inl err, s') \<Longrightarrow>
    system_step repo y (set_phase w (Persist_failed i) s' y)"
| Fail: "held (phase y w) = Some i \<Longrightarrow> fail_op repo e i et (store y) = (res, s') \<Longrightarrow>
    system_step repo y (set_phase w Idle s' y)"
| Restart: "recover_running_op repo e (store y) = (requeued, s') \<Longrightarrow>
    system_step repo y \<lparr>store = s', phase = \<lambda>_. Idle\<rparr>"

abbreviation system_steps :: "('e, 's) submission_repository \<Rightarrow> 's system \<Rightarrow> 's system \<Rightarrow> bool" where
  "system_steps repo \<equiv> (system_step repo)\<^sup>*\<^sup>*"

section \<open>Properties of the queue\<close>

definition limit_value :: "size_t \<Rightarrow> int" where
  "limit_value n = max 0 (int64_of_size n)"

definition within_limits :: "queue_limits \<Rightarrow> submission_record list \<Rightarrow> bool" where
  "within_limits lim rs \<longleftrightarrow>
     int (count_where active rs) \<le> limit_value (maximum_active_submissions lim) \<and>
     (\<forall>u. int (active_of u rs) \<le> limit_value (maximum_active_submissions_per_user lim)) \<and>
     (\<forall>u. int (running_of u rs) \<le> limit_value (maximum_running_submissions_per_user lim))"

text \<open>A record keeps its identity, and a terminal record never changes again.\<close>

definition same_submission :: "submission_record \<Rightarrow> submission_record \<Rightarrow> bool" where
  "same_submission a b \<longleftrightarrow> sr_id a = sr_id b \<and> sr_problem_id a = sr_problem_id b
     \<and> sr_language a = sr_language b \<and> sr_source_code a = sr_source_code b
     \<and> sr_created_at a = sr_created_at b \<and> sr_user_id a = sr_user_id b
     \<and> sr_retry_of a = sr_retry_of b"

definition evolves :: "submission_record list \<Rightarrow> submission_record list \<Rightarrow> bool" where
  "evolves rs rs' \<longleftrightarrow> (\<forall>r \<in> set rs. \<exists>r' \<in> set rs'. same_submission r r' \<and> (terminal r \<longrightarrow> r' = r))"

lemma same_submission_refl [simp]: "same_submission r r"
  by (simp add: same_submission_def)

lemma evolves_subset: "set rs \<subseteq> set rs' \<Longrightarrow> evolves rs rs'"
  unfolding evolves_def using same_submission_refl by blast

lemma evolves_refl [simp]: "evolves rs rs"
  by (simp add: evolves_subset)

lemma evolves_trans: "evolves a b \<Longrightarrow> evolves b c \<Longrightarrow> evolves a c"
  unfolding evolves_def same_submission_def by metis

lemma evolves_append [simp]: "evolves rs (rs @ xs)"
  by (simp add: evolves_subset)

lemma evolves_set_record:
  assumes "distinct (map sr_id rs)" "x \<in> set rs" "same_submission x r" "\<not> terminal x"
  shows "evolves rs (set_record r rs)"
  unfolding evolves_def
proof
  fix y assume y: "y \<in> set rs"
  show "\<exists>r' \<in> set (set_record r rs). same_submission y r' \<and> (terminal y \<longrightarrow> r' = y)"
  proof (cases "sr_id y = sr_id r")
    case True
    then have "y = x"
      using distinct_keys_eq [OF assms(1) y assms(2)] assms(3) by (simp add: same_submission_def)
    then show ?thesis using set_record_in [OF y True] assms(3,4) by auto
  next
    case False
    then show ?thesis using set_record_other [OF y] same_submission_refl by blast
  qed
qed

lemma evolves_requeue: "evolves rs (requeue rs)"
  unfolding evolves_def
proof
  fix r assume r: "r \<in> set rs"
  let ?r = "if sr_status r = running then r\<lparr>sr_status := queued\<rparr> else r"
  have "?r \<in> set (requeue rs)" using r by (simp add: requeue_def set_update_where)
  moreover have "same_submission r ?r" "terminal r \<longrightarrow> ?r = r"
    by (auto simp: same_submission_def terminal_def)
  ultimately show "\<exists>r' \<in> set (requeue rs). same_submission r r' \<and> (terminal r \<longrightarrow> r' = r)" by blast
qed

section \<open>The limits\<close>

lemma below_limit_value: "below n limit \<Longrightarrow> int (Suc n) \<le> limit_value limit"
  by (simp add: below_def limit_value_def)

lemma within_limits_append:
  assumes "within_limits lim rs" "fresh_record r" "admitted lim (sr_user_id r) rs"
  shows "within_limits lim (rs @ [r])"
proof -
  have "int (active_of u (rs @ [r])) \<le> limit_value (maximum_active_submissions_per_user lim)" for u
  proof (cases "u = sr_user_id r")
    case True
    have "active_of u (rs @ [r]) \<le> Suc (active_of u rs)" by (simp add: active_of_def)
    then show ?thesis
      using assms(3) True below_limit_value [of "active_of u rs" "maximum_active_submissions_per_user lim"]
      by (simp add: admitted_def)
  next
    case False
    then have "active_of u (rs @ [r]) = active_of u rs" by (simp add: active_of_def)
    then show ?thesis using assms(1) by (simp add: within_limits_def)
  qed
  moreover have "int (running_of u (rs @ [r])) \<le> limit_value (maximum_running_submissions_per_user lim)" for u
    using assms by (simp add: within_limits_def fresh_record_def running_of_def)
  moreover have "int (count_where active (rs @ [r])) \<le> limit_value (maximum_active_submissions lim)"
    using assms(3) below_limit_value [of "count_where active rs" "maximum_active_submissions lim"]
    by (simp add: admitted_def)
  ultimately show ?thesis by (simp add: within_limits_def)
qed

lemma within_limits_mono:
  assumes "within_limits lim rs"
    and "count_where active rs' \<le> count_where active rs"
    and "\<And>u. active_of u rs' \<le> active_of u rs" and "\<And>u. running_of u rs' \<le> running_of u rs"
  shows "within_limits lim rs'"
proof -
  have "int (active_of u rs') \<le> limit_value (maximum_active_submissions_per_user lim)
      \<and> int (running_of u rs') \<le> limit_value (maximum_running_submissions_per_user lim)" for u
  proof -
    have "int (active_of u rs) \<le> limit_value (maximum_active_submissions_per_user lim)"
      "int (running_of u rs) \<le> limit_value (maximum_running_submissions_per_user lim)"
      using assms(1) by (simp_all add: within_limits_def)
    then show ?thesis using assms(3,4) [of u] by linarith
  qed
  moreover have "int (count_where active rs') \<le> limit_value (maximum_active_submissions lim)"
    using assms(1,2) unfolding within_limits_def by linarith
  ultimately show ?thesis by (simp add: within_limits_def)
qed

lemma within_limits_finish:
  assumes "within_limits lim rs" "distinct (map sr_id rs)" "x \<in> set rs" "sr_id x = sr_id r"
    "terminal r"
  shows "within_limits lim (set_record r rs)"
proof (rule within_limits_mono [OF assms(1)])
  note counts = set_record_count [OF assms(2-4)]
  have r: "\<not> active r" "sr_status r \<noteq> running"
    using assms(5) terminal_iff [of r] by (auto simp: terminal_def)
  show "count_where active (set_record r rs) \<le> count_where active rs"
    using counts [of active] r by (simp split: if_splits)
  show "active_of u (set_record r rs) \<le> active_of u rs" for u
    using counts [of "\<lambda>r. active r \<and> sr_user_id r = u"] r by (simp add: active_of_def split: if_splits)
  show "running_of u (set_record r rs) \<le> running_of u rs" for u
    using counts [of "\<lambda>r. sr_status r = running \<and> sr_user_id r = u"] r
    by (simp add: running_of_def split: if_splits)
qed

lemma within_limits_claim:
  assumes "within_limits lim rs" "distinct (map sr_id rs)" "x \<in> set rs" "claimable lim rs x"
  shows "within_limits lim (set_record (x\<lparr>sr_status := running\<rparr>) rs)"
proof -
  let ?r = "x\<lparr>sr_status := running\<rparr>"
  have id: "sr_id x = sr_id ?r" by simp
  note counts = set_record_count [OF assms(2,3) id]
  have x: "sr_status x = queued" "below (running_of (sr_user_id x) rs) (maximum_running_submissions_per_user lim)"
    using assms(4) by (simp_all add: claimable_def)
  have "count_where active (set_record ?r rs) = count_where active rs"
    using counts [of active] x(1) by (simp add: active_def)
  moreover have "active_of u (set_record ?r rs) = active_of u rs" for u
    using counts [of "\<lambda>r. active r \<and> sr_user_id r = u"] x(1)
    by (simp add: active_of_def active_def split: if_splits)
  moreover have "running_of u (set_record ?r rs)
      = running_of u rs + (if sr_user_id x = u then 1 else 0)" for u
    using counts [of "\<lambda>r. sr_status r = running \<and> sr_user_id r = u"] x(1)
    by (simp add: running_of_def split: if_splits)
  ultimately show ?thesis
    using assms(1) below_limit_value [OF x(2)] by (simp add: within_limits_def)
qed

lemma within_limits_requeue: "within_limits lim rs \<Longrightarrow> within_limits lim (requeue rs)"
proof (rule within_limits_mono)
  have "count_where P (requeue rs) \<le> count_where Q rs"
    if "\<And>r. sr_status r = running \<Longrightarrow> P (r\<lparr>sr_status := queued\<rparr>) \<Longrightarrow> Q r"
      "\<And>r. sr_status r \<noteq> running \<Longrightarrow> P r \<Longrightarrow> Q r" for P Q
    using that by (induction rs) (auto simp: requeue_def)
  note le = this
  show "count_where active (requeue rs) \<le> count_where active rs"
    by (rule le) (auto simp: active_def)
  show "active_of u (requeue rs) \<le> active_of u rs" for u
    unfolding active_of_def by (rule le) (auto simp: active_def)
  show "running_of u (requeue rs) \<le> running_of u rs" for u
    unfolding running_of_def by (rule le) auto
qed

section \<open>The invariant, over any store that keeps the contract\<close>

text \<open>Every claimed submission is running, and no two workers hold the same one.\<close>

definition claims_ok :: "submission_record list \<Rightarrow> (nat \<Rightarrow> worker_phase) \<Rightarrow> bool" where
  "claims_ok rs ph \<longleftrightarrow>
     (\<forall>w i. held (ph w) = Some i \<longrightarrow> (\<exists>r \<in> set rs. sr_id r = i \<and> sr_status r = running)) \<and>
     (\<forall>w w' i. held (ph w) = Some i \<longrightarrow> held (ph w') = Some i \<longrightarrow> w = w')"

lemma claims_okD:
  assumes "claims_ok rs ph"
  shows "held (ph w) = Some i \<Longrightarrow> \<exists>r \<in> set rs. sr_id r = i \<and> sr_status r = running"
    and "held (ph w) = Some i \<Longrightarrow> held (ph w') = Some i \<Longrightarrow> w = w'"
  using assms unfolding claims_ok_def by blast+

lemma claims_ok_idle [simp]: "claims_ok rs (\<lambda>_. Idle)"
  by (simp add: claims_ok_def)

lemma claims_ok_append: "claims_ok rs ph \<Longrightarrow> claims_ok (rs @ [r]) ph"
  by (fastforce simp: claims_ok_def)

lemma claims_ok_claim:
  assumes ok: "claims_ok rs ph" and "distinct (map sr_id rs)" "x \<in> set rs" "sr_status x = queued"
  shows "claims_ok (set_record (x\<lparr>sr_status := running\<rparr>) rs) (ph(w := Judging (sr_id x)))"
proof -
  let ?rs = "set_record (x\<lparr>sr_status := running\<rparr>) rs"
  have fresh: "held (ph w') \<noteq> Some (sr_id x)" for w'
  proof
    assume "held (ph w') = Some (sr_id x)"
    then obtain r where "r \<in> set rs" "sr_id r = sr_id x" "sr_status r = running"
      using claims_okD(1) [OF ok] by blast
    then have "r = x" by (metis distinct_keys_eq [OF assms(2) _ assms(3)])
    then show False using \<open>sr_status r = running\<close> assms(4) by simp
  qed
  have own: "\<exists>r \<in> set ?rs. sr_id r = sr_id x \<and> sr_status r = running"
    by (rule bexI [OF _ set_record_in [OF assms(3)]]) simp_all
  have others: "\<exists>r \<in> set ?rs. sr_id r = i \<and> sr_status r = running"
    if held_i: "held (ph w') = Some i" for w' i
  proof -
    obtain r where r: "r \<in> set rs" "sr_id r = i" "sr_status r = running"
      using claims_okD(1) [OF ok held_i] by blast
    have "sr_id r \<noteq> sr_id x" using fresh [of w'] held_i r(2) by simp
    then show ?thesis using set_record_other [OF r(1)] r by auto
  qed
  show ?thesis
    unfolding claims_ok_def
    using own others fresh claims_okD(2) [OF ok] by (auto split: if_splits)
qed

lemma claims_ok_finish:
  assumes ok: "claims_ok rs ph" and "held (ph w) = Some (sr_id r)"
  shows "claims_ok (set_record r rs) (ph(w := Idle))"
proof -
  have "held (ph w') = Some i \<Longrightarrow> w' \<noteq> w \<Longrightarrow> i \<noteq> sr_id r" for w' i
    using assms by (auto simp: claims_ok_def)
  then show ?thesis
    unfolding claims_ok_def
    using claims_okD [OF ok] set_record_other [of _ rs r] by (auto split: if_splits) metis
qed

lemma claims_ok_phase:
  assumes ok: "claims_ok rs ph" and p: "held p = None \<or> held p = held (ph w)"
  shows "claims_ok rs (ph(w := p))"
proof -
  have same: "held ((ph(w := p)) w') = Some i \<Longrightarrow> held (ph w') = Some i" for w' i
    using p by (auto split: if_splits)
  show ?thesis
    unfolding claims_ok_def using same claims_okD [OF ok] by blast
qed

text \<open>The state of the system, over a store with its records and its invariant.\<close>

definition system_ok ::
    "('s \<Rightarrow> bool) \<Rightarrow> ('s \<Rightarrow> submission_record list) \<Rightarrow> queue_limits \<Rightarrow> 's system \<Rightarrow> bool" where
  "system_ok ok records lim y \<longleftrightarrow> ok (store y) \<and> claims_ok (records (store y)) (phase y)
     \<and> within_limits lim (records (store y))"

context submission_store
begin

lemma step_append:
  assumes "system_ok ok records limits y" "records s' = records (store y) @ [r]" "ok s'"
    "fresh_record r" "admitted limits (sr_user_id r) (records (store y))"
  shows "system_ok ok records limits (y\<lparr>store := s'\<rparr>) \<and> evolves (records (store y)) (records s')"
  using assms by (simp add: system_ok_def claims_ok_append within_limits_append)

lemma step_same:
  assumes "system_ok ok records limits y" "records s' = records (store y)" "ok s'"
    "claims_ok (records (store y)) ph"
  shows "system_ok ok records limits (y\<lparr>store := s', phase := ph\<rparr>)
    \<and> evolves (records (store y)) (records s')"
  using assms by (simp add: system_ok_def)

lemma step_claim:
  assumes y: "system_ok ok records limits y"
    and op: "claim_next_op repo e (store y) = (Inr (Some r), s')"
  shows "system_ok ok records limits (set_phase w (Judging (sr_id r)) s' y)
    \<and> evolves (records (store y)) (records s')"
proof -
  have ok: "ok (store y)" using y by (simp add: system_ok_def)
  note dist = distinct_ids [OF ok]
  obtain x where x: "x \<in> set (records (store y))" "claimable limits (records (store y)) x"
    "r = x\<lparr>sr_status := running\<rparr>" "records s' = set_record r (records (store y))"
    by (rule claimed_record [OF ok op])
  then have queued: "sr_status x = queued" by (simp add: claimable_def)
  have "evolves (records (store y)) (records s')"
    using evolves_set_record [OF dist x(1), of r] queued x(3,4)
    by (simp add: same_submission_def terminal_def)
  then show ?thesis
    using y x claims_ok_claim [OF _ dist x(1) queued] within_limits_claim [OF _ dist x(1,2)]
      claim_keeps_ok [OF ok op]
    by (simp add: system_ok_def set_phase_def)
qed

lemma step_finish:
  assumes y: "system_ok ok records limits y" and w: "held (phase y w) = Some (sr_id r)"
    and x: "x \<in> set (records (store y))" "sr_status x = running" "same_submission x r" "terminal r"
    and s': "records s' = set_record r (records (store y))" "ok s'"
  shows "system_ok ok records limits (set_phase w Idle s' y)
    \<and> evolves (records (store y)) (records s')"
proof -
  have dist: "distinct (map sr_id (records (store y)))"
    using y distinct_ids by (simp add: system_ok_def)
  have "sr_id x = sr_id r" "\<not> terminal x"
    using x by (simp_all add: same_submission_def terminal_def)
  then show ?thesis
    using y w s' claims_ok_finish within_limits_finish [OF _ dist x(1) _ x(4)]
      evolves_set_record [OF dist x(1,3)]
    by (simp add: system_ok_def set_phase_def)
qed

lemma step_complete:
  assumes y: "system_ok ok records limits y" and w: "phase y w = Judging i"
    and op: "complete_op repo e i v et (store y) = (Inr r, s')"
  shows "system_ok ok records limits (set_phase w Idle s' y)
    \<and> evolves (records (store y)) (records s')"
proof -
  have ok: "ok (store y)" using y by (simp add: system_ok_def)
  obtain x t where "x \<in> set (records (store y))" "sr_id x = i" "sr_status x = running"
    "r = x\<lparr>sr_status := completed, sr_verdict := Some v, sr_completed_at := Some t,
       sr_error_type := map_option stored et\<rparr>" "records s' = set_record r (records (store y))"
    using complete_stores [OF ok op] by blast
  then show ?thesis
    using step_finish [OF y, of w r x s'] w complete_keeps_ok [OF ok op]
    by (simp add: same_submission_def terminal_def)
qed

lemma step_fail:
  assumes y: "system_ok ok records limits y" and w: "held (phase y w) = Some i"
    and op: "fail_op repo e i et (store y) = (res, s')"
  shows "system_ok ok records limits (set_phase w Idle s' y)
    \<and> evolves (records (store y)) (records s')"
proof -
  have ok: "ok (store y)" and claims: "claims_ok (records (store y)) (phase y)"
    using y by (simp_all add: system_ok_def)
  note ok' = fail_keeps_ok [OF ok op]
  show ?thesis
  proof (cases res)
    case (Inl err)
    then show ?thesis
      using step_same [OF y _ ok' claims_ok_phase [OF claims, of Idle w]] fail_error [OF ok] op
      by (simp add: set_phase_def)
  next
    case (Inr r)
    then obtain x t where "x \<in> set (records (store y))" "sr_id x = i" "sr_status x = running"
      "r = x\<lparr>sr_status := failed, sr_completed_at := Some t,
         sr_error_type := map_option stored et\<rparr>" "records s' = set_record r (records (store y))"
      using fail_stores [OF ok, of e i et r s'] op by blast
    then show ?thesis
      using step_finish [OF y, of w r x s'] w ok' by (simp add: same_submission_def terminal_def)
  qed
qed

lemma step_preserves:
  assumes "system_step repo y y'" and y: "system_ok ok records limits y"
  shows "system_ok ok records limits y' \<and> evolves (records (store y)) (records (store y'))"
proof -
  have ok: "ok (store y)" and claims: "claims_ok (records (store y)) (phase y)"
    using y by (simp_all add: system_ok_def)
  have same: "system_ok ok records limits (y\<lparr>store := s'\<rparr>) \<and> evolves (records (store y)) (records s')"
    if "records s' = records (store y)" "ok s'" for s'
    using step_same [OF y that claims] by simp
  from assms(1) show ?thesis
  proof cases
    case (Submit e q res s')
    then show ?thesis
      using step_append [OF y _ create_keeps_ok [OF ok Submit(2)]] create_stores [OF ok, of e q _ s']
        create_error [OF ok, of e q _ s'] same [OF _ create_keeps_ok [OF ok Submit(2)]]
      by (cases res) (auto simp: stores_request_def)
  next
    case (Retry e i admin res s')
    then show ?thesis
      using step_append [OF y _ retry_keeps_ok [OF ok Retry(2)]]
        retry_stores [OF ok, of e i admin _ s'] retry_error [OF ok, of e i admin _ s']
        same [OF _ retry_keeps_ok [OF ok Retry(2)]]
      by (cases res) fastforce+
  next
    case (Audit e admin action ty entity d out s')
    then show ?thesis using audit_keeps [OF ok Audit(2)] same by auto
  next
    case (Claim w e r s')
    then show ?thesis using step_claim [OF y Claim(3)] by (simp add: set_phase_def)
  next
    case (No_claim w e claimed s' err)
    then show ?thesis
      using claim_keeps_ok [OF ok No_claim(3)] claim_none [OF ok, of e s']
        claim_error [OF ok, of e err s'] same by auto
  next
    case (Complete w i e v et r s')
    then show ?thesis using step_complete [OF y Complete(2,3)] by (simp add: set_phase_def)
  next
    case (Complete_error w i e v et err s')
    then show ?thesis
      using step_same [OF y complete_error [OF ok Complete_error(3)]
          complete_keeps_ok [OF ok Complete_error(3)]
          claims_ok_phase [OF claims, of "Persist_failed i" w]]
      by (simp add: set_phase_def)
  next
    case (Fail w i e et res s')
    then show ?thesis using step_fail [OF y Fail(2,3)] by (simp add: set_phase_def)
  next
    case (Restart e requeued s')
    have "records s' = records (store y) \<or> records s' = requeue (records (store y))"
      using recover_error [OF ok] recover_requeues [OF ok] Restart(2) by (cases requeued) blast+
    then show ?thesis
      using y recover_keeps_ok [OF ok Restart(2)] Restart(1) evolves_requeue within_limits_requeue
      by (auto simp: system_ok_def)
  qed
qed

text \<open>The invariant holds along every run, and so does the history of the records.\<close>

lemma steps_preserve:
  assumes "system_steps repo y y'" and "system_ok ok records limits y"
  shows "system_ok ok records limits y' \<and> evolves (records (store y)) (records (store y'))"
  using assms
proof (induction rule: rtranclp_induct)
  case base
  then show ?case by simp
next
  case (step y1 y2)
  then show ?case using step_preserves [OF step(2)] evolves_trans by blast
qed

end

end
