(* ===== verification/Submission_Queries.thy ===== *)
theory Submission_Queries
  imports Submission_Repository
begin

text \<open>
  The meaning of the SQL statements on the submissions table that the SQLite and the PostgreSQL
  repository share, and the lemmas that relate rows of the table to the records of the abstract
  queue. Both repositories use the same conditions (\<^verbatim>\<open>IS\<close> and
  \<^verbatim>\<open>IS NOT DISTINCT FROM\<close> treat a missing owner as one more owner).
\<close>

section \<open>Reading the enums\<close>

definition parse_verdict :: "string \<Rightarrow> verdict option" where
  "parse_verdict v =
     (if v = ''Accepted'' then Some accepted
      else if v = ''Wrong Answer'' then Some wrong_answer
      else if v = ''Runtime Error'' then Some runtime_error
      else if v = ''Time Limit Exceeded'' then Some time_limit_exceeded
      else None)"

definition parse_status :: "string \<Rightarrow> submission_status option" where
  "parse_status v =
     (if v = ''queued'' then Some queued
      else if v = ''running'' then Some running
      else if v = ''completed'' then Some completed
      else if v = ''failed'' then Some failed
      else None)"

lemma parse_verdict_name [simp]: "parse_verdict (verdict_name v) = Some v"
  by (cases v) (simp_all add: parse_verdict_def)

section \<open>Conditions and statements\<close>

definition owned_by :: "int64 option \<Rightarrow> 't submission_row \<Rightarrow> bool" where
  "owned_by u r \<longleftrightarrow> row_user_id r = u"

definition count_active :: "'t database \<Rightarrow> nat" where
  "count_active db = count_where row_active (submissions db)"

definition count_active_of :: "int64 option \<Rightarrow> 't database \<Rightarrow> nat" where
  "count_active_of u db = count_where (\<lambda>r. row_active r \<and> owned_by u r) (submissions db)"

definition has_capacity :: "queue_limits \<Rightarrow> int64 option \<Rightarrow> 't database \<Rightarrow> bool" where
  "has_capacity lim u db \<longleftrightarrow>
     int (count_active db) < int64_of_size (maximum_active_submissions lim)
     \<and> int (count_active_of u db) < int64_of_size (maximum_active_submissions_per_user lim)"

definition count_running_of :: "int64 option \<Rightarrow> 't database \<Rightarrow> nat" where
  "count_running_of u db =
     count_where (\<lambda>r. row_status r = ''running'' \<and> owned_by u r) (submissions db)"

definition queue_row ::
    "'t \<Rightarrow> string \<Rightarrow> string \<Rightarrow> string \<Rightarrow> int64 option \<Rightarrow> int64 option \<Rightarrow> 't submission_row" where
  "queue_row at problem lang code owner original =
     \<lparr>row_id = 0, row_problem_id = problem, row_language = lang, row_source_code = code,
      row_status = ''queued'', row_verdict = None, row_created_at = at, row_completed_at = None,
      row_user_id = owner, row_error_type = None, row_retry_of = original\<rparr>"

text \<open>
  An \<^verbatim>\<open>INSERT \<dots> SELECT \<dots> WHERE guard RETURNING \<dots>\<close>: None is a constraint
  violation; otherwise the returned row, if the guard held, and the new state.
\<close>

definition insert_returning ::
    "bool \<Rightarrow> nat \<Rightarrow> 't submission_row \<Rightarrow> 't database
       \<Rightarrow> ('t submission_row option \<times> 't database) option" where
  "insert_returning guard gap r db =
     (if guard then map_option (map_prod Some (\<lambda>d. d)) (insert_submission gap r db)
      else Some (None, db))"

text \<open>An \<^verbatim>\<open>UPDATE \<dots> WHERE id = i AND \<dots> RETURNING \<dots>\<close> of at most one row.\<close>

definition update_returning ::
    "('t submission_row \<Rightarrow> bool) \<Rightarrow> ('t submission_row \<Rightarrow> 't submission_row) \<Rightarrow> 't database
       \<Rightarrow> ('t submission_row option \<times> 't database) option" where
  "update_returning P f db =
     map_option (\<lambda>db'. (map_option f (List.find P (submissions db)), db'))
       (update_submissions P f db)"

definition running_row :: "int64 \<Rightarrow> 't submission_row \<Rightarrow> bool" where
  "running_row i r \<longleftrightarrow> row_id r = i \<and> row_status r = ''running''"

definition mark_completed ::
    "'t \<Rightarrow> verdict \<Rightarrow> string option \<Rightarrow> 't submission_row \<Rightarrow> 't submission_row" where
  "mark_completed at v et r = r\<lparr>row_status := ''completed'', row_verdict := Some (verdict_name v),
     row_error_type := et, row_completed_at := Some at\<rparr>"

definition mark_failed :: "'t \<Rightarrow> string option \<Rightarrow> 't submission_row \<Rightarrow> 't submission_row" where
  "mark_failed at et r =
     r\<lparr>row_status := ''failed'', row_error_type := et, row_completed_at := Some at\<rparr>"

definition claimable_row :: "size_t \<Rightarrow> 't database \<Rightarrow> 't submission_row \<Rightarrow> bool" where
  "claimable_row limit db r \<longleftrightarrow> row_status r = ''queued''
     \<and> int (count_running_of (row_user_id r) db) < int64_of_size limit"

text \<open>\<^verbatim>\<open>ORDER BY id LIMIT 1\<close> over the rows that satisfy the condition.\<close>

definition oldest :: "('t submission_row \<Rightarrow> bool) \<Rightarrow> 't database \<Rightarrow> int64 option" where
  "oldest P db = (case sort_key row_id (filter P (submissions db)) of [] \<Rightarrow> None
     | r # _ \<Rightarrow> Some (row_id r))"

definition queued_row :: "int64 option \<Rightarrow> 't submission_row \<Rightarrow> bool" where
  "queued_row candidate r \<longleftrightarrow> candidate = Some (row_id r) \<and> row_status r = ''queued''"

definition mark_running :: "'t submission_row \<Rightarrow> 't submission_row" where
  "mark_running r = r\<lparr>row_status := ''running''\<rparr>"

definition mark_queued :: "'t submission_row \<Rightarrow> 't submission_row" where
  "mark_queued r = r\<lparr>row_status := ''queued''\<rparr>"

definition retryable_row :: "'t database \<Rightarrow> int64 \<Rightarrow> 't submission_row \<Rightarrow> bool" where
  "retryable_row db i r \<longleftrightarrow> row_id r = i
     \<and> (row_status r = ''failed'' \<or> row_verdict r = Some ''Runtime Error'')
     \<and> \<not> (\<exists>x \<in> set (submissions db). row_retry_of x = Some i)"

text \<open>\<^verbatim>\<open>ORDER BY created_at DESC, id DESC\<close>; identifiers are unique.\<close>

definition newest_first :: "('t::linorder) submission_row list \<Rightarrow> 't submission_row list" where
  "newest_first rs = rev (sort_key (\<lambda>r. (row_created_at r, row_id r)) rs)"

text \<open>
  The status parameter of an administrator's filter: the display name with its first character in
  lower case.
\<close>

definition status_parameter :: "submission_status \<Rightarrow> string" where
  "status_parameter s = (submission_status_name s)[0 := tolower (submission_status_name s ! 0)]"

text \<open>
  The row \<^verbatim>\<open>retry\<close> copies, the insertion of the copy, and the audit record.
\<close>

definition retry_source ::
    "queue_limits \<Rightarrow> int64 \<Rightarrow> 't database \<Rightarrow> 't submission_row option" where
  "retry_source lim i db = List.find (\<lambda>r. retryable_row db i r
       \<and> has_capacity lim (row_user_id r) db) (submissions db)"

definition insert_retry ::
    "queue_limits \<Rightarrow> nat \<Rightarrow> 't \<Rightarrow> int64 \<Rightarrow> 't database
       \<Rightarrow> ('t submission_row option \<times> 't database) option" where
  "insert_retry lim gap at i db =
     (case retry_source lim i db of None \<Rightarrow> Some (None, db)
      | Some r \<Rightarrow> insert_returning True gap
          (queue_row at (row_problem_id r) (row_language r) (row_source_code r) (row_user_id r)
             (Some (row_id r))) db)"

definition audit_entry ::
    "'t \<Rightarrow> int64 \<Rightarrow> string \<Rightarrow> string \<Rightarrow> string \<Rightarrow> string \<Rightarrow> 't audit_row" where
  "audit_entry at admin action entity_type entity_id details =
     \<lparr>aud_id = 0, aud_admin_user_id = admin, aud_action = action, aud_entity_type = entity_type,
      aud_entity_id = entity_id, aud_details_json = details, aud_created_at = at\<rparr>"

definition retry_details :: "int64 \<Rightarrow> string" where
  "retry_details i = ''{\"retrySubmissionId\":'' @ to_string i @ ''}''"

section \<open>The streak query\<close>

text \<open>
  \<open>days\<close> are the days with an accepted submission. The query numbers the distinct days
  from the latest one, counts those whose distance to the latest day equals their position, and
  answers 0 when the latest day is before yesterday.
\<close>

definition streak_query :: "int \<Rightarrow> int list \<Rightarrow> nat" where
  "streak_query today days =
     (case rev (sort (remdups days)) of
        [] \<Rightarrow> 0
      | latest # earlier \<Rightarrow>
          if latest < today - 1 then 0
          else let ordered = latest # earlier
               in count_where (\<lambda>(day, position). latest - day = int position)
                    (zip ordered [0..<length ordered]))"

section \<open>The progress queries\<close>

definition user_rows :: "int64 \<Rightarrow> 't database \<Rightarrow> 't submission_row list" where
  "user_rows u db = filter (\<lambda>r. row_user_id r = Some u) (submissions db)"

definition accepted_rows :: "int64 \<Rightarrow> 't database \<Rightarrow> 't submission_row list" where
  "accepted_rows u db = filter (\<lambda>r. row_verdict r = Some ''Accepted'') (user_rows u db)"

definition most_recent_problem :: "int64 \<Rightarrow> ('t::linorder) database \<Rightarrow> string option" where
  "most_recent_problem u db = (case newest_first (user_rows u db) of [] \<Rightarrow> None
     | r # _ \<Rightarrow> Some (row_problem_id r))"

text \<open>The completion times of the rows whose \<^verbatim>\<open>completed_at\<close> is not NULL.\<close>

definition completions :: "'t submission_row list \<Rightarrow> (string \<times> 't) list" where
  "completions rs = List.map_filter
     (\<lambda>r. map_option (\<lambda>t. (row_problem_id r, t)) (row_completed_at r)) rs"

text \<open>
  \<^verbatim>\<open>SELECT problem_id, MIN(completed_at) \<dots> GROUP BY problem_id ORDER BY MIN(completed_at)
  DESC\<close>; the engine chooses the order of the groups (\<open>scan\<close>), and with it the order
  of equal times.
\<close>

definition first_completions ::
    "(string list \<Rightarrow> string list) \<Rightarrow> (string \<times> ('t::linorder)) list \<Rightarrow> (string \<times> 't) list" where
  "first_completions scan cs =
     rev (sort_key snd (map (\<lambda>p. (p, Min (set (map snd (filter (\<lambda>c. fst c = p) cs)))))
       (scan (remdups (map fst cs)))))"

section \<open>Rows and records\<close>

text \<open>A row of a well-formed table as the record the repositories hand out.\<close>

definition record_of :: "('t \<Rightarrow> string) \<Rightarrow> 't submission_row \<Rightarrow> submission_record" where
  "record_of txt r =
     \<lparr>sr_id = row_id r, sr_problem_id = row_problem_id r, sr_language = row_language r,
      sr_source_code = row_source_code r, sr_status = the (parse_status (row_status r)),
      sr_verdict = Option.bind (row_verdict r) parse_verdict, sr_created_at = txt (row_created_at r),
      sr_completed_at = map_option txt (row_completed_at r), sr_user_id = row_user_id r,
      sr_error_type = row_error_type r, sr_retry_of = row_retry_of r\<rparr>"

definition records_of :: "('t \<Rightarrow> string) \<Rightarrow> 't database \<Rightarrow> submission_record list" where
  "records_of txt db = map (record_of txt) (submissions db)"

lemma record_of_simps [simp]:
  "sr_id (record_of txt r) = row_id r" "sr_problem_id (record_of txt r) = row_problem_id r"
  "sr_language (record_of txt r) = row_language r"
  "sr_source_code (record_of txt r) = row_source_code r"
  "sr_user_id (record_of txt r) = row_user_id r"
  "sr_error_type (record_of txt r) = row_error_type r"
  "sr_retry_of (record_of txt r) = row_retry_of r"
  "sr_created_at (record_of txt r) = txt (row_created_at r)"
  "sr_completed_at (record_of txt r) = map_option txt (row_completed_at r)"
  by (simp_all add: record_of_def)

lemma check_statusE:
  assumes "submission_check r"
  obtains (queued) "row_status r = ''queued''" "row_verdict r = None" "row_completed_at r = None"
    | (running) "row_status r = ''running''" "row_verdict r = None" "row_completed_at r = None"
    | (completed) v t where "row_status r = ''completed''" "row_verdict r = Some (verdict_name v)"
        "row_completed_at r = Some t"
    | (failed) t where "row_status r = ''failed''" "row_verdict r = None" "row_completed_at r = Some t"
proof -
  have "\<exists>w. v = verdict_name w"
    if "v \<in> {''Accepted'', ''Wrong Answer'', ''Runtime Error'', ''Time Limit Exceeded''}" for v
    using that verdict_name.simps by (metis empty_iff insert_iff)
  then have "row_verdict r = None \<or> (\<exists>w. row_verdict r = Some (verdict_name w))"
    using assms by (auto simp: submission_check_def check_verdict_def simp del: insert_iff
        split: option.splits)
  then show ?thesis
    using assms that unfolding submission_check_def check_lifecycle_def by blast
qed

lemma record_status_iff:
  assumes "submission_check r"
  shows "sr_status (record_of txt r) = queued \<longleftrightarrow> row_status r = ''queued''"
    and "sr_status (record_of txt r) = running \<longleftrightarrow> row_status r = ''running''"
    and "sr_status (record_of txt r) = completed \<longleftrightarrow> row_status r = ''completed''"
    and "sr_status (record_of txt r) = failed \<longleftrightarrow> row_status r = ''failed''"
  using assms by (cases rule: check_statusE; simp add: record_of_def parse_status_def)+

lemma record_active_iff: "submission_check r \<Longrightarrow> active (record_of txt r) \<longleftrightarrow> row_active r"
  by (simp add: active_def row_active_def record_status_iff)

lemma record_verdict_iff:
  assumes "submission_check r"
  shows "sr_verdict (record_of txt r) = Some v \<longleftrightarrow> row_verdict r = Some (verdict_name v)"
  using assms by (cases rule: check_statusE) (auto simp: record_of_def)

lemma record_lifecycle: "submission_check r \<Longrightarrow> lifecycle_ok (record_of txt r)"
  by (cases r rule: check_statusE)
    (auto simp: lifecycle_ok_def active_def record_of_def parse_status_def)

lemma records_ascending: "wf_submissions db \<Longrightarrow> ascending sr_id (records_of txt db)"
  by (simp add: records_of_def wf_submissions_def comp_def)

lemma records_distinct: "wf_submissions db \<Longrightarrow> distinct (map sr_id (records_of txt db))"
  by (rule ascending_distinct [OF records_ascending])

lemma wf_record_id:
  assumes "wf_submissions db" "x \<in> set (records_of txt db)"
  shows "0 < sr_id x" "int64_range (sr_id x)"
  using assms by (fastforce simp: records_of_def wf_submissions_def int64_range_def)+

lemma records_lifecycle: "wf_submissions db \<Longrightarrow> r \<in> set (records_of txt db) \<Longrightarrow> lifecycle_ok r"
  by (auto simp: records_of_def wf_submission_check record_lifecycle)

lemma count_where_records:
  assumes "wf_submissions db" "\<And>r. submission_check r \<Longrightarrow> P (record_of txt r) = Q r"
  shows "count_where P (records_of txt db) = count_where Q (submissions db)"
  unfolding records_of_def count_where_map
  by (rule count_where_cong) (simp add: assms(2) wf_submission_check [OF assms(1)])

lemma count_active_records: "wf_submissions db \<Longrightarrow> count_where active (records_of txt db) = count_active db"
  by (simp add: count_active_def count_where_records record_active_iff)

lemma active_of_records: "wf_submissions db \<Longrightarrow> active_of u (records_of txt db) = count_active_of u db"
  by (simp add: active_of_def count_active_of_def owned_by_def count_where_records record_active_iff)

lemma running_of_records:
  "wf_submissions db \<Longrightarrow> running_of u (records_of txt db) = count_running_of u db"
  by (simp add: running_of_def count_running_of_def owned_by_def count_where_records
      record_status_iff)

lemma admitted_records:
  "wf_submissions db \<Longrightarrow> admitted lim u (records_of txt db) \<longleftrightarrow> has_capacity lim u db"
  by (simp add: admitted_def has_capacity_def below_def count_active_records active_of_records)

lemma claimable_records:
  "wf_submissions db \<Longrightarrow> r \<in> set (submissions db) \<Longrightarrow>
     claimable lim (records_of txt db) (record_of txt r)
       \<longleftrightarrow> claimable_row (maximum_running_submissions_per_user lim) db r"
  by (simp add: claimable_def claimable_row_def below_def running_of_records record_status_iff
      wf_submission_check)

section \<open>The statements on well-formed tables\<close>

text \<open>A statement on rows acts on the records through \<open>record_of\<close>.\<close>

lemma insert_returning_records:
  assumes "wf_submissions db" "insert_returning guard gap r db = Some (Some r', db')"
  shows "guard" "wf_submissions db'" "submission_check r'"
    "r' = r\<lparr>row_id := submissions_seq db + 1 + int gap\<rparr>"
    "records_of txt db' = records_of txt db @ [record_of txt r']"
    "users db' = users db"
proof -
  have ins: "insert_submission gap r db = Some (r', db')" and "guard"
    using assms(2) by (auto simp: insert_returning_def split: if_splits)
  note new = insert_submission_Some [OF ins]
  show "guard" by fact
  show "wf_submissions db'" by (rule wf_insert_submission [OF assms(1) ins])
  show "submission_check r'" "r' = r\<lparr>row_id := submissions_seq db + 1 + int gap\<rparr>"
    by (rule new)+
  show "records_of txt db' = records_of txt db @ [record_of txt r']" "users db' = users db"
    by (simp_all add: new(2) records_of_def)
qed

lemma insert_returning_None:
  "insert_returning guard gap r db = Some (None, db') \<Longrightarrow> db' = db \<and> \<not> guard"
  by (auto simp: insert_returning_def split: if_splits)

lemma update_returning_db:
  "update_returning P f db = Some (found, db') \<Longrightarrow>
     update_submissions P f db = Some db' \<and> found = map_option f (List.find P (submissions db))"
  by (auto simp: update_returning_def)

lemma wf_update_returning:
  "wf_submissions db \<Longrightarrow> keeps_keys f \<Longrightarrow> update_returning P f db = Some (found, db') \<Longrightarrow>
     wf_submissions db'"
  by (blast dest: update_returning_db intro: wf_update_submissions)

lemma update_returning_None:
  assumes "update_returning P f db = Some (None, db')"
  shows "db' = db" "\<And>r. r \<in> set (submissions db) \<Longrightarrow> \<not> P r"
proof -
  have upd: "update_submissions P f db = Some db'" and "List.find P (submissions db) = None"
    using assms by (auto simp: update_returning_def)
  then show none: "\<And>r. r \<in> set (submissions db) \<Longrightarrow> \<not> P r"
    by (auto simp: find_None_iff)
  show "db' = db"
    using update_submissions_Some(1) [OF upd] none by (simp add: update_where_none)
qed

text \<open>
  An update of the single row with a given identifier replaces one record of the queue.
\<close>

lemma update_returning_records:
  assumes wf: "wf_submissions db" and keys: "keeps_keys f"
    and P: "\<And>r. P r \<Longrightarrow> row_id r = i"
    and upd: "update_returning P f db = Some (Some r', db')"
  obtains r where "r \<in> set (submissions db)" "P r" "r' = f r" "submission_check (f r)"
    "wf_submissions db'" "records_of txt db' = set_record (record_of txt r') (records_of txt db)"
    "users db' = users db"
proof -
  from upd obtain r where r: "List.find P (submissions db) = Some r" "r' = f r"
    and us: "update_submissions P f db = Some db'"
    by (auto simp: update_returning_def)
  from r(1) have in_r: "r \<in> set (submissions db)" "P r" by (auto dest: find_Some_iff_in)
  have uniq: "P x \<longleftrightarrow> row_id x = row_id r" if "x \<in> set (submissions db)" for x
    using that in_r P distinct_keys_eq [OF wf_distinct_ids [OF wf]] by metis
  have same: "x = r" if "x \<in> set (submissions db)" "row_id x = row_id r" for x
    using that in_r distinct_keys_eq [OF wf_distinct_ids [OF wf]] by metis
  have "update_where P f (submissions db) = update_where (\<lambda>x. row_id x = row_id r') (\<lambda>_. r') (submissions db)"
    using uniq same by (auto simp: update_where_def r(2) keeps_keysD [OF keys])
  then have "records_of txt db' = set_record (record_of txt r') (records_of txt db)"
    using update_submissions_Some(1) [OF us]
    by (simp add: records_of_def set_record_def map_update_where_comm [where Q = "\<lambda>x. sr_id x = row_id r'"
        and g = "\<lambda>_. record_of txt r'"])
  then show ?thesis
    using in_r r(2) update_submissions_Some [OF us] wf_update_submissions [OF wf us keys]
    by (intro that [of r]) auto
qed

text \<open>The row a statement returns is a row of the new table.\<close>

lemma insert_returning_in:
  "insert_returning guard gap r db = Some (Some r', db') \<Longrightarrow> r' \<in> set (submissions db')"
  by (auto simp: insert_returning_def dest!: insert_submission_Some(2) split: if_splits)

lemma update_returning_in:
  assumes "update_returning P f db = Some (Some r', db')"
  shows "r' \<in> set (submissions db')"
proof -
  from assms obtain r where r: "List.find P (submissions db) = Some r" "r' = f r"
    and upd: "update_submissions P f db = Some db'"
    by (auto simp: update_returning_def)
  then show ?thesis
    using find_Some_iff_in [OF r(1)] update_submissions_Some(1) [OF upd]
    by (auto simp: set_update_where intro!: image_eqI [of _ _ r])
qed

lemma keeps_keys_marks [simp]:
  "keeps_keys (mark_completed at v et)" "keeps_keys (mark_failed at et)"
  "keeps_keys mark_running" "keeps_keys mark_queued"
  by (simp_all add: keeps_keys_def mark_completed_def mark_failed_def mark_running_def mark_queued_def)

text \<open>The checks of the schema never reject the transitions the code makes.\<close>

lemma verdict_name_checked:
  "verdict_name v \<in> {''Accepted'', ''Wrong Answer'', ''Runtime Error'', ''Time Limit Exceeded''}"
  by (cases v) (simp_all only: verdict_name.simps insert_iff simp_thms)

lemma check_completedI:
  assumes "row_status r = ''completed''" "row_verdict r = Some (verdict_name v)"
    "row_completed_at r = Some t"
  shows "submission_check r"
proof -
  have "check_status r" by (simp only: check_status_def assms(1) insert_iff simp_thms)
  moreover have "check_verdict r"
    by (simp only: check_verdict_def assms(2) option.case verdict_name_checked)
  moreover have "check_lifecycle r"
    by (simp only: check_lifecycle_def assms option.distinct simp_thms not_False_eq_True)
  ultimately show ?thesis by (simp only: submission_check_def simp_thms)
qed

lemma check_mark_completed: "submission_check (mark_completed at v et r)"
  by (rule check_completedI [of _ v at]) (simp_all add: mark_completed_def)

lemma active_row_none:
  assumes "submission_check r" "row_active r"
  shows "row_verdict r = None" "row_completed_at r = None"
  using assms(1)
proof (atomize(full), cases rule: check_statusE)
  case (completed v t)
  then show "row_verdict r = None \<and> row_completed_at r = None"
    using assms(2) by (simp add: row_active_def)
next
  case (failed t)
  then show "row_verdict r = None \<and> row_completed_at r = None"
    using assms(2) by (simp add: row_active_def)
qed blast+

lemma check_mark_active:
  assumes "submission_check r" "row_active r"
  shows "submission_check (mark_failed at et r)" "submission_check (mark_running r)"
    "submission_check (mark_queued r)"
  using active_row_none [OF assms]
  unfolding submission_check_def check_status_def check_verdict_def check_lifecycle_def
    mark_failed_def mark_running_def mark_queued_def
  by simp_all

lemma row_activeI:
  "row_status r = ''running'' \<Longrightarrow> row_active r" "row_status r = ''queued'' \<Longrightarrow> row_active r"
  "running_row i r \<Longrightarrow> row_active r" "queued_row c r \<Longrightarrow> row_active r"
  "claimable_row n db r \<Longrightarrow> row_active r"
  by (auto simp: row_active_def running_row_def queued_row_def claimable_row_def)

lemma update_returning_succeeds:
  assumes "wf_submissions db" "\<And>r. submission_check r \<Longrightarrow> P r \<Longrightarrow> submission_check (f r)"
  obtains found db' where "update_returning P f db = Some (found, db')"
  using assms by (auto simp: update_returning_def update_submissions_def wf_submission_check)

lemma update_returning_hits:
  assumes "wf_submissions db" "\<And>r. submission_check r \<Longrightarrow> P r \<Longrightarrow> submission_check (f r)"
    "r \<in> set (submissions db)" "P r"
  obtains r' db' where "update_returning P f db = Some (Some r', db')"
proof -
  have "List.find P (submissions db) \<noteq> None" using assms(3,4) by (auto simp: find_None_iff)
  then show ?thesis
    using assms that by (auto simp: update_returning_def update_submissions_def wf_submission_check)
qed

lemma complete_hits:
  assumes "wf_submissions db" "r \<in> set (submissions db)" "row_status r = ''running''"
  obtains r' db' where
    "update_returning (running_row (row_id r)) (mark_completed at v et) db = Some (Some r', db')"
  using update_returning_hits [where P = "running_row (row_id r)" and f = "mark_completed at v et",
      OF assms(1) check_mark_completed assms(2)] assms(3)
  by (auto simp: running_row_def)

lemma fail_hits:
  assumes "wf_submissions db" "r \<in> set (submissions db)" "row_status r = ''running''"
  obtains r' db' where
    "update_returning (running_row (row_id r)) (mark_failed at et) db = Some (Some r', db')"
  using update_returning_hits [where P = "running_row (row_id r)" and f = "mark_failed at et",
      OF assms(1) check_mark_active(1) assms(2)] assms(3)
  by (auto simp: running_row_def row_activeI)

lemma recover_succeeds:
  assumes "wf_submissions db"
  obtains db' where "update_submissions (\<lambda>r. row_status r = ''running'') mark_queued db = Some db'"
proof -
  have "\<forall>r \<in> set (filter (\<lambda>r. row_status r = ''running'') (submissions db)).
      submission_check (mark_queued r)"
    using wf_submission_check [OF assms] by (auto intro: check_mark_active row_activeI)
  then show ?thesis using that by (simp add: update_submissions_def)
qed

lemma claim_succeeds:
  assumes "wf_submissions db" "\<And>r. P r \<Longrightarrow> row_active r"
  obtains found db' where "update_returning P mark_running db = Some (found, db')"
  using update_returning_succeeds [where P = P and f = mark_running, OF assms(1)] assms(2)
    check_mark_active(2) by blast

lemma running_record:
  assumes "wf_submissions db" "x \<in> set (records_of txt db)" "sr_status x = running"
  obtains r where "r \<in> set (submissions db)" "row_status r = ''running''" "row_id r = sr_id x"
  using assms by (auto simp: records_of_def record_status_iff wf_submission_check)

lemma oldest_find:
  assumes "wf_submissions db"
  shows "oldest P db = map_option row_id (List.find P (submissions db))"
proof -
  have "sorted (map row_id (submissions db))"
    using assms by (auto simp: wf_submissions_def strict_sorted_iff)
  then have "sorted (map row_id (filter P (submissions db)))"
    by (rule sorted_filter)
  then have "sort_key row_id (filter P (submissions db)) = filter P (submissions db)"
    by (rule sort_key_id_if_sorted)
  moreover have "(case filter P xs of [] \<Rightarrow> None | r # _ \<Rightarrow> Some (row_id r))
      = map_option row_id (List.find P xs)" for xs :: "'a submission_row list"
    by (induction xs) auto
  ultimately show ?thesis by (simp add: oldest_def)
qed

section \<open>The operations on records\<close>

lemma record_of_changes:
  "record_of txt (mark_completed at v et r) = (record_of txt r)\<lparr>sr_status := completed,
     sr_verdict := Some v, sr_completed_at := Some (txt at), sr_error_type := et\<rparr>"
  "record_of txt (mark_failed at et r) = (record_of txt r)\<lparr>sr_status := failed,
     sr_completed_at := Some (txt at), sr_error_type := et\<rparr>"
  "record_of txt (mark_running r) = (record_of txt r)\<lparr>sr_status := running\<rparr>"
  "record_of txt (mark_queued r) = (record_of txt r)\<lparr>sr_status := queued\<rparr>"
  by (simp_all add: record_of_def mark_completed_def mark_failed_def mark_running_def
      mark_queued_def parse_status_def)

lemma record_of_fresh:
  "fresh_record (record_of txt ((queue_row at p l c u i)\<lparr>row_id := n\<rparr>))"
  by (simp add: fresh_record_def record_of_def queue_row_def parse_status_def)

lemma complete_records:
  assumes "wf_submissions db"
    "update_returning (running_row i) (mark_completed at v et) db = Some (Some r, db')"
  shows "wf_submissions db'" "submission_check r"
    "\<exists>x. x \<in> set (records_of txt db) \<and> sr_id x = i \<and> sr_status x = running
       \<and> record_of txt r = x\<lparr>sr_status := completed, sr_verdict := Some v,
           sr_completed_at := Some (txt at), sr_error_type := et\<rparr>
       \<and> records_of txt db' = set_record (record_of txt r) (records_of txt db)"
proof -
  obtain x where x: "x \<in> set (submissions db)" "running_row i x" "r = mark_completed at v et x"
    and upd: "submission_check (mark_completed at v et x)" "wf_submissions db'"
      "records_of txt db' = set_record (record_of txt r) (records_of txt db)"
    using update_returning_records [OF assms(1) _ _ assms(2), of i "txt"]
    by (auto simp: running_row_def)
  show "wf_submissions db'" "submission_check r" using upd x by simp_all
  show "\<exists>x. x \<in> set (records_of txt db) \<and> sr_id x = i \<and> sr_status x = running
       \<and> record_of txt r = x\<lparr>sr_status := completed, sr_verdict := Some v,
           sr_completed_at := Some (txt at), sr_error_type := et\<rparr>
       \<and> records_of txt db' = set_record (record_of txt r) (records_of txt db)"
    using x upd wf_submission_check [OF assms(1) x(1)]
    by (intro exI [of _ "record_of txt x"])
      (auto simp: records_of_def running_row_def record_status_iff record_of_changes)
qed

lemma fail_records:
  assumes "wf_submissions db"
    "update_returning (running_row i) (mark_failed at et) db = Some (Some r, db')"
  shows "wf_submissions db'" "submission_check r"
    "\<exists>x. x \<in> set (records_of txt db) \<and> sr_id x = i \<and> sr_status x = running
       \<and> record_of txt r = x\<lparr>sr_status := failed, sr_completed_at := Some (txt at),
           sr_error_type := et\<rparr>
       \<and> records_of txt db' = set_record (record_of txt r) (records_of txt db)"
proof -
  obtain x where x: "x \<in> set (submissions db)" "running_row i x" "r = mark_failed at et x"
    and upd: "submission_check (mark_failed at et x)" "wf_submissions db'"
      "records_of txt db' = set_record (record_of txt r) (records_of txt db)"
    using update_returning_records [OF assms(1) _ _ assms(2), of i "txt"]
    by (auto simp: running_row_def)
  show "wf_submissions db'" "submission_check r" using upd x by simp_all
  show "\<exists>x. x \<in> set (records_of txt db) \<and> sr_id x = i \<and> sr_status x = running
       \<and> record_of txt r = x\<lparr>sr_status := failed, sr_completed_at := Some (txt at),
           sr_error_type := et\<rparr>
       \<and> records_of txt db' = set_record (record_of txt r) (records_of txt db)"
    using x upd wf_submission_check [OF assms(1) x(1)]
    by (intro exI [of _ "record_of txt x"])
      (auto simp: records_of_def running_row_def record_status_iff record_of_changes)
qed

lemma create_records:
  assumes wf: "wf_submissions db"
    and ins: "insert_returning (has_capacity lim u db) gap (queue_row at p l c u None) db
      = Some (Some r, db')"
  shows "wf_submissions db'" "submission_check r"
    "records_of txt db' = records_of txt db @ [record_of txt r]"
    "fresh_record (record_of txt r)" "row_problem_id r = p"
    "row_language r = l" "row_source_code r = c"
    "row_user_id r = u" "row_retry_of r = None"
    "admitted lim u (records_of txt db)"
proof -
  note new = insert_returning_records [OF wf ins]
  show "wf_submissions db'" "submission_check r"
    "records_of txt db' = records_of txt db @ [record_of txt r]" by (rule new)+
  show "admitted lim u (records_of txt db)" using new(1) by (simp add: admitted_records [OF wf])
  show "fresh_record (record_of txt r)" by (simp add: new(4) record_of_fresh)
  show "row_problem_id r = p" "row_language r = l"
    "row_source_code r = c" "row_user_id r = u"
    "row_retry_of r = None"
    by (simp_all add: new(4) queue_row_def)
qed

text \<open>
  The claim statements of both repositories update the row whose identifier the subquery chose; the
  subquery chooses the first claimable record.
\<close>

lemma find_claimable_records:
  assumes "wf_submissions db"
  shows "List.find (claimable lim (records_of txt db)) (records_of txt db)
    = map_option (record_of txt)
        (List.find (claimable_row (maximum_running_submissions_per_user lim) db) (submissions db))"
proof -
  have "List.find (claimable lim (records_of txt db) \<circ> record_of txt) (submissions db)
      = List.find (claimable_row (maximum_running_submissions_per_user lim) db) (submissions db)"
    by (rule find_cong) (simp add: claimable_records [OF assms])
  then show ?thesis by (simp add: records_of_def find_map)
qed

definition claims_candidate ::
    "queue_limits \<Rightarrow> 't database \<Rightarrow> ('t submission_row \<Rightarrow> bool) \<Rightarrow> bool" where
  "claims_candidate lim db P \<longleftrightarrow> (\<forall>r \<in> set (submissions db). P r \<longleftrightarrow>
     oldest (claimable_row (maximum_running_submissions_per_user lim) db) db = Some (row_id r))"

lemma claims_candidate_queued:
  assumes "wf_submissions db"
  shows "claims_candidate lim db
    (queued_row (oldest (claimable_row (maximum_running_submissions_per_user lim) db) db))"
proof -
  have "row_status r = ''queued''" if in_r: "r \<in> set (submissions db)"
    and cand: "oldest (claimable_row n db) db = Some (row_id r)" for r n
  proof -
    obtain z where "z \<in> set (submissions db)" "claimable_row n db z" "row_id z = row_id r"
      using cand by (auto simp: oldest_find [OF assms] dest!: find_Some_iff_in)
    then show ?thesis
      using distinct_keys_eq [OF wf_distinct_ids [OF assms] in_r, of z]
      by (simp add: claimable_row_def)
  qed
  then show ?thesis by (auto simp: claims_candidate_def queued_row_def)
qed

lemma claim_none_records:
  assumes wf: "wf_submissions db" and P: "claims_candidate lim db P"
    and upd: "update_returning P mark_running db = Some (None, db')"
  shows "db' = db" "List.find (claimable lim (records_of txt db)) (records_of txt db) = None"
proof -
  show "db' = db" by (rule update_returning_None(1) [OF upd])
  have "\<not> claimable_row (maximum_running_submissions_per_user lim) db r"
    if "r \<in> set (submissions db)" for r
  proof
    assume "claimable_row (maximum_running_submissions_per_user lim) db r"
    then have "List.find (claimable_row (maximum_running_submissions_per_user lim) db)
        (submissions db) \<noteq> None"
      using that by (auto simp: find_None_iff)
    then obtain x where "List.find (claimable_row (maximum_running_submissions_per_user lim) db)
        (submissions db) = Some x"
      by auto
    then have "x \<in> set (submissions db)" "P x"
      using P by (auto simp: claims_candidate_def oldest_find [OF wf] dest: find_Some_iff_in)
    then show False using update_returning_None(2) [OF upd] by blast
  qed
  then show "List.find (claimable lim (records_of txt db)) (records_of txt db) = None"
    by (simp add: find_claimable_records [OF wf] find_None_iff)
qed

lemma claim_some_records:
  assumes wf: "wf_submissions db" and P: "claims_candidate lim db P"
    and upd: "update_returning P mark_running db = Some (Some r, db')"
  shows "wf_submissions db'" "submission_check r"
    "\<exists>x. List.find (claimable lim (records_of txt db)) (records_of txt db) = Some x
       \<and> record_of txt r = x\<lparr>sr_status := running\<rparr>
       \<and> records_of txt db' = set_record (record_of txt r) (records_of txt db)"
proof -
  let ?c = "claimable_row (maximum_running_submissions_per_user lim) db"
  define Q where "Q r \<longleftrightarrow> oldest ?c db = Some (row_id r)" for r :: "'a submission_row"
  have PQ: "P x = Q x" if "x \<in> set (submissions db)" for x
    using P that by (simp add: claims_candidate_def Q_def)
  then have "filter P (submissions db) = filter Q (submissions db)"
    by (simp cong: filter_cong)
  moreover have "update_where P mark_running (submissions db) = update_where Q mark_running (submissions db)"
    using PQ by (simp add: update_where_def)
  ultimately have "List.find P (submissions db) = List.find Q (submissions db)"
    "update_submissions P mark_running db = update_submissions Q mark_running db"
    using PQ by (simp_all only: update_submissions_def find_cong [OF PQ])
  then have "update_returning Q mark_running db = Some (Some r, db')"
    using upd by (simp add: update_returning_def)
  then obtain x where x: "x \<in> set (submissions db)" "Q x" "r = mark_running x"
    and res: "submission_check (mark_running x)" "wf_submissions db'"
      "records_of txt db' = set_record (record_of txt r) (records_of txt db)"
    using update_returning_records [OF wf, of mark_running Q "the (oldest ?c db)" r db' "txt"]
    by (auto simp: Q_def)
  show "wf_submissions db'" "submission_check r" using res x by simp_all
  from x(2) obtain y where y: "List.find ?c (submissions db) = Some y" "row_id y = row_id x"
    by (auto simp: Q_def oldest_find [OF wf])
  then have "y = x"
    using x(1) distinct_keys_eq [OF wf_distinct_ids [OF wf]] by (metis find_Some_iff_in)
  then show "\<exists>x. List.find (claimable lim (records_of txt db)) (records_of txt db) = Some x
       \<and> record_of txt r = x\<lparr>sr_status := running\<rparr>
       \<and> records_of txt db' = set_record (record_of txt r) (records_of txt db)"
    using y res x by (simp add: find_claimable_records [OF wf] record_of_changes)
qed

lemma recover_records:
  assumes wf: "wf_submissions db"
    and upd: "update_submissions (\<lambda>r. row_status r = ''running'') mark_queued db = Some db'"
  shows "wf_submissions db'" "records_of txt db' = requeue (records_of txt db)"
    "count_where (\<lambda>r. row_status r = ''running'') (submissions db)
       = count_where (\<lambda>r. sr_status r = running) (records_of txt db)"
proof -
  show "wf_submissions db'" by (rule wf_update_submissions [OF wf upd]) simp
  show "records_of txt db' = requeue (records_of txt db)"
    unfolding update_submissions_Some(1) [OF upd] records_of_def requeue_def
    by (simp, rule map_update_where_comm)
      (simp_all add: record_status_iff wf_submission_check [OF wf] record_of_changes)
  show "count_where (\<lambda>r. row_status r = ''running'') (submissions db)
       = count_where (\<lambda>r. sr_status r = running) (records_of txt db)"
    by (simp add: count_where_records [OF wf] record_status_iff)
qed

lemma retryable_records:
  assumes wf: "wf_submissions db" and r: "r \<in> set (submissions db)" "retryable_row db i r"
  shows "retryable (records_of txt db) (record_of txt r)"
  using r wf_submission_check [OF wf r(1)] record_verdict_iff [of r "txt" runtime_error]
  by (auto simp: retryable_row_def retryable_def record_status_iff records_of_def)

lemma retry_records:
  assumes wf: "wf_submissions db" and ins: "insert_retry lim gap at i db = Some (Some r, db')"
  shows "wf_submissions db'" "submission_check r" "users db' = users db"
    "\<exists>x. x \<in> set (records_of txt db) \<and> sr_id x = i \<and> retryable (records_of txt db) x
       \<and> admitted lim (sr_user_id x) (records_of txt db) \<and> fresh_record (record_of txt r)
       \<and> sr_problem_id (record_of txt r) = sr_problem_id x
       \<and> sr_language (record_of txt r) = sr_language x
       \<and> sr_source_code (record_of txt r) = sr_source_code x
       \<and> sr_user_id (record_of txt r) = sr_user_id x \<and> sr_retry_of (record_of txt r) = Some i
       \<and> records_of txt db' = records_of txt db @ [record_of txt r]"
proof -
  from ins obtain x where src: "retry_source lim i db = Some x"
    and ins': "insert_returning True gap (queue_row at (row_problem_id x) (row_language x)
        (row_source_code x) (row_user_id x) (Some (row_id x))) db = Some (Some r, db')"
    by (auto simp: insert_retry_def split: option.splits)
  from src have x: "x \<in> set (submissions db)" "retryable_row db i x"
    "has_capacity lim (row_user_id x) db"
    by (auto simp: retry_source_def dest: find_Some_iff_in)
  note new = insert_returning_records [OF wf ins']
  show "wf_submissions db'" "submission_check r" "users db' = users db" by (rule new)+
  show "\<exists>x. x \<in> set (records_of txt db) \<and> sr_id x = i \<and> retryable (records_of txt db) x
       \<and> admitted lim (sr_user_id x) (records_of txt db) \<and> fresh_record (record_of txt r)
       \<and> sr_problem_id (record_of txt r) = sr_problem_id x
       \<and> sr_language (record_of txt r) = sr_language x
       \<and> sr_source_code (record_of txt r) = sr_source_code x
       \<and> sr_user_id (record_of txt r) = sr_user_id x \<and> sr_retry_of (record_of txt r) = Some i
       \<and> records_of txt db' = records_of txt db @ [record_of txt r]"
    using x retryable_records [OF wf x(1,2), of "txt"] new(5) [of "txt"]
    unfolding new(4)
    by (intro exI [of _ "record_of txt x"])
      (auto simp: records_of_def admitted_records [OF wf, unfolded records_of_def] record_of_fresh
        retryable_row_def, simp_all add: queue_row_def)
qed

lemma insert_retry_in:
  "insert_retry lim gap at i db = Some (Some r, db') \<Longrightarrow> r \<in> set (submissions db')"
  by (auto simp: insert_retry_def insert_returning_in split: option.splits)

lemma insert_audit_records:
  assumes "insert_audit gap a db = Some db'"
  shows "wf_submissions db' = wf_submissions db" "records_of txt db' = records_of txt db"
proof -
  have same: "submissions db' = submissions db" "submissions_seq db' = submissions_seq db"
    "users db' = users db"
    using assms by (auto simp: insert_audit_def Let_def split: if_splits)
  then have "submission_references db' = submission_references db"
    by (simp only: submission_references_def fun_eq_iff simp_thms)
  then show "wf_submissions db' = wf_submissions db"
    by (simp only: wf_submissions_def same)
  show "records_of txt db' = records_of txt db"
    by (simp only: records_of_def same)
qed

end
