(* ===== verification/Sqlite_Engine.thy ===== *)
theory Sqlite_Engine
  imports Schema
begin

text \<open>
  What the repositories use of SQLite. The engine is not part of the program: what it decides during
  one member function is a record \<open>sqlite_env\<close>, an argument of the model. The statements of
  a call are numbered from 0.

  \<^item> \<open>prepare_fault n\<close>: the message when \<^verbatim>\<open>sqlite3_prepare_v2\<close> rejects statement
    \<open>n\<close>;
  \<^item> \<open>step_fault n k\<close>: whether step \<open>k\<close> of statement \<open>n\<close> fails for a reason
    outside the model (lock time-out, I/O error);
  \<^item> \<open>errmsg n\<close>: what \<^verbatim>\<open>sqlite3_errmsg\<close> reports at that point of the call;
  \<^item> \<open>exec_fault n\<close>: the message when the \<open>n\<close>-th \<^verbatim>\<open>sqlite3_exec\<close> fails;
  \<^item> \<open>now\<close>, \<open>day_of\<close>, \<open>today\<close>: the clock and the date functions;
  \<^item> \<open>view n\<close>: the state statement \<open>n\<close> of a call outside a transaction sees, since other
    connections may have written after the earlier ones;
  \<^item> \<open>group_scan\<close>: the order in which a \<^verbatim>\<open>GROUP BY\<close> produces its groups.

  A statement that fails leaves the database unchanged, and one that returned a row has been executed
  (SQLite makes all changes of a \<^verbatim>\<open>RETURNING\<close> statement in its first step). An I/O error
  at the implicit commit when such a statement is finalized is not modelled.
\<close>

section \<open>The engine\<close>

record sqlite_env =
  prepare_fault :: "nat \<Rightarrow> string option"
  step_fault :: "nat \<Rightarrow> nat \<Rightarrow> bool"
  errmsg :: "nat \<Rightarrow> string"
  exec_fault :: "nat \<Rightarrow> string option"
  now :: string
  view :: "nat \<Rightarrow> string database \<Rightarrow> string database"
  day_of :: "string \<Rightarrow> int"
  today :: int
  group_scan :: "string list \<Rightarrow> string list"

definition sqlite_healthy :: "sqlite_env \<Rightarrow> bool" where
  "sqlite_healthy e \<longleftrightarrow> (\<forall>n. prepare_fault e n = None) \<and> (\<forall>n k. \<not> step_fault e n k)
     \<and> (\<forall>n. exec_fault e n = None)"

text \<open>The first \<^verbatim>\<open>sqlite3_step\<close> of the \<open>n\<close>-th statement of a call.\<close>

datatype 'r step_result = Row 'r | Done | Step_error

definition sqlite_step ::
    "sqlite_env \<Rightarrow> nat \<Rightarrow> ('r option \<times> 's) option \<Rightarrow> 's \<Rightarrow> 'r step_result \<times> 's" where
  "sqlite_step e n effect s =
     (if step_fault e n 0 then (Step_error, s)
      else case effect of None \<Rightarrow> (Step_error, s)
        | Some (None, s') \<Rightarrow> (Done, s')
        | Some (Some r, s') \<Rightarrow> (Row r, s'))"

text \<open>An engine without faults, for examples.\<close>

definition quiet_engine :: sqlite_env where
  "quiet_engine = \<lparr>prepare_fault = \<lambda>_. None, step_fault = \<lambda>_ _. False, errmsg = \<lambda>_. [],
     exec_fault = \<lambda>_. None, now = ''2026-01-01'', view = \<lambda>_ d. d, day_of = \<lambda>_. 0, today = 0,
     group_scan = \<lambda>ps. ps\<rparr>"

lemma quiet_engine_healthy [simp]: "sqlite_healthy quiet_engine"
  by (simp add: sqlite_healthy_def quiet_engine_def)

end
