(* ===== verification/Sqlite_Submissions.thy ===== *)
theory Sqlite_Submissions
  imports Judging_System Submission_Queries Sqlite_Engine
begin

text \<open>
  \<^verbatim>\<open>SQLiteSubmissionRepository\<close>
  (\<^verbatim>\<open>backend/src/sqlite-submission-repository.cpp\<close>): every member function with each
  of its error returns, and the interpretation of \<open>submission_store\<close> on them. Time stamps
  are ISO 8601 text.
\<close>

definition database_error :: "sqlite_env \<Rightarrow> nat \<Rightarrow> string \<Rightarrow> repository_error" where
  "database_error e n operation = RepositoryError (operation @ '': '' @ errmsg e n)"

definition execute_error :: "string \<Rightarrow> repository_error" where
  "execute_error detail = RepositoryError (''SQLite operation failed: '' @ detail)"

section \<open>Reading a row\<close>

definition read_record :: "string submission_row \<Rightarrow> repository_error + submission_record" where
  "read_record r =
     (case parse_status (row_status r) of
        None \<Rightarrow> Inl (RepositoryError ''Database contains an unknown submission status'')
      | Some status \<Rightarrow>
          let verdict = (case row_verdict r of None \<Rightarrow> None | Some v \<Rightarrow> parse_verdict v)
          in if row_verdict r \<noteq> None \<and> verdict = None
             then Inl (RepositoryError ''Database contains an unknown submission verdict'')
             else Inr \<lparr>sr_id = row_id r, sr_problem_id = row_problem_id r,
                       sr_language = row_language r, sr_source_code = row_source_code r,
                       sr_status = status, sr_verdict = verdict, sr_created_at = row_created_at r,
                       sr_completed_at = row_completed_at r, sr_user_id = row_user_id r,
                       sr_error_type = row_error_type r, sr_retry_of = row_retry_of r\<rparr>)"

text \<open>The loop that reads the rows of a SELECT, from its \<open>k\<close>-th step on.\<close>

fun read_rows ::
    "sqlite_env \<Rightarrow> string \<Rightarrow> nat \<Rightarrow> string submission_row list
       \<Rightarrow> repository_error + submission_record list" where
  "read_rows e operation k [] =
     (if step_fault e 0 k then Inl (database_error e 0 operation) else Inr [])"
| "read_rows e operation k (r # rs) =
     (if step_fault e 0 k then Inl (database_error e 0 operation)
      else case read_record r of Inl err \<Rightarrow> Inl err
        | Inr record \<Rightarrow> (case read_rows e operation (Suc k) rs of Inl err \<Rightarrow> Inl err
            | Inr records \<Rightarrow> Inr (record # records)))"

section \<open>Operations\<close>

definition sqlite_create ::
    "queue_limits \<Rightarrow> sqlite_env \<Rightarrow> submission_request \<Rightarrow> string database
       \<Rightarrow> (repository_error + submission_record) \<times> string database" where
  "sqlite_create lim e q db =
     (case prepare_fault e 0 of Some m \<Rightarrow> (Inl (RepositoryError m), db)
      | None \<Rightarrow>
        (case sqlite_step e 0
            (insert_returning (has_capacity lim (rq_user_id q) db) 0
              (queue_row (now e) (rq_problem_id q) (rq_language q) (rq_code q) (rq_user_id q) None)
              db) db of
           (Done, db') \<Rightarrow>
             (case prepare_fault e 1 of Some m \<Rightarrow> (Inl (RepositoryError m), db')
              | None \<Rightarrow>
                if \<not> step_fault e 1 0
                   \<and> maximum_active_submissions_per_user lim
                       \<le> (word_of_nat (count_active_of (rq_user_id q) (view e 1 db')) :: size_t)
                then (Inl \<lparr>re_message = ''Too many active submissions for this user'',
                           re_code = user_submission_limit\<rparr>, db')
                else (Inl \<lparr>re_message = ''Submission queue is full'', re_code = queue_full\<rparr>, db'))
         | (Step_error, db') \<Rightarrow> (Inl (database_error e 0 ''Could not create submission''), db')
         | (Row r, db') \<Rightarrow> (read_record r, db')))"

definition sqlite_complete ::
    "sqlite_env \<Rightarrow> int64 \<Rightarrow> verdict \<Rightarrow> string option \<Rightarrow> string database
       \<Rightarrow> (repository_error + submission_record) \<times> string database" where
  "sqlite_complete e i v error_type db =
     (case prepare_fault e 0 of Some m \<Rightarrow> (Inl (RepositoryError m), db)
      | None \<Rightarrow>
        (case sqlite_step e 0
            (update_returning (running_row i) (mark_completed (now e) v error_type) db) db of
           (Row r, db') \<Rightarrow> (read_record r, db')
         | (_, db') \<Rightarrow> (Inl (RepositoryError ''Submission is missing or is not running''), db')))"

definition sqlite_fail ::
    "sqlite_env \<Rightarrow> int64 \<Rightarrow> string option \<Rightarrow> string database
       \<Rightarrow> (repository_error + submission_record) \<times> string database" where
  "sqlite_fail e i error_type db =
     (case prepare_fault e 0 of Some m \<Rightarrow> (Inl (RepositoryError m), db)
      | None \<Rightarrow>
        (case sqlite_step e 0
            (update_returning (running_row i) (mark_failed (now e) error_type) db) db of
           (Row r, db') \<Rightarrow> (read_record r, db')
         | (_, db') \<Rightarrow> (Inl (RepositoryError ''Submission is missing or is not running''), db')))"

definition sqlite_claim_next ::
    "queue_limits \<Rightarrow> sqlite_env \<Rightarrow> string database
       \<Rightarrow> (repository_error + submission_record option) \<times> string database" where
  "sqlite_claim_next lim e db =
     (case prepare_fault e 0 of Some m \<Rightarrow> (Inl (RepositoryError m), db)
      | None \<Rightarrow>
        (case sqlite_step e 0
            (update_returning
              (queued_row (oldest
                 (claimable_row (maximum_running_submissions_per_user lim) db) db))
              mark_running db) db of
           (Done, db') \<Rightarrow> (Inr None, db')
         | (Step_error, db') \<Rightarrow> (Inl (database_error e 0 ''Could not claim queued submission''), db')
         | (Row r, db') \<Rightarrow>
             (case read_record r of Inl err \<Rightarrow> (Inl err, db') | Inr record \<Rightarrow> (Inr (Some record), db'))))"

definition sqlite_recover_running ::
    "sqlite_env \<Rightarrow> string database \<Rightarrow> (repository_error + nat) \<times> string database" where
  "sqlite_recover_running e db =
     (case prepare_fault e 0 of Some m \<Rightarrow> (Inl (RepositoryError m), db)
      | None \<Rightarrow>
        if step_fault e 0 0
        then (Inl (database_error e 0 ''Could not recover running submissions''), db)
        else case update_submissions (\<lambda>r. row_status r = ''running'') mark_queued db of
            None \<Rightarrow> (Inl (database_error e 0 ''Could not recover running submissions''), db)
          | Some db' \<Rightarrow>
              (Inr (count_where (\<lambda>r. row_status r = ''running'') (submissions db)), db'))"

definition sqlite_find ::
    "sqlite_env \<Rightarrow> int64 \<Rightarrow> string database \<Rightarrow> repository_error + submission_record option" where
  "sqlite_find e i db =
     (case prepare_fault e 0 of Some m \<Rightarrow> Inl (RepositoryError m)
      | None \<Rightarrow>
        if step_fault e 0 0 then Inl (database_error e 0 ''Could not retrieve submission'')
        else case List.find (\<lambda>r. row_id r = i) (submissions db) of
            None \<Rightarrow> Inr None
          | Some r \<Rightarrow> (case read_record r of Inl err \<Rightarrow> Inl err | Inr record \<Rightarrow> Inr (Some record)))"

definition sqlite_history ::
    "sqlite_env \<Rightarrow> int64 \<Rightarrow> string \<Rightarrow> string database
       \<Rightarrow> repository_error + submission_record list" where
  "sqlite_history e user problem db =
     (case prepare_fault e 0 of Some m \<Rightarrow> Inl (RepositoryError m)
      | None \<Rightarrow> read_rows e ''Could not retrieve submission history'' 0
          (newest_first (filter (\<lambda>r. row_user_id r = Some user \<and> row_problem_id r = problem)
             (submissions db))))"

definition sqlite_list_all ::
    "sqlite_env \<Rightarrow> string database \<Rightarrow> repository_error + submission_record list" where
  "sqlite_list_all e db =
     (case prepare_fault e 0 of Some m \<Rightarrow> Inl (RepositoryError m)
      | None \<Rightarrow> read_rows e ''Could not retrieve submissions'' 0 (newest_first (submissions db)))"

text \<open>
  The clauses of \<open>list_filtered\<close>; an absent field adds no clause, and a NULL column equals
  nothing.
\<close>

definition sqlite_filter_row :: "submission_admin_filter \<Rightarrow> string submission_row \<Rightarrow> bool" where
  "sqlite_filter_row f r \<longleftrightarrow>
     (case fl_status f of None \<Rightarrow> True | Some s \<Rightarrow> row_status r = status_parameter s) \<and>
     (case fl_error_type f of None \<Rightarrow> True | Some t \<Rightarrow> row_error_type r = Some t) \<and>
     (case fl_language f of None \<Rightarrow> True | Some l \<Rightarrow> row_language r = l) \<and>
     (case fl_problem_id f of None \<Rightarrow> True | Some p \<Rightarrow> row_problem_id r = p) \<and>
     (case fl_user_id f of None \<Rightarrow> True | Some u \<Rightarrow> row_user_id r = Some u) \<and>
     (case fl_created_from f of None \<Rightarrow> True | Some t \<Rightarrow> t \<le> row_created_at r) \<and>
     (case fl_created_to f of None \<Rightarrow> True | Some t \<Rightarrow> row_created_at r \<le> t)"

definition sqlite_list_filtered ::
    "sqlite_env \<Rightarrow> submission_admin_filter \<Rightarrow> string database
       \<Rightarrow> repository_error + submission_record list" where
  "sqlite_list_filtered e f db =
     (case prepare_fault e 0 of Some m \<Rightarrow> Inl (RepositoryError m)
      | None \<Rightarrow> read_rows e ''Could not filter submissions'' 0
          (take 500 (newest_first (filter (sqlite_filter_row f) (submissions db)))))"

text \<open>
  The insertion of the copy and the audit record run inside
  \<^verbatim>\<open>BEGIN IMMEDIATE\<close> \<dots> \<^verbatim>\<open>COMMIT\<close>; every error rolls the transaction
  back. The message of a failed audit insertion is read after the rollback.
\<close>

definition sqlite_retry ::
    "queue_limits \<Rightarrow> sqlite_env \<Rightarrow> int64 \<Rightarrow> int64 \<Rightarrow> string database
       \<Rightarrow> (repository_error + submission_record) \<times> string database" where
  "sqlite_retry lim e i admin db =
     (case exec_fault e 0 of Some m \<Rightarrow> (Inl (execute_error m), db)
      | None \<Rightarrow>
      (case prepare_fault e 0 of Some m \<Rightarrow> (Inl (RepositoryError m), db)
       | None \<Rightarrow>
       (case sqlite_step e 0 (insert_retry lim 0 (now e) i db) db of
          (Row r, db') \<Rightarrow>
            (case read_record r of Inl err \<Rightarrow> (Inl err, db)
             | Inr record \<Rightarrow>
               (case prepare_fault e 1 of Some m \<Rightarrow> (Inl (RepositoryError m), db)
                | None \<Rightarrow>
                  if step_fault e 1 0
                  then (Inl (database_error e 2 ''Could not audit submission retry''), db)
                  else
                  (case insert_audit 0 (audit_entry (now e) admin ''submission.retry'' ''submission''
                          (to_string i) (retry_details (sr_id record))) db' of
                     None \<Rightarrow> (Inl (database_error e 2 ''Could not audit submission retry''), db)
                   | Some db'' \<Rightarrow>
                       (case exec_fault e 1 of Some m \<Rightarrow> (Inl (execute_error m), db)
                        | None \<Rightarrow> (Inr record, db'')))))
        | (_, db') \<Rightarrow>
            (Inl (RepositoryError ''Submission is not retryable or was already retried''), db))))"

definition sqlite_audit ::
    "sqlite_env \<Rightarrow> int64 \<Rightarrow> string \<Rightarrow> string \<Rightarrow> string \<Rightarrow> string \<Rightarrow> string database
       \<Rightarrow> (repository_error + unit) \<times> string database" where
  "sqlite_audit e admin action entity_type entity_id details db =
     (case prepare_fault e 0 of Some m \<Rightarrow> (Inl (RepositoryError m), db)
      | None \<Rightarrow>
        if step_fault e 0 0
        then (Inl (database_error e 0 ''Could not write admin audit record''), db)
        else case insert_audit 0 (audit_entry (now e) admin action entity_type entity_id details) db of
            None \<Rightarrow> (Inl (database_error e 0 ''Could not write admin audit record''), db)
          | Some db' \<Rightarrow> (Inr (), db'))"

text \<open>The loop over the completed problems, the last of the four statements of \<open>progress\<close>.\<close>

fun read_completed ::
    "sqlite_env \<Rightarrow> nat \<Rightarrow> (string \<times> string) list \<Rightarrow> repository_error + completed_problem list" where
  "read_completed e k [] =
     (if step_fault e 3 k then Inl (database_error e 3 ''Could not retrieve completed problems'')
      else Inr [])"
| "read_completed e k ((p, t) # rows) =
     (if step_fault e 3 k then Inl (database_error e 3 ''Could not retrieve completed problems'')
      else case read_completed e (Suc k) rows of Inl err \<Rightarrow> Inl err
        | Inr cs \<Rightarrow> Inr (\<lparr>cp_problem_id = p, cp_completed_at = t\<rparr> # cs))"

definition sqlite_progress ::
    "sqlite_env \<Rightarrow> int64 \<Rightarrow> string database \<Rightarrow> repository_error + user_progress" where
  "sqlite_progress e user db =
     (case prepare_fault e 0 of Some m \<Rightarrow> Inl (RepositoryError m)
      | None \<Rightarrow>
      if step_fault e 0 0 then Inl (database_error e 0 ''Could not retrieve user activity'')
      else
      (case prepare_fault e 1 of Some m \<Rightarrow> Inl (RepositoryError m)
       | None \<Rightarrow>
       if step_fault e 1 0
       then Inl (database_error e 1 ''Could not retrieve most recent submission problem'')
       else
       (case prepare_fault e 2 of Some m \<Rightarrow> Inl (RepositoryError m)
        | None \<Rightarrow>
        if step_fault e 2 0 then Inl (database_error e 2 ''Could not retrieve user streak'')
        else
        (case prepare_fault e 3 of Some m \<Rightarrow> Inl (RepositoryError m)
         | None \<Rightarrow>
         (case read_completed e 0 (first_completions (group_scan e)
                 (completions (accepted_rows user (view e 3 db)))) of
            Inl err \<Rightarrow> Inl err
          | Inr cs \<Rightarrow> Inr
             \<lparr>total_submissions = int (length (user_rows user db)),
              accepted_submissions = int (length (accepted_rows user db)),
              current_streak_days = int (streak_query (today e)
                (map (day_of e \<circ> snd) (completions (accepted_rows user (view e 2 db))))),
              most_recent_submission_problem_id = most_recent_problem user (view e 1 db),
              completed_problems = cs\<rparr>)))))"

definition sqlite_repository ::
    "queue_limits \<Rightarrow> (sqlite_env, string database) submission_repository" where
  "sqlite_repository lim =
     \<lparr>create_op = sqlite_create lim, complete_op = sqlite_complete, fail_op = sqlite_fail,
      claim_next_op = sqlite_claim_next lim, recover_running_op = sqlite_recover_running,
      find_op = sqlite_find, history_op = sqlite_history, progress_op = sqlite_progress,
      list_all_op = sqlite_list_all, list_filtered_op = sqlite_list_filtered,
      retry_op = sqlite_retry lim, audit_op = sqlite_audit\<rparr>"

section \<open>The operations on well-formed databases\<close>

lemma sqlite_step_iff [simp]:
  "sqlite_step e n eff s = (Row r, s') \<longleftrightarrow> \<not> step_fault e n 0 \<and> eff = Some (Some r, s')"
  "sqlite_step e n eff s = (Done, s') \<longleftrightarrow> \<not> step_fault e n 0 \<and> eff = Some (None, s')"
  "sqlite_step e n eff s = (Step_error, s') \<longleftrightarrow> (step_fault e n 0 \<or> eff = None) \<and> s' = s"
  by (auto simp: sqlite_step_def split: option.splits)

lemma read_record_ok: "submission_check r \<Longrightarrow> read_record r = Inr (record_of (\<lambda>t. t) r)"
  by (cases r rule: check_statusE)
    (simp_all add: read_record_def record_of_def parse_status_def option.map_ident)

text \<open>
  A call either reports an error and changes nothing, or has executed its statement and reads the
  row back.
\<close>

lemma sqlite_createE:
  assumes wf: "wf_submissions db" and res: "sqlite_create lim e q db = (res, db')"
  obtains (error) err where "res = Inl err" "db' = db"
    | (stored) r where "res = Inr (record_of (\<lambda>t. t) r)"
        "insert_returning (has_capacity lim (rq_user_id q) db) 0
           (queue_row (now e) (rq_problem_id q) (rq_language q) (rq_code q) (rq_user_id q) None)
           db = Some (Some r, db')"
proof -
  consider (error) err where "res = Inl err" "db' = db"
    | (stored) r where "res = read_record r"
        "insert_returning (has_capacity lim (rq_user_id q) db) 0
           (queue_row (now e) (rq_problem_id q) (rq_language q) (rq_code q) (rq_user_id q) None)
           db = Some (Some r, db')"
    using res unfolding sqlite_create_def
    by (auto split: option.splits prod.splits step_result.splits if_splits
        dest: insert_returning_None)
  then show ?thesis
    by cases (auto intro: that simp: read_record_ok create_records(2) [OF wf])
qed

lemma sqlite_completeE:
  assumes wf: "wf_submissions db" and res: "sqlite_complete e i v et db = (res, db')"
  obtains (error) err where "res = Inl err" "db' = db"
    | (stored) r where "res = Inr (record_of (\<lambda>t. t) r)"
        "update_returning (running_row i) (mark_completed (now e) v et) db = Some (Some r, db')"
proof -
  consider (error) err where "res = Inl err" "db' = db"
    | (stored) r where "res = read_record r"
        "update_returning (running_row i) (mark_completed (now e) v et) db = Some (Some r, db')"
    using res unfolding sqlite_complete_def
    by (auto split: option.splits prod.splits step_result.splits dest: update_returning_None(1))
  then show ?thesis
    by cases (auto intro: that simp: read_record_ok complete_records(2) [OF wf])
qed

lemma sqlite_failE:
  assumes wf: "wf_submissions db" and res: "sqlite_fail e i et db = (res, db')"
  obtains (error) err where "res = Inl err" "db' = db"
    | (stored) r where "res = Inr (record_of (\<lambda>t. t) r)"
        "update_returning (running_row i) (mark_failed (now e) et) db = Some (Some r, db')"
proof -
  consider (error) err where "res = Inl err" "db' = db"
    | (stored) r where "res = read_record r"
        "update_returning (running_row i) (mark_failed (now e) et) db = Some (Some r, db')"
    using res unfolding sqlite_fail_def
    by (auto split: option.splits prod.splits step_result.splits dest: update_returning_None(1))
  then show ?thesis
    by cases (auto intro: that simp: read_record_ok fail_records(2) [OF wf])
qed

lemma sqlite_claimE:
  assumes wf: "wf_submissions db" and res: "sqlite_claim_next lim e db = (res, db')"
  obtains (error) err where "res = Inl err" "db' = db"
    | (none) "res = Inr None" "update_returning (queued_row (oldest
          (claimable_row (maximum_running_submissions_per_user lim) db) db)) mark_running db
          = Some (None, db')"
    | (some) r where "res = Inr (Some (record_of (\<lambda>t. t) r))"
        "update_returning (queued_row (oldest
          (claimable_row (maximum_running_submissions_per_user lim) db) db)) mark_running db
          = Some (Some r, db')"
proof -
  note checked = claim_some_records(2) [OF wf claims_candidate_queued [OF wf, of lim]]
  show ?thesis
    using res that unfolding sqlite_claim_next_def
    by (auto split: option.splits prod.splits step_result.splits simp: checked read_record_ok)
qed

lemma sqlite_recoverE:
  assumes "sqlite_recover_running e db = (res, db')"
  obtains (error) err where "res = Inl err" "db' = db"
    | (requeued) "res = Inr (count_where (\<lambda>r. row_status r = ''running'') (submissions db))"
        "update_submissions (\<lambda>r. row_status r = ''running'') mark_queued db = Some db'"
  using assms unfolding sqlite_recover_running_def
  by (auto split: option.splits if_splits)

lemma sqlite_retryE:
  assumes wf: "wf_submissions db" and res: "sqlite_retry lim e i admin db = (res, db')"
  obtains (error) err where "res = Inl err" "db' = db"
    | (stored) r db'' where "res = Inr (record_of (\<lambda>t. t) r)"
        "insert_retry lim 0 (now e) i db = Some (Some r, db'')"
        "insert_audit 0 (audit_entry (now e) admin ''submission.retry'' ''submission'' (to_string i)
           (retry_details (row_id r))) db'' = Some db'"
proof -
  have read: "read_record r = Inr (record_of (\<lambda>t. t) r)"
    if "insert_retry lim 0 (now e) i db = Some (Some r, db'')" for r db''
    by (rule read_record_ok [OF retry_records(2) [OF wf that]])
  show ?thesis
    using res that unfolding sqlite_retry_def
    by (auto split: option.splits if_splits prod.splits step_result.splits simp: read)
qed

section \<open>The contract\<close>

text \<open>A healthy engine lets the worker's calls succeed.\<close>

lemma sqlite_complete_healthy:
  assumes "wf_submissions db" "sqlite_healthy e" "x \<in> set (records_of txt db)"
    "sr_status x = running"
  shows "\<exists>r db'. sqlite_complete e (sr_id x) v et db = (Inr r, db')"
proof -
  obtain r where r: "r \<in> set (submissions db)" "row_status r = ''running''" "row_id r = sr_id x"
    by (rule running_record [OF assms(1,3,4)])
  obtain r' db' where upd: "update_returning (running_row (row_id r))
      (mark_completed (now e) v et) db = Some (Some r', db')"
    by (rule complete_hits [OF assms(1) r(1,2)])
  then show ?thesis
    using assms(2) r(3) read_record_ok [OF complete_records(2) [OF assms(1) upd]]
    by (simp add: sqlite_complete_def sqlite_step_def sqlite_healthy_def)
qed

lemma sqlite_fail_healthy:
  assumes "wf_submissions db" "sqlite_healthy e" "x \<in> set (records_of txt db)"
    "sr_status x = running"
  shows "\<exists>r db'. sqlite_fail e (sr_id x) et db = (Inr r, db')"
proof -
  obtain r where r: "r \<in> set (submissions db)" "row_status r = ''running''" "row_id r = sr_id x"
    by (rule running_record [OF assms(1,3,4)])
  obtain r' db' where upd: "update_returning (running_row (row_id r))
      (mark_failed (now e) et) db = Some (Some r', db')"
    by (rule fail_hits [OF assms(1) r(1,2)])
  then show ?thesis
    using assms(2) r(3) read_record_ok [OF fail_records(2) [OF assms(1) upd]]
    by (simp add: sqlite_fail_def sqlite_step_def sqlite_healthy_def)
qed

lemma sqlite_claim_healthy:
  assumes wf: "wf_submissions db" and e: "sqlite_healthy e"
  shows "\<exists>x db'. sqlite_claim_next lim e db = (Inr x, db')"
proof -
  let ?P = "queued_row (oldest (claimable_row (maximum_running_submissions_per_user lim) db) db)"
  obtain found db' where upd: "update_returning ?P mark_running db = Some (found, db')"
    by (rule claim_succeeds [OF wf row_activeI(4)])
  show ?thesis
  proof (cases found)
    case None
    then show ?thesis
      using e upd by (simp add: sqlite_claim_next_def sqlite_step_def sqlite_healthy_def)
  next
    case (Some r)
    then have "read_record r = Inr (record_of (\<lambda>t. t) r)"
      using read_record_ok claim_some_records(2) [OF wf claims_candidate_queued [OF wf]] upd by blast
    then show ?thesis
      using e upd Some by (simp add: sqlite_claim_next_def sqlite_step_def sqlite_healthy_def)
  qed
qed

abbreviation sqlite_records :: "string database \<Rightarrow> submission_record list" where
  "sqlite_records \<equiv> records_of (\<lambda>t. t)"

lemma sqlite_auditE:
  assumes "sqlite_audit e admin action ty entity d db = (res, db')"
  obtains "db' = db" | "insert_audit 0 (audit_entry (now e) admin action ty entity d) db = Some db'"
  using assms by (auto simp: sqlite_audit_def split: option.splits if_splits)

interpretation sqlite: submission_store "sqlite_repository lim" lim "\<lambda>s. s" sqlite_records
  wf_submissions sqlite_healthy for lim
proof (unfold_locales, unfold sqlite_repository_def submission_repository.simps)
  fix s :: "string database"
  assume wf: "wf_submissions s"
  show "ascending sr_id (sqlite_records s)" by (rule records_ascending [OF wf])
  show "lifecycle_ok r" if "r \<in> set (sqlite_records s)" for r
    by (rule records_lifecycle [OF wf that])
  fix e s'
  {
    fix q
    note create = sqlite_createE [OF wf, of lim e q] and stored = create_records [OF wf]
    show "wf_submissions s'" if "sqlite_create lim e q s = (res, s')" for res
      using that by (rule create) (auto simp: wf stored(1))
    show "sqlite_records s' = sqlite_records s" if "sqlite_create lim e q s = (Inl err, s')" for err
      using that by (rule create) simp_all
    show "sqlite_records s' = sqlite_records s @ [r] \<and> fresh_record r
        \<and> stores_request (\<lambda>s. s) q r \<and> sr_retry_of r = None
        \<and> admitted lim (rq_user_id q) (sqlite_records s)"
      if "sqlite_create lim e q s = (Inr r, s')" for r
      using that by (rule create) (auto simp: stores_request_def stored(3-))
  }
  {
    fix i v et
    note complete = sqlite_completeE [OF wf, of e i v et] and stored = complete_records [OF wf]
    show "wf_submissions s'" if "sqlite_complete e i v et s = (res, s')" for res
      using that by (rule complete) (auto simp: wf stored(1))
    show "sqlite_records s' = sqlite_records s" if "sqlite_complete e i v et s = (Inl err, s')" for err
      using that by (rule complete) simp_all
    show "\<exists>x t. x \<in> set (sqlite_records s) \<and> sr_id x = i \<and> sr_status x = running
          \<and> r = x\<lparr>sr_status := completed, sr_verdict := Some v, sr_completed_at := Some t,
                  sr_error_type := map_option (\<lambda>s. s) et\<rparr>
          \<and> sqlite_records s' = set_record r (sqlite_records s)"
      if "sqlite_complete e i v et s = (Inr r, s')" for r
      using that by (rule complete)
        (auto dest!: stored(3) [where ?txt = "\<lambda>t. t"] simp: option.map_ident)
    show "\<exists>r s'. sqlite_complete e (sr_id x) v et s = (Inr r, s')"
      if "sqlite_healthy e" "x \<in> set (sqlite_records s)" "sr_status x = running" for x
      by (rule sqlite_complete_healthy [OF wf that])
  }
  {
    fix i et
    note fail = sqlite_failE [OF wf, of e i et] and stored = fail_records [OF wf]
    show "wf_submissions s'" if "sqlite_fail e i et s = (res, s')" for res
      using that by (rule fail) (auto simp: wf stored(1))
    show "sqlite_records s' = sqlite_records s" if "sqlite_fail e i et s = (Inl err, s')" for err
      using that by (rule fail) simp_all
    show "\<exists>x t. x \<in> set (sqlite_records s) \<and> sr_id x = i \<and> sr_status x = running
          \<and> r = x\<lparr>sr_status := failed, sr_completed_at := Some t,
                  sr_error_type := map_option (\<lambda>s. s) et\<rparr>
          \<and> sqlite_records s' = set_record r (sqlite_records s)"
      if "sqlite_fail e i et s = (Inr r, s')" for r
      using that by (rule fail)
        (auto dest!: stored(3) [where ?txt = "\<lambda>t. t"] simp: option.map_ident)
    show "\<exists>r s'. sqlite_fail e (sr_id x) et s = (Inr r, s')"
      if "sqlite_healthy e" "x \<in> set (sqlite_records s)" "sr_status x = running" for x
      by (rule sqlite_fail_healthy [OF wf that])
  }
  note claim = sqlite_claimE [OF wf, of lim e]
    and none = claim_none_records [OF wf claims_candidate_queued [OF wf, of lim]]
    and some = claim_some_records [OF wf claims_candidate_queued [OF wf, of lim]]
  show "wf_submissions s'" if "sqlite_claim_next lim e s = (res, s')" for res
    using that by (rule claim) (auto simp: wf some(1) dest: none(1))
  show "sqlite_records s' = sqlite_records s" if "sqlite_claim_next lim e s = (Inl err, s')" for err
    using that by (rule claim) simp_all
  show "sqlite_records s' = sqlite_records s
      \<and> List.find (claimable lim (sqlite_records s)) (sqlite_records s) = None"
    if "sqlite_claim_next lim e s = (Inr None, s')"
    using that by (rule claim) (auto dest: none(1) intro: none(2))
  show "\<exists>x. List.find (claimable lim (sqlite_records s)) (sqlite_records s) = Some x
      \<and> r = x\<lparr>sr_status := running\<rparr> \<and> sqlite_records s' = set_record r (sqlite_records s)"
    if "sqlite_claim_next lim e s = (Inr (Some r), s')" for r
    using that by (rule claim) (auto dest!: some(3) [where ?txt = "\<lambda>t. t"])
  show "\<exists>r s'. sqlite_claim_next lim e s = (Inr r, s')" if "sqlite_healthy e"
    by (rule sqlite_claim_healthy [OF wf that])
  note requeued = recover_records [OF wf]
  show "wf_submissions s'" if "sqlite_recover_running e s = (res, s')" for res
    using that by (rule sqlite_recoverE) (auto simp: wf requeued(1))
  show "sqlite_records s' = sqlite_records s" if "sqlite_recover_running e s = (Inl err, s')" for err
    using that by (rule sqlite_recoverE) simp_all
  show "sqlite_records s' = requeue (sqlite_records s)
      \<and> n = count_where (\<lambda>r. sr_status r = running) (sqlite_records s)"
    if "sqlite_recover_running e s = (Inr n, s')" for n
    using that by (rule sqlite_recoverE) (auto simp: requeued(2,3))
  show "found = List.find (\<lambda>r. sr_id r = i) (sqlite_records s)"
    if "sqlite_find e i s = Inr found" for i found
    using that wf_submission_check [OF wf]
    by (auto simp: sqlite_find_def records_of_def find_map comp_def read_record_ok
        dest!: find_Some_iff_in split: option.splits if_splits)
  {
    fix i admin
    note retry = sqlite_retryE [OF wf, of lim e i admin] and stored = retry_records [OF wf]
    show "wf_submissions s'" if "sqlite_retry lim e i admin s = (res, s')" for res
      using that by (rule retry) (auto simp: wf stored(1) insert_audit_records)
    show "sqlite_records s' = sqlite_records s" if "sqlite_retry lim e i admin s = (Inl err, s')" for err
      using that by (rule retry) simp_all
    show "\<exists>x. x \<in> set (sqlite_records s) \<and> sr_id x = i \<and> retryable (sqlite_records s) x
          \<and> admitted lim (sr_user_id x) (sqlite_records s) \<and> fresh_record r
          \<and> sr_problem_id r = sr_problem_id x \<and> sr_language r = sr_language x
          \<and> sr_source_code r = sr_source_code x \<and> sr_user_id r = sr_user_id x
          \<and> sr_retry_of r = Some i \<and> sqlite_records s' = sqlite_records s @ [r]"
      if "sqlite_retry lim e i admin s = (Inr r, s')" for r
      using that by (rule retry)
        (auto dest!: stored(4) [where ?txt = "\<lambda>t. t"] simp: insert_audit_records)
  }
  show "wf_submissions s' \<and> sqlite_records s' = sqlite_records s"
    if "sqlite_audit e admin action ty entity d s = (outcome, s')" for admin action ty entity d outcome
    using that by (rule sqlite_auditE) (auto simp: wf insert_audit_records)
qed

end
