(* ===== verification/Pg_Client.thy ===== *)
theory Pg_Client
  imports Schema
begin

text \<open>
  The PostgreSQL client wrapper, \<^verbatim>\<open>backend/src/postgresql-client.cpp\<close> and
  \<^verbatim>\<open>.h\<close>: the \<^verbatim>\<open>Result\<close> accessors, \<^verbatim>\<open>Connection::execute\<close> and
  \<^verbatim>\<open>Connection::execute_locked\<close>.

  The server is not part of the program; what it decides during one member function is a record
  \<open>pg_env\<close>, an argument of the model, with the statements of the call numbered from 0. A
  statement that fails has no effect, and neither has a transaction whose \<^verbatim>\<open>COMMIT\<close>
  reports an error. A text parameter is passed as a C string, so the server receives the bytes
  before its first NUL (\<open>c_str\<close>); a number is passed as the text of
  \<^verbatim>\<open>std::to_string\<close>, which the server reads back exactly, so the model passes the value.
\<close>

section \<open>Results\<close>

datatype pg_result =
    No_result
  | Command_ok
  | Tuples_ok "string option list list"
  | Fatal_error string

definition pg_command_ok :: "pg_result \<Rightarrow> bool" where
  "pg_command_ok res \<longleftrightarrow> res = Command_ok"

definition pg_tuples_ok :: "pg_result \<Rightarrow> bool" where
  "pg_tuples_ok res \<longleftrightarrow> (case res of Tuples_ok _ \<Rightarrow> True | _ \<Rightarrow> False)"

definition pg_rows :: "pg_result \<Rightarrow> nat" where
  "pg_rows res = (case res of Tuples_ok ts \<Rightarrow> length ts | _ \<Rightarrow> 0)"

text \<open>The field of a tuple; libpq answers NULL for a field that does not exist.\<close>

definition pg_field :: "pg_result \<Rightarrow> nat \<Rightarrow> nat \<Rightarrow> string option" where
  "pg_field res row col = (case res of
     Tuples_ok ts \<Rightarrow> if row < length ts \<and> col < length (ts ! row) then ts ! row ! col else None
   | _ \<Rightarrow> None)"

definition pg_value :: "pg_result \<Rightarrow> nat \<Rightarrow> nat \<Rightarrow> string" where
  "pg_value res row col = (case pg_field res row col of None \<Rightarrow> [] | Some v \<Rightarrow> v)"

definition pg_is_null :: "pg_result \<Rightarrow> nat \<Rightarrow> nat \<Rightarrow> bool" where
  "pg_is_null res row col \<longleftrightarrow> pg_field res row col = None"

definition pg_error :: "pg_result \<Rightarrow> string" where
  "pg_error res = (case res of No_result \<Rightarrow> ''No result'' | Fatal_error m \<Rightarrow> m | _ \<Rightarrow> [])"

text \<open>
  The helper \<^verbatim>\<open>integer\<close> each of the repositories has: the number at the start of a
  field, 0 when there is none.
\<close>

definition pg_integer :: "string \<Rightarrow> int64" where
  "pg_integer v = (case from_chars_int64 v of Parsed i _ \<Rightarrow> i | _ \<Rightarrow> 0)"

section \<open>The server\<close>

text \<open>
  \<open>statement_fault n\<close> is the failure of statement \<open>n\<close> for a reason outside the model
  (no result object, or the server's message), \<open>violation n\<close> the message of a constraint
  violation; \<open>begin_fault\<close>, \<open>lock_fault\<close> and \<open>commit_fault\<close> the failures of
  the other commands of a locked statement. \<open>sequence_gap\<close> and \<open>audit_gap\<close> are the
  identifiers lost to statements that failed earlier, \<open>pg_view n\<close> the state a later statement
  of a call outside a transaction sees, \<open>parse_timestamp\<close> and \<open>jsonb\<close> the server's text
  conversions, \<open>date_of\<close> and \<open>current_date\<close> its dates.
\<close>

record pg_env =
  statement_fault :: "nat \<Rightarrow> string option option"
  violation :: "nat \<Rightarrow> string"
  begin_fault :: bool
  lock_fault :: bool
  commit_fault :: bool
  clock :: int
  sequence_gap :: nat
  audit_gap :: nat
  pg_view :: "nat \<Rightarrow> int database \<Rightarrow> int database"
  parse_timestamp :: "string \<Rightarrow> int option"
  jsonb :: "string \<Rightarrow> string option"
  date_of :: "int \<Rightarrow> int"
  current_date :: int
  pg_group_scan :: "string list \<Rightarrow> string list"

definition pg_healthy :: "pg_env \<Rightarrow> bool" where
  "pg_healthy e \<longleftrightarrow> (\<forall>n. statement_fault e n = None) \<and> \<not> begin_fault e \<and> \<not> lock_fault e
     \<and> \<not> commit_fault e"

text \<open>
  \<^verbatim>\<open>Connection::execute\<close> of a statement whose meaning is \<open>effect\<close>: None when it
  violates a constraint, otherwise its result and the new state.
\<close>

definition pg_execute ::
    "pg_env \<Rightarrow> nat \<Rightarrow> (pg_result \<times> 's) option \<Rightarrow> 's \<Rightarrow> pg_result \<times> 's" where
  "pg_execute e n effect s =
     (case statement_fault e n of
        Some None \<Rightarrow> (No_result, s)
      | Some (Some m) \<Rightarrow> (Fatal_error m, s)
      | None \<Rightarrow> (case effect of None \<Rightarrow> (Fatal_error (violation e n), s) | Some out \<Rightarrow> out))"

text \<open>
  \<^verbatim>\<open>Connection::execute_locked\<close>: the statement between \<^verbatim>\<open>BEGIN\<close>, the advisory
  lock and \<^verbatim>\<open>COMMIT\<close>; every failure rolls back.
\<close>

definition pg_execute_locked ::
    "pg_env \<Rightarrow> nat \<Rightarrow> (pg_result \<times> 's) option \<Rightarrow> 's \<Rightarrow> pg_result \<times> 's" where
  "pg_execute_locked e n effect s =
     (if begin_fault e then (No_result, s)
      else if lock_fault e then (No_result, s)
      else let (result, s') = pg_execute e n effect s
           in if \<not> pg_command_ok result \<and> \<not> pg_tuples_ok result then (result, s)
              else if commit_fault e then (No_result, s)
              else (result, s'))"

section \<open>Facts\<close>

lemma pg_integer_to_string [simp]: "int64_range i \<Longrightarrow> pg_integer (to_string i) = i"
  by (simp add: pg_integer_def)

lemma pg_tuples_ok_iff [simp]:
  "pg_tuples_ok (Tuples_ok ts)" "\<not> pg_tuples_ok No_result" "\<not> pg_tuples_ok Command_ok"
  "\<not> pg_tuples_ok (Fatal_error m)"
  by (simp_all add: pg_tuples_ok_def)

lemma pg_command_ok_iff [simp]:
  "pg_command_ok Command_ok" "\<not> pg_command_ok No_result" "\<not> pg_command_ok (Tuples_ok ts)"
  "\<not> pg_command_ok (Fatal_error m)"
  by (simp_all add: pg_command_ok_def)

lemma pg_rows_Tuples [simp]: "pg_rows (Tuples_ok ts) = length ts"
  by (simp add: pg_rows_def)

lemma pg_value_Tuples:
  "pg_value (Tuples_ok ts) i j = (if i < length ts \<and> j < length (ts ! i)
     then (case ts ! i ! j of None \<Rightarrow> [] | Some v \<Rightarrow> v) else [])"
  by (simp add: pg_value_def pg_field_def)

text \<open>A good result is the result of the statement; a bad one means nothing happened.\<close>

lemma pg_execute_good:
  "pg_execute e n effect s = (res, s') \<Longrightarrow> pg_tuples_ok res \<or> pg_command_ok res \<Longrightarrow>
     effect = Some (res, s')"
  by (auto simp: pg_execute_def split: option.splits)

lemma pg_execute_bad:
  "pg_execute e n effect s = (res, s') \<Longrightarrow> \<not> pg_tuples_ok res \<Longrightarrow> \<not> pg_command_ok res \<Longrightarrow>
     (\<And>out. effect = Some out \<Longrightarrow> pg_tuples_ok (fst out) \<or> pg_command_ok (fst out)) \<Longrightarrow> s' = s"
  by (fastforce simp: pg_execute_def split: option.splits)

lemma pg_execute_locked_good:
  "pg_execute_locked e n effect s = (res, s') \<Longrightarrow> pg_tuples_ok res \<or> pg_command_ok res \<Longrightarrow>
     effect = Some (res, s')"
  by (auto simp: pg_execute_locked_def dest!: pg_execute_good split: if_splits prod.splits)

lemma pg_execute_locked_bad:
  "pg_execute_locked e n effect s = (res, s') \<Longrightarrow> \<not> pg_tuples_ok res \<Longrightarrow> \<not> pg_command_ok res \<Longrightarrow>
     s' = s"
  by (auto simp: pg_execute_locked_def split: if_splits prod.splits)

lemma pg_execute_healthy:
  assumes "pg_healthy e"
  shows "pg_execute e n (Some out) s = out"
    and "pg_tuples_ok (fst out) \<or> pg_command_ok (fst out) \<Longrightarrow>
      pg_execute_locked e n (Some out) s = out"
  using assms by (auto simp: pg_healthy_def pg_execute_locked_def pg_execute_def split: prod.splits)

text \<open>A server without faults, for examples.\<close>

definition quiet_server :: pg_env where
  "quiet_server = \<lparr>statement_fault = \<lambda>_. None, violation = \<lambda>_. ''violation'', begin_fault = False,
     lock_fault = False, commit_fault = False, clock = 7, sequence_gap = 0, audit_gap = 0,
     pg_view = \<lambda>_ d. d, parse_timestamp = \<lambda>_. None, jsonb = Some, date_of = \<lambda>t. t,
     current_date = 7, pg_group_scan = \<lambda>ps. ps\<rparr>"

lemma quiet_server_healthy [simp]: "pg_healthy quiet_server"
  by (simp add: pg_healthy_def quiet_server_def)

end
