(* ===== verification/Pg_Submissions.thy ===== *)
theory Pg_Submissions
  imports Judging_System Submission_Queries Pg_Client
begin

text \<open>
  \<^verbatim>\<open>PostgreSQLSubmissionRepository\<close>
  (\<^verbatim>\<open>backend/src/postgresql-submission-repository.cpp\<close>), the repository the server runs
  on: every member function with each of its error returns, and the interpretation of
  \<open>submission_store\<close> on them. Time stamps are integers; \<open>ts\<close> is the text the session
  prints for one. Rows travel as the text of their columns and are read back with
  \<^verbatim>\<open>std::from_chars\<close>.

  \<^verbatim>\<open>create\<close> and \<^verbatim>\<open>retry\<close> take one advisory lock, \<^verbatim>\<open>claim_next\<close>
  another, so calls of each kind are serialized and each is one step of the model. No statement of
  the program locks a queued row outside \<^verbatim>\<open>claim_next\<close>, so its
  \<^verbatim>\<open>SKIP LOCKED\<close> never skips one.
\<close>

section \<open>Reading rows\<close>

text \<open>The columns of a row in the order of \<^verbatim>\<open>columns\<close>, as the server sends them.\<close>

definition pg_columns :: "(int \<Rightarrow> string) \<Rightarrow> int submission_row \<Rightarrow> string option list" where
  "pg_columns ts r =
     [Some (to_string (row_id r)), Some (row_problem_id r), Some (row_language r),
      Some (row_source_code r), Some (row_status r), row_verdict r, Some (ts (row_created_at r)),
      map_option ts (row_completed_at r), map_option to_string (row_user_id r), row_error_type r,
      map_option to_string (row_retry_of r)]"

definition pg_returned ::
    "(int \<Rightarrow> string) \<Rightarrow> (int submission_row option \<times> 's) option \<Rightarrow> (pg_result \<times> 's) option" where
  "pg_returned ts effect = map_option (\<lambda>(found, s). (Tuples_ok (case found of None \<Rightarrow> []
     | Some r \<Rightarrow> [pg_columns ts r]), s)) effect"

definition pg_optional :: "pg_result \<Rightarrow> nat \<Rightarrow> nat \<Rightarrow> string option" where
  "pg_optional res row col = (if pg_is_null res row col then None else Some (pg_value res row col))"

text \<open>This repository has its own readers of the enums; they agree with those of the SQLite one.\<close>

definition pg_verdict :: "string \<Rightarrow> verdict option" where
  "pg_verdict v = (if v = ''Accepted'' then Some accepted
     else if v = ''Wrong Answer'' then Some wrong_answer
     else if v = ''Runtime Error'' then Some runtime_error
     else if v = ''Time Limit Exceeded'' then Some time_limit_exceeded
     else None)"

definition pg_status :: "string \<Rightarrow> submission_status option" where
  "pg_status v = (if v = ''queued'' then Some queued
     else if v = ''running'' then Some running
     else if v = ''completed'' then Some completed
     else if v = ''failed'' then Some failed
     else None)"

lemma pg_verdict_agrees [simp]: "pg_verdict = parse_verdict"
  by (simp add: fun_eq_iff pg_verdict_def parse_verdict_def)

lemma pg_status_agrees [simp]: "pg_status = parse_status"
  by (simp add: fun_eq_iff pg_status_def parse_status_def)

definition pg_record :: "pg_result \<Rightarrow> nat \<Rightarrow> repository_error + submission_record" where
  "pg_record res row =
     (case pg_status (pg_value res row 4) of
        None \<Rightarrow> Inl (RepositoryError ''Database contains an unknown submission status'')
      | Some status \<Rightarrow>
          let verdict = (if pg_is_null res row 5 then None else pg_verdict (pg_value res row 5))
          in if \<not> pg_is_null res row 5 \<and> verdict = None
             then Inl (RepositoryError ''Database contains an unknown submission verdict'')
             else Inr \<lparr>sr_id = pg_integer (pg_value res row 0), sr_problem_id = pg_value res row 1,
                       sr_language = pg_value res row 2, sr_source_code = pg_value res row 3,
                       sr_status = status, sr_verdict = verdict, sr_created_at = pg_value res row 6,
                       sr_completed_at = pg_optional res row 7,
                       sr_user_id = map_option pg_integer (pg_optional res row 8),
                       sr_error_type = pg_optional res row 9,
                       sr_retry_of = map_option pg_integer (pg_optional res row 10)\<rparr>)"

definition pg_failure :: "string \<Rightarrow> pg_result \<Rightarrow> repository_error" where
  "pg_failure operation res = RepositoryError (operation @ '': '' @ pg_error res)"

fun pg_collect :: "pg_result \<Rightarrow> nat list \<Rightarrow> repository_error + submission_record list" where
  "pg_collect res [] = Inr []"
| "pg_collect res (row # rows) =
     (case pg_record res row of Inl err \<Rightarrow> Inl err
      | Inr value \<Rightarrow> (case pg_collect res rows of Inl err \<Rightarrow> Inl err
          | Inr values \<Rightarrow> Inr (value # values)))"

definition pg_records :: "pg_result \<Rightarrow> repository_error + submission_record list" where
  "pg_records res =
     (if \<not> pg_tuples_ok res then Inl (pg_failure ''Could not retrieve submissions'' res)
      else pg_collect res [0..<pg_rows res])"

section \<open>Operations\<close>

definition pg_create ::
    "(int \<Rightarrow> string) \<Rightarrow> queue_limits \<Rightarrow> pg_env \<Rightarrow> submission_request \<Rightarrow> int database
       \<Rightarrow> (repository_error + submission_record) \<times> int database" where
  "pg_create ts lim e q db =
     (let (result, db') = pg_execute_locked e 0
            (pg_returned ts (insert_returning (has_capacity lim (rq_user_id q) db) (sequence_gap e)
               (queue_row (clock e) (c_str (rq_problem_id q)) (c_str (rq_language q))
                 (c_str (rq_code q)) (rq_user_id q) None) db)) db
      in if \<not> pg_tuples_ok result
         then (Inl (pg_failure ''Could not create submission'' result), db')
         else if pg_rows result = 1 then (pg_record result 0, db')
         else let (count, _) = pg_execute e 1 (Some (Tuples_ok
                    [[Some (to_string (int (count_active_of (rq_user_id q) (pg_view e 1 db'))))]], db'))
                    db'
              in if pg_tuples_ok count
                    \<and> maximum_active_submissions_per_user lim
                        \<le> (word_of_int (pg_integer (pg_value count 0 0)) :: size_t)
                 then (Inl \<lparr>re_message = ''Too many active submissions for this user'',
                            re_code = user_submission_limit\<rparr>, db')
                 else (Inl \<lparr>re_message = ''Submission queue is full'', re_code = queue_full\<rparr>, db'))"

definition pg_complete ::
    "(int \<Rightarrow> string) \<Rightarrow> pg_env \<Rightarrow> int64 \<Rightarrow> verdict \<Rightarrow> string option \<Rightarrow> int database
       \<Rightarrow> (repository_error + submission_record) \<times> int database" where
  "pg_complete ts e i v error_type db =
     (let (result, db') = pg_execute e 0 (pg_returned ts (update_returning (running_row i)
            (mark_completed (clock e) v (map_option c_str error_type)) db)) db
      in if \<not> pg_tuples_ok result
         then (Inl (pg_failure ''Could not complete submission'' result), db')
         else if pg_rows result \<noteq> 1
         then (Inl (RepositoryError ''Submission is missing or is not running''), db')
         else (pg_record result 0, db'))"

definition pg_fail ::
    "(int \<Rightarrow> string) \<Rightarrow> pg_env \<Rightarrow> int64 \<Rightarrow> string option \<Rightarrow> int database
       \<Rightarrow> (repository_error + submission_record) \<times> int database" where
  "pg_fail ts e i error_type db =
     (let (result, db') = pg_execute e 0 (pg_returned ts (update_returning (running_row i)
            (mark_failed (clock e) (map_option c_str error_type)) db)) db
      in if \<not> pg_tuples_ok result
         then (Inl (pg_failure ''Could not fail submission'' result), db')
         else if pg_rows result \<noteq> 1
         then (Inl (RepositoryError ''Submission is missing or is not running''), db')
         else (pg_record result 0, db'))"

text \<open>The claim statement joins on the candidate's identifier only; the candidate is locked.\<close>

definition candidate_row :: "int64 option \<Rightarrow> 't submission_row \<Rightarrow> bool" where
  "candidate_row candidate r \<longleftrightarrow> candidate = Some (row_id r)"

definition pg_claim_next ::
    "(int \<Rightarrow> string) \<Rightarrow> queue_limits \<Rightarrow> pg_env \<Rightarrow> int database
       \<Rightarrow> (repository_error + submission_record option) \<times> int database" where
  "pg_claim_next ts lim e db =
     (let (result, db') = pg_execute_locked e 0
            (pg_returned ts (update_returning
              (candidate_row (oldest
                 (claimable_row (maximum_running_submissions_per_user lim) db) db))
              mark_running db)) db
      in if \<not> pg_tuples_ok result
         then (Inl (pg_failure ''Could not claim queued submission'' result), db')
         else if pg_rows result = 0 then (Inr None, db')
         else (case pg_record result 0 of Inl err \<Rightarrow> (Inl err, db')
               | Inr value \<Rightarrow> (Inr (Some value), db')))"

definition pg_recover_running ::
    "pg_env \<Rightarrow> int database \<Rightarrow> (repository_error + nat) \<times> int database" where
  "pg_recover_running e db =
     (let (result, db') = pg_execute e 0
            (map_option (\<lambda>d. (Tuples_ok (map (\<lambda>r. [Some (to_string (row_id r))])
                 (filter (\<lambda>r. row_status r = ''running'') (submissions db))), d))
              (update_submissions (\<lambda>r. row_status r = ''running'') mark_queued db)) db
      in if \<not> pg_tuples_ok result
         then (Inl (pg_failure ''Could not recover running submissions'' result), db')
         else (Inr (pg_rows result), db'))"

text \<open>A SELECT of whole rows; \<open>None\<close> is a parameter the server cannot convert.\<close>

definition pg_select ::
    "(int \<Rightarrow> string) \<Rightarrow> pg_env \<Rightarrow> int submission_row list option \<Rightarrow> pg_result" where
  "pg_select ts e rows =
     fst (pg_execute e 0 (map_option (\<lambda>rs. (Tuples_ok (map (pg_columns ts) rs), ())) rows) ())"

definition pg_find ::
    "(int \<Rightarrow> string) \<Rightarrow> pg_env \<Rightarrow> int64 \<Rightarrow> int database
       \<Rightarrow> repository_error + submission_record option" where
  "pg_find ts e i db =
     (let result = pg_select ts e (Some (filter (\<lambda>r. row_id r = i) (submissions db)))
      in if \<not> pg_tuples_ok result then Inl (pg_failure ''Could not retrieve submission'' result)
         else if pg_rows result = 0 then Inr None
         else (case pg_record result 0 of Inl err \<Rightarrow> Inl err | Inr value \<Rightarrow> Inr (Some value)))"

definition pg_history ::
    "(int \<Rightarrow> string) \<Rightarrow> pg_env \<Rightarrow> int64 \<Rightarrow> string \<Rightarrow> int database
       \<Rightarrow> repository_error + submission_record list" where
  "pg_history ts e user problem db =
     pg_records (pg_select ts e (Some (newest_first
       (filter (\<lambda>r. row_user_id r = Some user \<and> row_problem_id r = c_str problem)
          (submissions db)))))"

definition pg_list_all ::
    "(int \<Rightarrow> string) \<Rightarrow> pg_env \<Rightarrow> int database \<Rightarrow> repository_error + submission_record list" where
  "pg_list_all ts e db = pg_records (pg_select ts e (Some (newest_first (submissions db))))"

text \<open>The server converts the time bounds of a filter before it runs the query.\<close>

definition pg_bound :: "pg_env \<Rightarrow> string option \<Rightarrow> int option option" where
  "pg_bound e t = (case t of None \<Rightarrow> Some None | Some s \<Rightarrow> map_option Some (parse_timestamp e (c_str s)))"

definition pg_filter_row ::
    "submission_admin_filter \<Rightarrow> int option \<Rightarrow> int option \<Rightarrow> int submission_row \<Rightarrow> bool" where
  "pg_filter_row f lower upper r \<longleftrightarrow>
     (case fl_status f of None \<Rightarrow> True | Some s \<Rightarrow> row_status r = status_parameter s) \<and>
     (case fl_error_type f of None \<Rightarrow> True | Some t \<Rightarrow> row_error_type r = Some (c_str t)) \<and>
     (case fl_language f of None \<Rightarrow> True | Some l \<Rightarrow> row_language r = c_str l) \<and>
     (case fl_problem_id f of None \<Rightarrow> True | Some p \<Rightarrow> row_problem_id r = c_str p) \<and>
     (case fl_user_id f of None \<Rightarrow> True | Some u \<Rightarrow> row_user_id r = Some u) \<and>
     (case lower of None \<Rightarrow> True | Some t \<Rightarrow> t \<le> row_created_at r) \<and>
     (case upper of None \<Rightarrow> True | Some t \<Rightarrow> row_created_at r \<le> t)"

definition pg_list_filtered ::
    "(int \<Rightarrow> string) \<Rightarrow> pg_env \<Rightarrow> submission_admin_filter \<Rightarrow> int database
       \<Rightarrow> repository_error + submission_record list" where
  "pg_list_filtered ts e f db =
     pg_records (pg_select ts e
       (case (pg_bound e (fl_created_from f), pg_bound e (fl_created_to f)) of
          (Some lower, Some upper) \<Rightarrow> Some (take 500 (newest_first
             (filter (pg_filter_row f lower upper) (submissions db))))
        | _ \<Rightarrow> None))"

text \<open>
  \<^verbatim>\<open>retry\<close>: one statement inserts the copy and its audit record. The details are the
  text form of the \<^verbatim>\<open>jsonb\<close> value the statement builds.
\<close>

definition pg_retry_details :: "int64 \<Rightarrow> string" where
  "pg_retry_details i = ''{\"retrySubmissionId\": '' @ to_string i @ ''}''"

definition pg_insert_retry ::
    "queue_limits \<Rightarrow> pg_env \<Rightarrow> int64 \<Rightarrow> int64 \<Rightarrow> int database
       \<Rightarrow> (int submission_row option \<times> int database) option" where
  "pg_insert_retry lim e i admin db =
     (case insert_retry lim (sequence_gap e) (clock e) i db of
        Some (Some r, db') \<Rightarrow>
          map_option (\<lambda>db''. (Some r, db''))
            (insert_audit (audit_gap e) (audit_entry (clock e) admin ''submission.retry''
               ''submission'' (to_string i) (pg_retry_details (row_id r))) db')
      | effect \<Rightarrow> effect)"

definition pg_retry ::
    "(int \<Rightarrow> string) \<Rightarrow> queue_limits \<Rightarrow> pg_env \<Rightarrow> int64 \<Rightarrow> int64 \<Rightarrow> int database
       \<Rightarrow> (repository_error + submission_record) \<times> int database" where
  "pg_retry ts lim e i admin db =
     (let (result, db') =
            pg_execute_locked e 0 (pg_returned ts (pg_insert_retry lim e i admin db)) db
      in if \<not> pg_tuples_ok result
         then (Inl (pg_failure ''Could not retry submission'' result), db')
         else if pg_rows result \<noteq> 1
         then (Inl (RepositoryError ''Submission is not retryable or was already retried''), db')
         else (pg_record result 0, db'))"

definition pg_audit ::
    "pg_env \<Rightarrow> int64 \<Rightarrow> string \<Rightarrow> string \<Rightarrow> string \<Rightarrow> string \<Rightarrow> int database
       \<Rightarrow> (repository_error + unit) \<times> int database" where
  "pg_audit e admin action entity_type entity_id details db =
     (let (result, db') = pg_execute e 0
            (case jsonb e (c_str details) of None \<Rightarrow> None
             | Some d \<Rightarrow> map_option (\<lambda>db'. (Command_ok, db'))
                 (insert_audit (audit_gap e) (audit_entry (clock e) admin (c_str action)
                    (c_str entity_type) (c_str entity_id) d) db)) db
      in if \<not> pg_command_ok result
         then (Inl (pg_failure ''Could not write admin audit record'' result), db')
         else (Inr (), db'))"

text \<open>
  \<^verbatim>\<open>progress\<close>: three SELECTs. An accepted row of a table that satisfies the schema's checks
  has a completion time, so the queries need not exclude NULL times.
\<close>

definition pg_query :: "pg_env \<Rightarrow> nat \<Rightarrow> string option list list \<Rightarrow> pg_result" where
  "pg_query e n tuples = fst (pg_execute e n (Some (Tuples_ok tuples, ())) ())"

definition pg_progress ::
    "(int \<Rightarrow> string) \<Rightarrow> pg_env \<Rightarrow> int64 \<Rightarrow> int database \<Rightarrow> repository_error + user_progress" where
  "pg_progress ts e user db =
     (let result = pg_query e 0 [[Some (to_string (int (length (user_rows user db)))),
            Some (to_string (int (length (accepted_rows user db)))), most_recent_problem user db]]
      in if \<not> pg_tuples_ok result then Inl (pg_failure ''Could not retrieve user activity'' result)
      else let streak = pg_query e 1 [[Some (to_string (int (streak_query (current_date e)
             (map (date_of e \<circ> snd) (completions (accepted_rows user (pg_view e 1 db)))))))]]
      in if \<not> pg_tuples_ok streak then Inl (pg_failure ''Could not retrieve user streak'' streak)
      else let completed = pg_query e 2 (map (\<lambda>(p, t). [Some p, Some (ts t)])
             (first_completions (pg_group_scan e)
                (completions (accepted_rows user (pg_view e 2 db)))))
      in if \<not> pg_tuples_ok completed
         then Inl (pg_failure ''Could not retrieve completed problems'' completed)
         else Inr \<lparr>total_submissions = pg_integer (pg_value result 0 0),
                   accepted_submissions = pg_integer (pg_value result 0 1),
                   current_streak_days = pg_integer (pg_value streak 0 0),
                   most_recent_submission_problem_id = pg_optional result 0 2,
                   completed_problems = map (\<lambda>row. \<lparr>cp_problem_id = pg_value completed row 0,
                     cp_completed_at = pg_value completed row 1\<rparr>) [0..<pg_rows completed]\<rparr>)"

definition pg_repository ::
    "(int \<Rightarrow> string) \<Rightarrow> queue_limits \<Rightarrow> (pg_env, int database) submission_repository" where
  "pg_repository ts lim =
     \<lparr>create_op = pg_create ts lim, complete_op = pg_complete ts, fail_op = pg_fail ts,
      claim_next_op = pg_claim_next ts lim, recover_running_op = pg_recover_running,
      find_op = pg_find ts, history_op = pg_history ts, progress_op = pg_progress ts,
      list_all_op = pg_list_all ts, list_filtered_op = pg_list_filtered ts,
      retry_op = pg_retry ts lim, audit_op = pg_audit\<rparr>"

section \<open>Rows survive the wire\<close>

text \<open>The columns of a row as the checks and the 64-bit identifier columns guarantee them.\<close>

definition row_ok :: "'t submission_row \<Rightarrow> bool" where
  "row_ok r \<longleftrightarrow> submission_check r \<and> int64_range (row_id r)
     \<and> pred_option int64_range (row_user_id r) \<and> pred_option int64_range (row_retry_of r)"

lemma wf_row_ok: "wf_submissions db \<Longrightarrow> r \<in> set (submissions db) \<Longrightarrow> row_ok r"
  using wf_int64_columns [of db r] wf_submission_check [of db r]
  by (simp add: row_ok_def option.pred_set)

lemma map_option_id_on: "(\<And>x. v = Some x \<Longrightarrow> f (g x) = x) \<Longrightarrow> map_option f (map_option g v) = v"
  by (cases v) auto

lemma pg_record_columns:
  assumes "row < length rs" "row_ok (rs ! row)"
  shows "pg_record (Tuples_ok (map (pg_columns ts) rs)) row = Inr (record_of ts (rs ! row))"
proof -
  let ?r = "rs ! row" and ?res = "Tuples_ok (map (pg_columns ts) rs)"
  have field: "pg_field ?res row col = pg_columns ts ?r ! col" if "col < 11" for col
    using assms(1) that by (simp add: pg_field_def pg_columns_def)
  have opt: "pg_optional ?res row col = pg_columns ts ?r ! col" if "col < 11" for col
    using field [OF that] by (cases "pg_columns ts ?r ! col")
      (simp_all add: pg_optional_def pg_is_null_def pg_value_def)
  have ids: "map_option pg_integer (map_option to_string (row_user_id ?r)) = row_user_id ?r"
    "map_option pg_integer (map_option to_string (row_retry_of ?r)) = row_retry_of ?r"
    "int64_range (row_id ?r)"
    using assms(2) by (auto simp: row_ok_def option.pred_set intro!: map_option_id_on)
  have check: "submission_check ?r" using assms(2) by (simp add: row_ok_def)
  have cells: "pg_value ?res row 0 = to_string (row_id ?r)" "pg_value ?res row 1 = row_problem_id ?r"
    "pg_value ?res row 2 = row_language ?r" "pg_value ?res row 3 = row_source_code ?r"
    "pg_value ?res row 4 = row_status ?r" "pg_value ?res row 6 = ts (row_created_at ?r)"
    "pg_is_null ?res row 5 = (row_verdict ?r = None)"
    "pg_value ?res row 5 = (case row_verdict ?r of None \<Rightarrow> [] | Some v \<Rightarrow> v)"
    by (simp_all add: pg_value_def pg_is_null_def field pg_columns_def)
  have opts: "pg_optional ?res row 7 = map_option ts (row_completed_at ?r)"
    "pg_optional ?res row 8 = map_option to_string (row_user_id ?r)"
    "pg_optional ?res row 9 = row_error_type ?r"
    "pg_optional ?res row 10 = map_option to_string (row_retry_of ?r)"
    by (simp_all add: opt pg_columns_def)
  show ?thesis
    using check unfolding pg_record_def cells opts ids
    by (cases rule: check_statusE) (simp_all add: record_of_def parse_status_def ids)
qed

lemma pg_record_single:
  "row_ok r \<Longrightarrow> pg_record (Tuples_ok [pg_columns ts r]) 0 = Inr (record_of ts r)"
  using pg_record_columns [of 0 "[r]" ts] by simp

lemma pg_collect_columns:
  assumes "\<forall>r \<in> set rs. row_ok r" "\<forall>row \<in> set rows. row < length rs"
  shows "pg_collect (Tuples_ok (map (pg_columns ts) rs)) rows
    = Inr (map (\<lambda>row. record_of ts (rs ! row)) rows)"
  using assms(2) by (induction rows) (simp_all add: pg_record_columns assms(1))

lemma pg_records_columns:
  assumes "\<forall>r \<in> set rs. row_ok r"
  shows "pg_records (Tuples_ok (map (pg_columns ts) rs)) = Inr (map (record_of ts) rs)"
proof -
  have "map (\<lambda>row. record_of ts (rs ! row)) [0..<length rs] = map (record_of ts) rs"
    by (rule nth_equalityI) simp_all
  then show ?thesis
    using pg_collect_columns [OF assms, of "[0..<length rs]" ts] by (simp add: pg_records_def)
qed

section \<open>The operations on well-formed databases\<close>

lemma pg_returnedE:
  assumes "pg_returned ts eff = Some (res, s')"
  obtains (none) "res = Tuples_ok []" "eff = Some (None, s')"
    | (some) r where "res = Tuples_ok [pg_columns ts r]" "eff = Some (Some r, s')"
  using assms by (auto simp: pg_returned_def split: option.splits)

lemma pg_executeE:
  assumes "pg_execute e n (pg_returned ts eff) s = (res, s')"
  obtains (bad) "\<not> pg_tuples_ok res" "s' = s"
    | (none) "res = Tuples_ok []" "eff = Some (None, s')"
    | (some) r where "res = Tuples_ok [pg_columns ts r]" "eff = Some (Some r, s')"
  using assms by (auto simp: pg_execute_def pg_returned_def split: option.splits)

lemma pg_execute_lockedE:
  assumes "pg_execute_locked e n (pg_returned ts eff) s = (res, s')"
  obtains (bad) "\<not> pg_tuples_ok res" "s' = s"
    | (none) "res = Tuples_ok []" "eff = Some (None, s')"
    | (some) r where "res = Tuples_ok [pg_columns ts r]" "eff = Some (Some r, s')"
proof (cases "pg_tuples_ok res")
  case True
  then show ?thesis
    using pg_execute_locked_good [OF assms] that by (auto elim: pg_returnedE)
next
  case False
  have "s' = s"
    using assms False pg_execute_locked_bad [OF assms False]
    by (cases "pg_command_ok res")
      (auto dest!: pg_execute_locked_good simp: pg_command_ok_def pg_returned_def)
  then show ?thesis using False that by blast
qed

lemma pg_createE:
  assumes wf: "wf_submissions db" and res: "pg_create ts lim e q db = (res, db')"
  obtains (error) err where "res = Inl err" "db' = db"
    | (stored) r where "res = Inr (record_of ts r)"
        "insert_returning (has_capacity lim (rq_user_id q) db) (sequence_gap e)
           (queue_row (clock e) (c_str (rq_problem_id q)) (c_str (rq_language q))
              (c_str (rq_code q)) (rq_user_id q) None) db = Some (Some r, db')"
proof -
  let ?eff = "insert_returning (has_capacity lim (rq_user_id q) db) (sequence_gap e)
     (queue_row (clock e) (c_str (rq_problem_id q)) (c_str (rq_language q)) (c_str (rq_code q))
        (rq_user_id q) None) db"
  obtain result db1 where run: "pg_execute_locked e 0 (pg_returned ts ?eff) db = (result, db1)"
    by (cases "pg_execute_locked e 0 (pg_returned ts ?eff) db")
  show ?thesis
  proof (cases rule: pg_execute_lockedE [OF run])
    case 1
    then show ?thesis using res run that by (auto simp: pg_create_def)
  next
    case 2
    then have "db1 = db" by (simp add: insert_returning_None)
    then show ?thesis using res run 2 that by (auto simp: pg_create_def split: prod.splits if_splits)
  next
    case (3 r)
    then have "row_ok r"
      using wf_row_ok insert_returning_in create_records(1) [OF wf] by blast
    then show ?thesis using res run 3 that by (auto simp: pg_create_def pg_record_single)
  qed
qed

lemma pg_completeE:
  assumes wf: "wf_submissions db" and res: "pg_complete ts e i v et db = (res, db')"
  obtains (error) err where "res = Inl err" "db' = db"
    | (stored) r where "res = Inr (record_of ts r)"
        "update_returning (running_row i) (mark_completed (clock e) v (map_option c_str et)) db
           = Some (Some r, db')"
proof -
  let ?eff = "update_returning (running_row i) (mark_completed (clock e) v (map_option c_str et)) db"
  obtain result db1 where run: "pg_execute e 0 (pg_returned ts ?eff) db = (result, db1)"
    by (cases "pg_execute e 0 (pg_returned ts ?eff) db")
  show ?thesis
  proof (cases rule: pg_executeE [OF run])
    case 1
    then show ?thesis using res run that by (auto simp: pg_complete_def)
  next
    case 2
    then show ?thesis using res run that update_returning_None(1) [OF 2(2)]
      by (auto simp: pg_complete_def)
  next
    case (3 r)
    then have "row_ok r"
      using wf_row_ok update_returning_in complete_records(1) [OF wf] by blast
    then show ?thesis using res run 3 that by (auto simp: pg_complete_def pg_record_single)
  qed
qed

lemma pg_failE:
  assumes wf: "wf_submissions db" and res: "pg_fail ts e i et db = (res, db')"
  obtains (error) err where "res = Inl err" "db' = db"
    | (stored) r where "res = Inr (record_of ts r)"
        "update_returning (running_row i) (mark_failed (clock e) (map_option c_str et)) db
           = Some (Some r, db')"
proof -
  let ?eff = "update_returning (running_row i) (mark_failed (clock e) (map_option c_str et)) db"
  obtain result db1 where run: "pg_execute e 0 (pg_returned ts ?eff) db = (result, db1)"
    by (cases "pg_execute e 0 (pg_returned ts ?eff) db")
  show ?thesis
  proof (cases rule: pg_executeE [OF run])
    case 1
    then show ?thesis using res run that by (auto simp: pg_fail_def)
  next
    case 2
    then show ?thesis using res run that update_returning_None(1) [OF 2(2)]
      by (auto simp: pg_fail_def)
  next
    case (3 r)
    then have "row_ok r"
      using wf_row_ok update_returning_in fail_records(1) [OF wf] by blast
    then show ?thesis using res run 3 that by (auto simp: pg_fail_def pg_record_single)
  qed
qed

lemma claims_candidate_row:
  "claims_candidate lim db
     (candidate_row (oldest (claimable_row (maximum_running_submissions_per_user lim) db) db))"
  by (simp add: claims_candidate_def candidate_row_def)

lemma pg_claimE:
  assumes wf: "wf_submissions db" and res: "pg_claim_next ts lim e db = (res, db')"
  obtains (error) err where "res = Inl err" "db' = db"
    | (none) "res = Inr None" "update_returning (candidate_row (oldest
          (claimable_row (maximum_running_submissions_per_user lim) db) db)) mark_running db
          = Some (None, db')"
    | (some) r where "res = Inr (Some (record_of ts r))"
        "update_returning (candidate_row (oldest
          (claimable_row (maximum_running_submissions_per_user lim) db) db)) mark_running db
          = Some (Some r, db')"
proof -
  let ?eff = "update_returning (candidate_row (oldest
      (claimable_row (maximum_running_submissions_per_user lim) db) db)) mark_running db"
  obtain result db1 where run: "pg_execute_locked e 0 (pg_returned ts ?eff) db = (result, db1)"
    by (cases "pg_execute_locked e 0 (pg_returned ts ?eff) db")
  show ?thesis
  proof (cases rule: pg_execute_lockedE [OF run])
    case 1
    then show ?thesis using res run that by (auto simp: pg_claim_next_def)
  next
    case 2
    then show ?thesis using res run that by (auto simp: pg_claim_next_def)
  next
    case (3 r)
    then have "row_ok r"
      using wf_row_ok update_returning_in claim_some_records(1) [OF wf claims_candidate_row] by blast
    then show ?thesis using res run 3 that by (auto simp: pg_claim_next_def pg_record_single)
  qed
qed

lemma pg_recoverE:
  assumes "pg_recover_running e db = (res, db')"
  obtains (error) err where "res = Inl err" "db' = db"
    | (requeued) "res = Inr (count_where (\<lambda>r. row_status r = ''running'') (submissions db))"
        "update_submissions (\<lambda>r. row_status r = ''running'') mark_queued db = Some db'"
  using assms unfolding pg_recover_running_def pg_execute_def
  by (auto split: option.splits if_splits prod.splits simp: count_where_def)

lemma pg_insert_retryE:
  assumes "pg_insert_retry lim e i admin db = Some (found, db')"
  obtains (none) "found = None" "db' = db"
    | (some) r db'' where "found = Some r"
        "insert_retry lim (sequence_gap e) (clock e) i db = Some (Some r, db'')"
        "insert_audit (audit_gap e) (audit_entry (clock e) admin ''submission.retry'' ''submission''
           (to_string i) (pg_retry_details (row_id r))) db'' = Some db'"
proof (cases found)
  case None
  then show ?thesis
    using assms that(1)
    by (auto simp: pg_insert_retry_def insert_retry_def dest: insert_returning_None
        split: option.splits prod.splits)
next
  case (Some r)
  then show ?thesis
    using assms that(2) [of r]
    by (auto simp: pg_insert_retry_def split: option.splits prod.splits)
qed

lemma audited_row_ok:
  assumes wf: "wf_submissions db"
    and ins: "insert_retry lim gap at i db = Some (Some r, db')"
  shows "row_ok r"
  using wf_row_ok [OF retry_records(1) [OF wf ins] insert_retry_in [OF ins]] .

lemma pg_retryE:
  assumes wf: "wf_submissions db" and res: "pg_retry ts lim e i admin db = (res, db')"
  obtains (error) err where "res = Inl err" "db' = db"
    | (stored) r db'' where "res = Inr (record_of ts r)"
        "insert_retry lim (sequence_gap e) (clock e) i db = Some (Some r, db'')"
        "insert_audit (audit_gap e) (audit_entry (clock e) admin ''submission.retry'' ''submission''
           (to_string i) (pg_retry_details (row_id r))) db'' = Some db'"
proof -
  let ?eff = "pg_insert_retry lim e i admin db"
  obtain result db1 where run: "pg_execute_locked e 0 (pg_returned ts ?eff) db = (result, db1)"
    by (cases "pg_execute_locked e 0 (pg_returned ts ?eff) db")
  show ?thesis
  proof (cases rule: pg_execute_lockedE [OF run])
    case 1
    then show ?thesis using res run that by (auto simp: pg_retry_def)
  next
    case 2
    from 2(2) have "db1 = db" by (cases rule: pg_insert_retryE) simp_all
    then show ?thesis using res run 2 that(1) by (auto simp: pg_retry_def)
  next
    case (3 r)
    from 3(2) show ?thesis
    proof (cases rule: pg_insert_retryE)
      case (some x db'')
      then have ok: "row_ok r" and x: "x = r" using audited_row_ok [OF wf some(2)] by simp_all
      have "res = Inr (record_of ts r)" "db1 = db'"
        using res run 3(1) ok by (simp_all add: pg_retry_def pg_record_single)
      then show ?thesis
        using that(2) [OF _ some(2)] some(3) x by simp
    qed simp
  qed
qed

lemma pg_auditE:
  assumes "pg_audit e admin action ty entity d db = (res, db')"
  obtains "db' = db" | a where "insert_audit (audit_gap e) a db = Some db'"
  using assms by (auto simp: pg_audit_def pg_execute_def split: option.splits if_splits prod.splits)

lemma pg_findE:
  assumes wf: "wf_submissions db" and res: "pg_find ts e i db = Inr found"
  shows "found = List.find (\<lambda>r. sr_id r = i) (records_of ts db)"
proof -
  let ?rs = "filter (\<lambda>r. row_id r = i) (submissions db)"
  have sel: "pg_select ts e (Some ?rs) = Tuples_ok (map (pg_columns ts) ?rs)"
    using res by (auto simp: pg_find_def pg_select_def pg_execute_def Let_def split: option.splits if_splits)
  have found: "List.find (\<lambda>r. sr_id r = i) (records_of ts db)
      = map_option (record_of ts) (case ?rs of [] \<Rightarrow> None | x # _ \<Rightarrow> Some x)"
    by (simp add: records_of_def find_map comp_def find_filter [symmetric])
  show ?thesis
  proof (cases ?rs)
    case Nil
    then show ?thesis using res sel found by (simp add: pg_find_def)
  next
    case (Cons r rs)
    then have "r \<in> set (submissions db)" by (metis filter_is_subset list.set_intros(1) subsetD)
    then have "pg_record (Tuples_ok (map (pg_columns ts) ?rs)) 0 = Inr (record_of ts r)"
      using pg_record_columns [of 0 ?rs ts] Cons wf_row_ok [OF wf] by simp
    then show ?thesis using res sel found Cons by (simp add: pg_find_def)
  qed
qed

section \<open>The contract\<close>

lemma pg_complete_healthy:
  assumes "wf_submissions db" "pg_healthy e" "x \<in> set (records_of ts db)" "sr_status x = running"
  shows "\<exists>r db'. pg_complete ts e (sr_id x) v et db = (Inr r, db')"
proof -
  obtain r where r: "r \<in> set (submissions db)" "row_status r = ''running''" "row_id r = sr_id x"
    by (rule running_record [OF assms(1,3,4)])
  obtain r' db' where upd: "update_returning (running_row (row_id r))
      (mark_completed (clock e) v (map_option c_str et)) db = Some (Some r', db')"
    by (rule complete_hits [OF assms(1) r(1,2)])
  have "row_ok r'"
    by (rule wf_row_ok [OF complete_records(1) [OF assms(1) upd] update_returning_in [OF upd]])
  then show ?thesis
    using upd r(3) by (simp add: pg_complete_def pg_returned_def pg_execute_healthy [OF assms(2)]
        pg_record_single)
qed

lemma pg_fail_healthy:
  assumes "wf_submissions db" "pg_healthy e" "x \<in> set (records_of ts db)" "sr_status x = running"
  shows "\<exists>r db'. pg_fail ts e (sr_id x) et db = (Inr r, db')"
proof -
  obtain r where r: "r \<in> set (submissions db)" "row_status r = ''running''" "row_id r = sr_id x"
    by (rule running_record [OF assms(1,3,4)])
  obtain r' db' where upd: "update_returning (running_row (row_id r))
      (mark_failed (clock e) (map_option c_str et)) db = Some (Some r', db')"
    by (rule fail_hits [OF assms(1) r(1,2)])
  have "row_ok r'"
    by (rule wf_row_ok [OF fail_records(1) [OF assms(1) upd] update_returning_in [OF upd]])
  then show ?thesis
    using upd r(3) by (simp add: pg_fail_def pg_returned_def pg_execute_healthy [OF assms(2)]
        pg_record_single)
qed

lemma pg_find_healthy:
  assumes wf: "wf_submissions db" and e: "pg_healthy e"
  shows "\<exists>found. pg_find ts e i db = Inr found"
proof (cases "filter (\<lambda>r. row_id r = i) (submissions db)")
  case Nil
  then show ?thesis by (simp add: pg_find_def pg_select_def pg_execute_healthy(1) [OF e])
next
  case (Cons r rs)
  then have "r \<in> set (submissions db)" by (metis filter_is_subset list.set_intros(1) subsetD)
  then have "row_ok r" by (rule wf_row_ok [OF wf])
  then show ?thesis
    using Cons pg_record_columns [of 0 "r # rs" ts]
    by (simp add: pg_find_def pg_select_def pg_execute_healthy(1) [OF e])
qed

lemma pg_claim_healthy:
  assumes wf: "wf_submissions db" and e: "pg_healthy e"
  shows "\<exists>x db'. pg_claim_next ts lim e db = (Inr x, db')"
proof -
  let ?P = "candidate_row (oldest (claimable_row (maximum_running_submissions_per_user lim) db) db)"
  let ?Q = "queued_row (oldest (claimable_row (maximum_running_submissions_per_user lim) db) db)"
  have same: "?P r = ?Q r" if "r \<in> set (submissions db)" for r
    using claims_candidate_queued [OF wf, of lim] claims_candidate_row [of lim db] that
    by (simp add: claims_candidate_def)
  then have "filter ?P (submissions db) = filter ?Q (submissions db)"
    by (simp cong: filter_cong)
  moreover obtain found' db2 where "update_returning ?Q mark_running db = Some (found', db2)"
    by (rule claim_succeeds [OF wf row_activeI(4)])
  ultimately have "update_submissions ?P mark_running db \<noteq> None"
    by (auto simp: update_returning_def update_submissions_def simp del: set_filter split: if_splits)
  then obtain found db' where upd: "update_returning ?P mark_running db = Some (found, db')"
    by (auto simp: update_returning_def)
  show ?thesis
  proof (cases found)
    case None
    then show ?thesis
      using upd by (simp add: pg_claim_next_def pg_returned_def pg_execute_healthy [OF e])
  next
    case (Some r)
    then have "row_ok r"
      using wf_row_ok claim_some_records(1) [OF wf claims_candidate_row] update_returning_in upd
      by blast
    then show ?thesis
      using upd Some by (simp add: pg_claim_next_def pg_returned_def pg_execute_healthy [OF e]
          pg_record_single)
  qed
qed

interpretation pg: submission_store "pg_repository ts lim" lim c_str "records_of ts"
  wf_submissions pg_healthy for ts lim
proof (unfold_locales, unfold pg_repository_def submission_repository.simps)
  fix s :: "int database"
  assume wf: "wf_submissions s"
  show "ascending sr_id (records_of ts s)" by (rule records_ascending [OF wf])
  show "lifecycle_ok r" if "r \<in> set (records_of ts s)" for r
    by (rule records_lifecycle [OF wf that])
  fix e s'
  {
    fix q
    note create = pg_createE [OF wf, of ts lim e q] and stored = create_records [OF wf]
    show "wf_submissions s'" if "pg_create ts lim e q s = (res, s')" for res
      using that by (rule create) (auto simp: wf stored(1))
    show "records_of ts s' = records_of ts s" if "pg_create ts lim e q s = (Inl err, s')" for err
      using that by (rule create) simp_all
    show "records_of ts s' = records_of ts s @ [r] \<and> fresh_record r
        \<and> stores_request c_str q r \<and> sr_retry_of r = None
        \<and> admitted lim (rq_user_id q) (records_of ts s)"
      if "pg_create ts lim e q s = (Inr r, s')" for r
      using that by (rule create) (auto simp: stores_request_def stored(3-))
  }
  {
    fix i v et
    note complete = pg_completeE [OF wf, of ts e i v et] and stored = complete_records [OF wf]
    show "wf_submissions s'" if "pg_complete ts e i v et s = (res, s')" for res
      using that by (rule complete) (auto simp: wf stored(1))
    show "records_of ts s' = records_of ts s" if "pg_complete ts e i v et s = (Inl err, s')" for err
      using that by (rule complete) simp_all
    show "\<exists>x t. x \<in> set (records_of ts s) \<and> sr_id x = i \<and> sr_status x = running
          \<and> r = x\<lparr>sr_status := completed, sr_verdict := Some v, sr_completed_at := Some t,
                  sr_error_type := map_option c_str et\<rparr>
          \<and> records_of ts s' = set_record r (records_of ts s)"
      if "pg_complete ts e i v et s = (Inr r, s')" for r
      using that by (rule complete)
        (auto dest!: stored(3) [where ?txt = ts])
    show "\<exists>r s'. pg_complete ts e (sr_id x) v et s = (Inr r, s')"
      if "pg_healthy e" "x \<in> set (records_of ts s)" "sr_status x = running" for x
      by (rule pg_complete_healthy [OF wf that])
  }
  {
    fix i et
    note fail = pg_failE [OF wf, of ts e i et] and stored = fail_records [OF wf]
    show "wf_submissions s'" if "pg_fail ts e i et s = (res, s')" for res
      using that by (rule fail) (auto simp: wf stored(1))
    show "records_of ts s' = records_of ts s" if "pg_fail ts e i et s = (Inl err, s')" for err
      using that by (rule fail) simp_all
    show "\<exists>x t. x \<in> set (records_of ts s) \<and> sr_id x = i \<and> sr_status x = running
          \<and> r = x\<lparr>sr_status := failed, sr_completed_at := Some t,
                  sr_error_type := map_option c_str et\<rparr>
          \<and> records_of ts s' = set_record r (records_of ts s)"
      if "pg_fail ts e i et s = (Inr r, s')" for r
      using that by (rule fail)
        (auto dest!: stored(3) [where ?txt = ts])
    show "\<exists>r s'. pg_fail ts e (sr_id x) et s = (Inr r, s')"
      if "pg_healthy e" "x \<in> set (records_of ts s)" "sr_status x = running" for x
      by (rule pg_fail_healthy [OF wf that])
  }
  note claim = pg_claimE [OF wf, of ts lim e]
    and none = claim_none_records [OF wf claims_candidate_row [of lim s]]
    and some = claim_some_records [OF wf claims_candidate_row [of lim s]]
  show "wf_submissions s'" if "pg_claim_next ts lim e s = (res, s')" for res
    using that by (rule claim) (auto simp: wf some(1) dest: none(1))
  show "records_of ts s' = records_of ts s" if "pg_claim_next ts lim e s = (Inl err, s')" for err
    using that by (rule claim) simp_all
  show "records_of ts s' = records_of ts s
      \<and> List.find (claimable lim (records_of ts s)) (records_of ts s) = None"
    if "pg_claim_next ts lim e s = (Inr None, s')"
    using that by (rule claim) (auto dest: none(1) intro: none(2))
  show "\<exists>x. List.find (claimable lim (records_of ts s)) (records_of ts s) = Some x
      \<and> r = x\<lparr>sr_status := running\<rparr> \<and> records_of ts s' = set_record r (records_of ts s)"
    if "pg_claim_next ts lim e s = (Inr (Some r), s')" for r
    using that by (rule claim) (auto dest!: some(3) [where ?txt = ts])
  show "\<exists>r s'. pg_claim_next ts lim e s = (Inr r, s')" if "pg_healthy e"
    by (rule pg_claim_healthy [OF wf that])
  note requeued = recover_records [OF wf]
  show "wf_submissions s'" if "pg_recover_running e s = (res, s')" for res
    using that by (rule pg_recoverE) (auto simp: wf requeued(1))
  show "records_of ts s' = records_of ts s" if "pg_recover_running e s = (Inl err, s')" for err
    using that by (rule pg_recoverE) simp_all
  show "records_of ts s' = requeue (records_of ts s)
      \<and> n = count_where (\<lambda>r. sr_status r = running) (records_of ts s)"
    if "pg_recover_running e s = (Inr n, s')" for n
    using that by (rule pg_recoverE) (auto simp: requeued(2,3))
  show "found = List.find (\<lambda>r. sr_id r = i) (records_of ts s)"
    if "pg_find ts e i s = Inr found" for i found
    by (rule pg_findE [OF wf that])
  {
    fix i admin
    note retry = pg_retryE [OF wf, of ts lim e i admin] and stored = retry_records [OF wf]
    show "wf_submissions s'" if "pg_retry ts lim e i admin s = (res, s')" for res
      using that by (rule retry) (auto simp: wf stored(1) insert_audit_records)
    show "records_of ts s' = records_of ts s" if "pg_retry ts lim e i admin s = (Inl err, s')" for err
      using that by (rule retry) simp_all
    show "\<exists>x. x \<in> set (records_of ts s) \<and> sr_id x = i \<and> retryable (records_of ts s) x
          \<and> admitted lim (sr_user_id x) (records_of ts s) \<and> fresh_record r
          \<and> sr_problem_id r = sr_problem_id x \<and> sr_language r = sr_language x
          \<and> sr_source_code r = sr_source_code x \<and> sr_user_id r = sr_user_id x
          \<and> sr_retry_of r = Some i \<and> records_of ts s' = records_of ts s @ [r]"
      if "pg_retry ts lim e i admin s = (Inr r, s')" for r
      using that by (rule retry)
        (auto dest!: stored(4) [where ?txt = ts] simp: insert_audit_records)
  }
  show "wf_submissions s' \<and> records_of ts s' = records_of ts s"
    if "pg_audit e admin action ty entity d s = (outcome, s')" for admin action ty entity d outcome
    using that by (rule pg_auditE) (auto simp: wf insert_audit_records)
qed

end
