(* ===== verification/Progress.thy ===== *)
theory Progress
  imports Submission_Queries
begin

text \<open>
  What the progress queries of both repositories compute: the streak is the number of consecutive
  days, ending at the latest one, with an accepted submission; the completed problems carry their
  first completion time, the latest first.
\<close>

section \<open>The streak\<close>

lemma down_closed_card:
  fixes A :: "nat set"
  assumes "finite A" "\<And>p q. q \<in> A \<Longrightarrow> p < q \<Longrightarrow> p \<in> A"
  shows "A = {..<card A}"
proof -
  obtain n where n: "\<forall>p. p \<in> A \<longleftrightarrow> p < n"
  proof (cases "A = {}")
    case False
    then have "p \<in> A \<longleftrightarrow> p < Suc (Max A)" for p
      using assms(2) [OF Max_in [OF assms(1) False], of p] Max_in [OF assms(1) False]
        Max_ge [OF assms(1), of p]
      by (cases "p = Max A") (auto simp: less_Suc_eq_le)
    then show ?thesis using that by blast
  qed (use that [of 0] in simp)
  then have "A = {..<n}" by auto
  then show ?thesis by simp
qed

lemma count_where_zip_index:
  "count_where P (zip xs [0..<length xs]) = card {p. p < length xs \<and> P (xs ! p, p)}"
proof -
  have "count_where P (zip xs [0..<length xs])
      = card {p. p < length (zip xs [0..<length xs]) \<and> P (zip xs [0..<length xs] ! p)}"
    by (simp add: count_where_def length_filter_conv_card)
  also have "{p. p < length (zip xs [0..<length xs]) \<and> P (zip xs [0..<length xs] ! p)}
      = {p. p < length xs \<and> P (xs ! p, p)}"
    by auto
  finally show ?thesis .
qed

lemma descending_gap:
  fixes xs :: "int list"
  assumes "sorted_wrt (>) xs" "q < length xs" "p \<le> q"
  shows "int q - int p \<le> xs ! p - xs ! q"
  using assms(2,3)
proof (induction q)
  case (Suc q)
  show ?case
  proof (cases "p = Suc q")
    case False
    have "xs ! Suc q < xs ! q" using assms(1) Suc.prems(1) by (auto intro: sorted_wrt_nth_less)
    then show ?thesis using Suc False by simp
  qed simp
qed simp

lemma streak_of_descending:
  fixes xs :: "int list"
  assumes desc: "sorted_wrt (>) xs" and "xs \<noteq> []"
    and n: "n = count_where (\<lambda>(day, position). xs ! 0 - day = int position) (zip xs [0..<length xs])"
  shows "0 < n" "k < n \<Longrightarrow> xs ! 0 - int k \<in> set xs" "xs ! 0 - int n \<notin> set xs"
proof -
  define A where "A = {p. p < length xs \<and> xs ! 0 - xs ! p = int p}"
  have "q \<in> A \<Longrightarrow> p < q \<Longrightarrow> p \<in> A" for p q
    using descending_gap [OF desc, of q p] descending_gap [OF desc, of p 0] by (auto simp: A_def)
  then have A: "A = {..<n}"
    using down_closed_card [of A] n by (simp add: count_where_zip_index A_def)
  have "0 \<in> A" using assms(2) by (simp add: A_def)
  then show "0 < n" using A by simp
  show "xs ! 0 - int k \<in> set xs" if "k < n"
  proof -
    have "k \<in> A" using that A by simp
    then have "k < length xs" "xs ! 0 - int k = xs ! k" by (auto simp: A_def)
    then show ?thesis by simp
  qed
  show "xs ! 0 - int n \<notin> set xs"
  proof
    assume "xs ! 0 - int n \<in> set xs"
    then obtain q where q: "q < length xs" "xs ! 0 - xs ! q = int n"
      by (fastforce simp: in_set_conv_nth)
    then have "q \<le> n" using descending_gap [OF desc q(1), of 0] by simp
    then have "q \<in> A"
      using q A by (cases "q = n") (auto simp: A_def)
    then show False using q A by (auto simp: A_def)
  qed
qed

lemma descending_days:
  fixes days :: "int list"
  shows "sorted_wrt (>) (rev (sort (remdups days)))"
  by (simp add: sorted_wrt_rev strict_sorted_iff)

lemma descending_first:
  fixes days :: "int list"
  assumes "rev (sort (remdups days)) = latest # earlier"
  shows "latest = Max (set days)" "set (latest # earlier) = set days"
proof -
  have set: "set (latest # earlier) = set days"
    unfolding assms [symmetric] by simp
  then show "set (latest # earlier) = set days" .
  have "\<forall>d \<in> set earlier. d < latest"
    using descending_days [of days] unfolding assms by simp
  then have "Max (set (latest # earlier)) = latest" by (intro Max_eqI) auto
  then show "latest = Max (set days)" unfolding set by simp
qed

text \<open>
  C32: The streak query of both repositories. It answers 0 when there is no accepted submission or
  the latest one is older than yesterday; otherwise the length of the run of consecutive days that
  ends at the latest day: every day of the run has an accepted submission and the day before the run
  has none.
\<close>

theorem streak_query_correct:
  "if days = [] \<or> Max (set days) < today - 1 then streak_query today days = 0
   else 0 < streak_query today days
     \<and> (\<lambda>k. Max (set days) - int k) ` {..<streak_query today days} \<subseteq> set days
     \<and> Max (set days) - int (streak_query today days) \<notin> set days"
proof (cases "rev (sort (remdups days))")
  case Nil
  then have "set (sort (remdups days)) = set []" by (simp only: rev_is_Nil_conv)
  then have "days = []" by simp
  then show ?thesis by (simp add: streak_query_def)
next
  case (Cons latest earlier)
  note first = descending_first [OF Cons]
  have "days \<noteq> []" using first(2) by auto
  show ?thesis
  proof (cases "latest < today - 1")
    case True
    then show ?thesis using first(1) by (simp add: streak_query_def Cons)
  next
    case False
    let ?xs = "latest # earlier" and ?n = "streak_query today days"
    have n: "?n = count_where (\<lambda>(day, position). ?xs ! 0 - day = int position)
        (zip ?xs [0..<length ?xs])"
      using False by (simp add: streak_query_def Cons Let_def)
    have desc: "sorted_wrt (>) ?xs" using descending_days [of days] unfolding Cons .
    have "0 < ?n" "k < ?n \<Longrightarrow> latest - int k \<in> set ?xs" "latest - int ?n \<notin> set ?xs" for k
      using streak_of_descending [OF desc _ n] by simp_all
    then show ?thesis
      using first False \<open>days \<noteq> []\<close> by (simp only: if_False) auto
  qed
qed

end
