(* ===== verification/Problem_Judge.thy ===== *)
theory Problem_Judge
  imports Submission_Worker
begin

text \<open>
  \<^verbatim>\<open>ProblemJudge\<close> (\<^verbatim>\<open>problem-judge.h\<close>,
  \<^verbatim>\<open>problem-judge.cpp\<close>) and \<^verbatim>\<open>MockJudge\<close>
  (\<^verbatim>\<open>mock-judge.cpp\<close>): comparing outputs, classifying runtime errors, and running the
  hidden tests of a problem in order until one does not pass. The executor is the object the class
  takes by reference, a function on its own state; \<open>find_for_judging\<close> is
  \<^verbatim>\<open>ProblemService::find_for_judging\<close>.
\<close>

section \<open>Runtime errors\<close>

lemma length_after_newline [termination_simp]:
  "dropWhile (\<lambda>c. c \<noteq> newline) s = c # rest \<Longrightarrow> length rest < length s"
  by (metis Suc_le_eq length_Cons length_dropWhile_le)

definition error_line_name :: "string \<Rightarrow> string" where
  "error_line_name line = takeWhile (\<lambda>c. c \<noteq> CHR '':'') (dropWhile isspace line)"

definition exception_name :: "string \<Rightarrow> bool" where
  "exception_name name \<longleftrightarrow>
     (name \<noteq> [] \<and> list_all (\<lambda>c. isalnum c \<or> c = CHR ''_'') name)
     \<and> (ends_with name ''Error'' \<or> ends_with name ''Exception'')"

fun python_exception_name :: "string \<Rightarrow> string option" where
  "python_exception_name error =
     (if error = [] then None
      else let name = error_line_name (takeWhile (\<lambda>c. c \<noteq> newline) error)
           in if exception_name name then Some name
              else case dropWhile (\<lambda>c. c \<noteq> newline) error of
                  [] \<Rightarrow> None
                | _ # rest \<Rightarrow> python_exception_name rest)"

declare python_exception_name.simps [simp del]

text \<open>Linux signal numbers.\<close>

definition signal_name :: "int \<Rightarrow> string" where
  "signal_name signal =
     (if signal = 11 then ''SIGSEGV''
      else if signal = 6 then ''SIGABRT''
      else if signal = 4 then ''SIGILL''
      else if signal = 8 then ''SIGFPE''
      else if signal = 9 then ''SIGKILL''
      else if signal = 15 then ''SIGTERM''
      else ''signal '' @ to_string signal)"

definition classify_runtime_error :: "execution_result \<Rightarrow> string" where
  "classify_runtime_error ex =
     (case execution_error_type ex of Some t \<Rightarrow> t
      | None \<Rightarrow>
        if exit_code ex = 120 then ''Output Limit Exceeded''
        else if exit_code ex = 127 then ''Sandbox Runtime Error''
        else let exception = python_exception_name (standard_error ex)
             in if exception = Some ''MemoryError'' \<or> contains (standard_error ex) ''std::bad_alloc''
                then ''Memory Limit Exceeded''
                else if exception = Some ''SyntaxError'' \<or> exception = Some ''IndentationError''
                  \<or> exception = Some ''TabError''
                then ''Syntax Error''
                else case exception of Some name \<Rightarrow> ''Exception: '' @ name
                  | None \<Rightarrow>
                    if exit_code ex \<ge> 128
                    then ''Terminated by '' @ signal_name (exit_code ex - 128)
                    else ''Runtime Error'')"

section \<open>Comparing outputs\<close>

fun unify_newlines :: "string \<Rightarrow> string" where
  "unify_newlines [] = []"
| "unify_newlines (c # cs) =
     (if c \<noteq> carriage_return then c # unify_newlines cs
      else newline # (case cs of [] \<Rightarrow> []
        | d # ds \<Rightarrow> if d = newline then unify_newlines ds else unify_newlines (d # ds)))"

definition trailing_whitespace :: string where
  "trailing_whitespace = [CHR '' '', CHR 0x09, CHR 0x0A, CHR 0x0B, CHR 0x0C]"

definition strip_trailing :: "string \<Rightarrow> string" where
  "strip_trailing s = rev (dropWhile (\<lambda>c. c \<in> set trailing_whitespace) (rev s))"

definition normalize_output :: "string \<Rightarrow> string" where
  "normalize_output output = strip_trailing (unify_newlines output)"

section \<open>Running the tests\<close>

type_synonym 'x executor = "execution_request \<Rightarrow> 'x \<Rightarrow> executor_result \<times> 'x"

definition test_request :: "judge_request \<Rightarrow> problem_test_case \<Rightarrow> execution_request" where
  "test_request request t = \<lparr>xr_language = jr_language request,
     xr_source_code = jr_source_code request, xr_standard_input = tc_input t\<rparr>"

fun run_tests :: "'x executor \<Rightarrow> judge_request \<Rightarrow> problem_test_case list \<Rightarrow> 'x \<Rightarrow> judge_result \<times> 'x" where
  "run_tests executor request [] x = (Judged accepted, x)"
| "run_tests executor request (t # ts) x =
     (case executor (test_request request t) x of
        (Inl (ExecutorError m), x') \<Rightarrow> (JudgeError m, x')
      | (Inr execution, x') \<Rightarrow>
          if timed_out execution then (Judged time_limit_exceeded, x')
          else if exit_code execution \<noteq> 0 then (RuntimeError (classify_runtime_error execution), x')
          else if normalize_output (standard_output execution) \<noteq> normalize_output (tc_expected_output t)
          then (Judged wrong_answer, x')
          else run_tests executor request ts x')"

definition problem_judge ::
    "'x executor \<Rightarrow> (string \<Rightarrow> problem_repository_error + problem option) \<Rightarrow> judge_request \<Rightarrow> 'x
       \<Rightarrow> judge_result \<times> 'x" where
  "problem_judge executor find_for_judging request x =
     (case find_for_judging (jr_problem_id request) of
        Inl (ProblemRepositoryError m) \<Rightarrow> (JudgeError m, x)
      | Inr None \<Rightarrow> (JudgeError ''Unknown problem'', x)
      | Inr (Some problem) \<Rightarrow>
          if pb_hidden_tests problem = [] then (JudgeError ''Problem has no enabled hidden tests'', x)
          else run_tests executor request (pb_hidden_tests problem) x)"

definition mock_judge :: "judge_request \<Rightarrow> judge_result" where
  "mock_judge request = Judged accepted"

text \<open>The judge as the worker pool calls it.\<close>

definition problem_judge_object ::
    "'x executor \<Rightarrow> (string \<Rightarrow> problem_repository_error + problem option) \<Rightarrow> 'x judge" where
  "problem_judge_object executor find_for_judging request x = apfst Returns (problem_judge executor find_for_judging request x)"

section \<open>Output comparison\<close>

lemma unify_newlines_no_cr: "carriage_return \<notin> set (unify_newlines s)"
  by (induction s rule: unify_newlines.induct) (auto split: list.splits)

lemma unify_newlines_id: "carriage_return \<notin> set s \<Longrightarrow> unify_newlines s = s"
  by (induction s) auto

lemma set_strip_trailing: "set (strip_trailing s) \<subseteq> set s"
  by (auto simp: strip_trailing_def dest: set_dropWhileD)

lemma strip_trailing_idem [simp]: "strip_trailing (strip_trailing s) = strip_trailing s"
  by (simp add: strip_trailing_def dropWhile_idem)

lemma strip_trailing_append:
  "set w \<subseteq> set trailing_whitespace \<Longrightarrow> strip_trailing (s @ w) = strip_trailing s"
  unfolding strip_trailing_def by (subst rev_append, subst dropWhile_append2) auto

lemma strip_trailing_last:
  "strip_trailing s = [] \<or> last (strip_trailing s) \<notin> set trailing_whitespace"
proof (cases "strip_trailing s")
  case (Cons a as)
  then have "dropWhile (\<lambda>c. c \<in> set trailing_whitespace) (rev s) \<noteq> []"
    by (auto simp: strip_trailing_def)
  then show ?thesis
    using hd_dropWhile [of "\<lambda>c. c \<in> set trailing_whitespace" "rev s"]
    by (simp add: strip_trailing_def last_rev)
qed simp

lemma strip_trailing_split:
  obtains w where "s = strip_trailing s @ w" "set w \<subseteq> set trailing_whitespace"
proof
  let ?P = "\<lambda>c. c \<in> set trailing_whitespace"
  have "s = rev (takeWhile ?P (rev s) @ dropWhile ?P (rev s))" by simp
  then show "s = strip_trailing s @ rev (takeWhile ?P (rev s))"
    unfolding strip_trailing_def rev_append .
  show "set (rev (takeWhile ?P (rev s))) \<subseteq> set trailing_whitespace"
    using set_takeWhileD by fastforce
qed

lemma normalize_no_cr: "carriage_return \<notin> set (normalize_output s)"
  using unify_newlines_no_cr set_strip_trailing by (auto simp: normalize_output_def)

text \<open>
  What the comparison means, without reference to the program: the first carriage return of a text,
  with the line feed after it if there is one, may be replaced by a line feed, and a space, tab, line
  feed, vertical tab or form feed at the very end may be dropped.
\<close>

inductive same_output :: "string \<Rightarrow> string \<Rightarrow> bool" where
  same: "same_output a a"
| symmetric: "same_output a b \<Longrightarrow> same_output b a"
| transitive: "same_output a b \<Longrightarrow> same_output b c \<Longrightarrow> same_output a c"
| crlf: "CHR 0x0D \<notin> set s \<Longrightarrow> same_output (s @ CHR 0x0D # CHR 0x0A # t) (s @ CHR 0x0A # t)"
| cr: "CHR 0x0D \<notin> set s \<Longrightarrow> t = [] \<or> hd t \<noteq> CHR 0x0A \<Longrightarrow> same_output (s @ CHR 0x0D # t) (s @ CHR 0x0A # t)"
| trailing: "c \<in> {CHR '' '', CHR 0x09, CHR 0x0A, CHR 0x0B, CHR 0x0C} \<Longrightarrow> same_output (s @ [c]) s"

lemma unify_newlines_append: "carriage_return \<notin> set s \<Longrightarrow> unify_newlines (s @ t) = s @ unify_newlines t"
  by (induction s) auto

lemma unify_newlines_snoc:
  "c \<noteq> carriage_return \<Longrightarrow> unify_newlines (s @ [c]) = unify_newlines s @ [c]
     \<or> (c = newline \<and> unify_newlines (s @ [c]) = unify_newlines s)"
proof (induction s rule: unify_newlines.induct)
  case (2 d ds)
  show ?case
  proof (cases "d = carriage_return")
    case True
    with 2 show ?thesis
      by (cases ds) auto
  qed (use 2 in simp)
qed simp

lemma same_output_normalized: "same_output a b \<Longrightarrow> normalize_output a = normalize_output b"
proof (induction rule: same_output.induct)
  case (trailing c s)
  then have "c \<noteq> carriage_return" "set [c] \<subseteq> set trailing_whitespace"
    by (auto simp: trailing_whitespace_def)
  then show ?case
    using unify_newlines_snoc [of c s] strip_trailing_append [of "[c]" "unify_newlines s"]
    by (auto simp: normalize_output_def)
qed (auto simp: normalize_output_def unify_newlines_append split: list.splits)

lemma same_output_unified: "carriage_return \<notin> set s \<Longrightarrow> same_output (s @ a) (s @ unify_newlines a)"
proof (induction a arbitrary: s rule: unify_newlines.induct)
  case (2 c cs)
  show ?case
  proof (cases "c = carriage_return")
    case False
    then show ?thesis
      using "2.IH"(1) [of "s @ [c]"] "2.prems" by simp
  next
    case cr: True
    have step: "same_output (s @ newline # ds) (s @ newline # unify_newlines ds)"
      if "\<And>s. carriage_return \<notin> set s \<Longrightarrow> same_output (s @ ds) (s @ unify_newlines ds)" for ds
      using that [of "s @ [newline]"] "2.prems" by simp
    show ?thesis
    proof (cases cs)
      case Nil
      then show ?thesis
        using same_output.cr [of s "[]"] "2.prems" cr by simp
    next
      case (Cons d ds)
      show ?thesis
      proof (cases "d = newline")
        case True
        have "same_output (s @ c # cs) (s @ newline # ds)"
          using same_output.crlf [of s ds] "2.prems" cr Cons True by simp
        moreover have "same_output (s @ newline # ds) (s @ newline # unify_newlines ds)"
          by (rule step, rule "2.IH"(2)) (use cr Cons True in simp_all)
        moreover have "unify_newlines (c # cs) = newline # unify_newlines ds"
          using cr Cons True by simp
        ultimately show ?thesis
          by (metis same_output.transitive)
      next
        case False
        have "same_output (s @ c # cs) (s @ newline # d # ds)"
          using same_output.cr [of s "d # ds"] "2.prems" cr Cons False by simp
        moreover have "same_output (s @ newline # d # ds) (s @ newline # unify_newlines (d # ds))"
          by (rule step, rule "2.IH"(3)) (use cr Cons False in simp_all)
        moreover have "unify_newlines (c # cs) = newline # unify_newlines (d # ds)"
          using cr Cons False by simp
        ultimately show ?thesis
          by (metis same_output.transitive)
      qed
    qed
  qed
qed (simp add: same_output.same)

lemma same_output_stripped: "set w \<subseteq> set trailing_whitespace \<Longrightarrow> same_output (s @ w) s"
proof (induction w rule: rev_induct)
  case (snoc c w)
  then have "same_output ((s @ w) @ [c]) (s @ w)"
    by (intro same_output.trailing) (auto simp: trailing_whitespace_def)
  with snoc show ?case
    by (auto intro: same_output.transitive)
qed (simp add: same_output.same)

lemma same_output_normal_form: "same_output a (normalize_output a)"
proof -
  obtain w where w: "unify_newlines a = normalize_output a @ w" "set w \<subseteq> set trailing_whitespace"
    unfolding normalize_output_def by (metis strip_trailing_split)
  have "same_output a (unify_newlines a)"
    using same_output_unified [of "[]" a] by simp
  moreover have "same_output (unify_newlines a) (normalize_output a)"
    unfolding w(1) using w(2) by (rule same_output_stripped)
  ultimately show ?thesis
    by (rule same_output.transitive)
qed

text \<open>
  C35: Two outputs compare equal exactly when they are the same text up to the kind of line ends (CR
  LF, a lone CR, or LF) and up to spaces, tabs, line feeds, vertical tabs and form feeds at the very
  end.
\<close>

theorem normalize_output_eq_iff: "normalize_output a = normalize_output b \<longleftrightarrow> same_output a b"
proof
  assume "normalize_output a = normalize_output b"
  then have "same_output (normalize_output a) b"
    using same_output.symmetric [OF same_output_normal_form [of b]] by simp
  with same_output_normal_form [of a] show "same_output a b"
    by (rule same_output.transitive)
qed (rule same_output_normalized)

text \<open>
  Normalizing is idempotent and its result has no carriage return and no trailing whitespace.
\<close>

lemma normalize_output_canonical:
  "normalize_output (normalize_output s) = normalize_output s
   \<and> carriage_return \<notin> set (normalize_output s)
   \<and> (if normalize_output s = [] then True else last (normalize_output s) \<notin> set trailing_whitespace)"
proof -
  have "unify_newlines (normalize_output s) = normalize_output s"
    by (rule unify_newlines_id [OF normalize_no_cr])
  then have "normalize_output (normalize_output s) = normalize_output s"
    by (simp add: normalize_output_def)
  then show ?thesis
    using normalize_no_cr [of s] strip_trailing_last [of "unify_newlines s"]
    by (auto simp: normalize_output_def)
qed

section \<open>The exception a program died of\<close>

lemma takeWhile_line [simp]:
  "newline \<notin> set l \<Longrightarrow> takeWhile (\<lambda>c. c \<noteq> newline) (l @ newline # s) = l"
  by (induction l) auto

lemma dropWhile_line [simp]:
  "newline \<notin> set l \<Longrightarrow> dropWhile (\<lambda>c. c \<noteq> newline) (l @ newline # s) = newline # s"
  by (induction l) auto

text \<open>
  The exception named in a runtime error is the one of the first line of the error output that
  starts, after blanks, with an identifier ending in Error or Exception; earlier lines are skipped
  and later ones are not looked at.
\<close>

lemma python_exception_name_lines:
  assumes "\<forall>l \<in> set ls. newline \<notin> set l"
  shows "python_exception_name (concat (map (\<lambda>l. l @ [newline]) ls))
    = map_option error_line_name (List.find (exception_name \<circ> error_line_name) ls)"
  using assms
proof (induction ls)
  case Nil
  then show ?case by (simp add: python_exception_name.simps)
next
  case (Cons l ls)
  then show ?case
    by (subst python_exception_name.simps) (simp add: Let_def comp_def)
qed

section \<open>Verdicts\<close>

text \<open>The results of running all tests one after the other, whatever they are.\<close>

fun executions :: "'x executor \<Rightarrow> judge_request \<Rightarrow> problem_test_case list \<Rightarrow> 'x \<Rightarrow> executor_result list" where
  "executions executor request [] x = []"
| "executions executor request (t # ts) x =
     (case executor (test_request request t) x of
        (result, x') \<Rightarrow> result # executions executor request ts x')"

fun after_tests :: "'x executor \<Rightarrow> judge_request \<Rightarrow> problem_test_case list \<Rightarrow> 'x \<Rightarrow> 'x" where
  "after_tests executor request [] x = x"
| "after_tests executor request (t # ts) x =
     after_tests executor request ts (snd (executor (test_request request t) x))"

definition passes :: "problem_test_case \<Rightarrow> executor_result \<Rightarrow> bool" where
  "passes t result \<longleftrightarrow> (case result of Inl _ \<Rightarrow> False
     | Inr ex \<Rightarrow> \<not> timed_out ex \<and> exit_code ex = 0
         \<and> normalize_output (standard_output ex) = normalize_output (tc_expected_output t))"

text \<open>What the judge answers for a test that does not pass.\<close>

definition failure_result :: "executor_result \<Rightarrow> judge_result" where
  "failure_result result = (case result of Inl (ExecutorError m) \<Rightarrow> JudgeError m
     | Inr ex \<Rightarrow> if timed_out ex then Judged time_limit_exceeded
         else if exit_code ex \<noteq> 0 then RuntimeError (classify_runtime_error ex)
         else Judged wrong_answer)"

lemma failure_not_accepted [simp]: "failure_result r \<noteq> Judged accepted"
  by (simp add: failure_result_def split: sum.splits executor_error.splits)

lemma run_tests_Cons:
  "run_tests executor request (t # ts) x =
     (case executor (test_request request t) x of (result, x') \<Rightarrow>
        if passes t result then run_tests executor request ts x' else (failure_result result, x'))"
  by (auto simp: passes_def failure_result_def split: prod.splits sum.splits executor_error.splits)

lemma run_tests_accepted_iff:
  "fst (run_tests executor request ts x) = Judged accepted
    \<longleftrightarrow> list_all2 passes ts (executions executor request ts x)"
proof (induction ts arbitrary: x)
  case (Cons t ts)
  then show ?case
    by (simp only: run_tests_Cons) (auto split: prod.splits)
qed simp

lemma run_tests_append:
  "list_all2 passes pre (executions executor request pre x) \<Longrightarrow>
     run_tests executor request (pre @ ts) x
       = run_tests executor request ts (after_tests executor request pre x)"
proof (induction pre arbitrary: x)
  case (Cons t pre)
  then show ?case
    by (simp only: append_Cons run_tests_Cons) (auto split: prod.splits)
qed simp

text \<open>
  C30: A submission is accepted exactly when the problem exists, has hidden tests, and every test
  passes: the execution ends in time with exit code 0 and prints the expected output up to line
  endings and trailing whitespace.
\<close>

theorem judge_accepts_iff:
  "fst (problem_judge executor find_for_judging request x) = Judged accepted \<longleftrightarrow>
     (\<exists>p. find_for_judging (jr_problem_id request) = Inr (Some p) \<and> pb_hidden_tests p \<noteq> []
        \<and> list_all2 passes (pb_hidden_tests p) (executions executor request (pb_hidden_tests p) x))"
  by (auto simp: problem_judge_def run_tests_accepted_iff
      split: sum.splits option.splits problem_repository_error.splits)

text \<open>
  C31: Judging stops at the first test that does not pass. The verdict is that test's, and the
  executor has run the tests up to it and no other: its final state is the one after that run.
\<close>

theorem judge_stops_at_first_failure:
  assumes "find_for_judging (jr_problem_id request) = Inr (Some p)"
    "pb_hidden_tests p = pre @ t # post"
    "list_all2 passes pre (executions executor request pre x)"
    "executor (test_request request t) (after_tests executor request pre x) = (result, x')"
    "\<not> passes t result"
  shows "problem_judge executor find_for_judging request x = (failure_result result, x')"
  using assms by (simp add: problem_judge_def run_tests_append run_tests_Cons del: run_tests.simps)

text \<open>A program that echoes its input, with a counter of its runs, and a problem with three tests.\<close>

definition echo_executor :: "nat executor" where
  "echo_executor request n = (Inr \<lparr>exit_code = 0, standard_output = xr_standard_input request,
     standard_error = [], timed_out = False, execution_error_type = None\<rparr>, Suc n)"

definition sample_test :: "string \<Rightarrow> string \<Rightarrow> problem_test_case" where
  "sample_test i output = \<lparr>tc_input = i, tc_expected_output = output, tc_id = 0, tc_position = 0,
     tc_enabled = True, tc_revision = 1\<rparr>"

definition sample_problem :: problem where
  "sample_problem = \<lparr>pb_id = ''echo'', pb_title = ''Echo'', pb_description = [],
     pb_input_format = [], pb_output_format = [], pb_difficulty = easy, pb_tags = [],
     pb_languages = [''python''], pb_examples = [], pb_enabled = True, pb_revision = 1,
     pb_hidden_tests = [sample_test ''1'' ''1'', sample_test ''2'' ''3'', sample_test ''4'' ''4'']\<rparr>"

definition sample_judge_request :: judge_request where
  "sample_judge_request = \<lparr>jr_problem_id = ''echo'', jr_language = ''python'', jr_source_code = ''x''\<rparr>"

theorem judge_stops_at_first_failure_witness:
  "problem_judge echo_executor (\<lambda>_. Inr (Some sample_problem)) sample_judge_request 0
    = (Judged wrong_answer, 2)"
proof -
  let ?bad = "Inr \<lparr>exit_code = 0, standard_output = ''2'', standard_error = [], timed_out = False,
     execution_error_type = None\<rparr>"
  have "problem_judge echo_executor (\<lambda>_. Inr (Some sample_problem)) sample_judge_request 0
      = (failure_result ?bad, 2)"
  proof (rule judge_stops_at_first_failure [where pre = "[sample_test ''1'' ''1'']"
        and t = "sample_test ''2'' ''3''" and post = "[sample_test ''4'' ''4'']"])
    show "(\<lambda>_. Inr (Some sample_problem)) (jr_problem_id sample_judge_request)
        = Inr (Some sample_problem)" by simp
    show "pb_hidden_tests sample_problem
        = [sample_test ''1'' ''1''] @ sample_test ''2'' ''3'' # [sample_test ''4'' ''4'']"
      by (simp add: sample_problem_def)
    show "list_all2 passes [sample_test ''1'' ''1'']
        (executions echo_executor sample_judge_request [sample_test ''1'' ''1''] 0)" by code_simp
    show "echo_executor (test_request sample_judge_request (sample_test ''2'' ''3''))
        (after_tests echo_executor sample_judge_request [sample_test ''1'' ''1''] 0) = (?bad, 2)"
      by code_simp
    show "\<not> passes (sample_test ''2'' ''3'') ?bad" by code_simp
  qed
  then show ?thesis by (simp add: failure_result_def)
qed

end
