(* ===== verification/Case_Generators.thy ===== *)
theory Case_Generators
  imports Core_Types "HOL-Library.AList"
begin

text \<open>
  The generators of hidden test cases in \<^verbatim>\<open>backend/src/problem.cpp\<close>: each prints an input
  and computes the expected output with a reference algorithm (greedy selection, two pointers, hash
  tables). The theorems show that the answers are the ones the problem statements ask for: optimal
  selections, minimal hitting sets, exact counts. A \<^verbatim>\<open>std::unordered_map\<close> is an
  association list with one entry per key; \<^verbatim>\<open>long long\<close> values are integers (no
  computation here leaves the 64-bit range).
\<close>

section \<open>Printing\<close>

definition values_line :: "int list \<Rightarrow> string" where
  "values_line vs = concat (map (\<lambda>(k, v). (if k \<noteq> 0 then '' '' else []) @ to_string v)
     (zip [0..<length vs] vs)) @ [newline]"

definition sized_values_input :: "int list \<Rightarrow> string" where
  "sized_values_input vs = to_string (int (length vs)) @ [newline] @ values_line vs"

definition intervals_input :: "(int \<times> int) list \<Rightarrow> string" where
  "intervals_input is = to_string (int (length is)) @ [newline]
     @ concat (map (\<lambda>(s, e). to_string s @ '' '' @ to_string e @ [newline]) is)"

text \<open>A test case with the default identifier, position, flag and revision.\<close>

definition test_case :: "string \<Rightarrow> string \<Rightarrow> problem_test_case" where
  "test_case input output = \<lparr>tc_input = input, tc_expected_output = output, tc_id = 0,
     tc_position = 0, tc_enabled = True, tc_revision = 1\<rparr>"

definition answer_line :: "int \<Rightarrow> string" where
  "answer_line i = to_string i @ [newline]"

section \<open>The generators\<close>

definition sort_case :: "int list \<Rightarrow> problem_test_case" where
  "sort_case vs = test_case (sized_values_input vs) (values_line (sort vs))"

text \<open>The comparator orders by end, then by start.\<close>

definition by_end :: "(int \<times> int) list \<Rightarrow> (int \<times> int) list" where
  "by_end is = sort_key (\<lambda>(s, e). (e, s)) is"

fun activity_loop :: "(int \<times> int) list \<Rightarrow> int \<Rightarrow> nat \<Rightarrow> nat" where
  "activity_loop [] last_end selected = selected"
| "activity_loop ((s, e) # is) last_end selected =
     (if s \<ge> last_end then activity_loop is e (Suc selected)
      else activity_loop is last_end selected)"

definition activities_selected :: "(int \<times> int) list \<Rightarrow> nat" where
  "activities_selected is = activity_loop (by_end is) (- (2 ^ 63)) 0"

definition activity_case :: "(int \<times> int) list \<Rightarrow> problem_test_case" where
  "activity_case is = test_case (intervals_input is) (answer_line (int (activities_selected is)))"

fun cookie_loop :: "int list \<Rightarrow> int list \<Rightarrow> nat \<Rightarrow> nat" where
  "cookie_loop appetites [] child = child"
| "cookie_loop appetites (c # cs) child =
     (if child < length appetites \<and> c \<ge> appetites ! child
      then cookie_loop appetites cs (Suc child) else cookie_loop appetites cs child)"

definition children_satisfied :: "int list \<Rightarrow> int list \<Rightarrow> nat" where
  "children_satisfied appetites cookies = cookie_loop (sort appetites) (sort cookies) 0"

definition cookie_case :: "int list \<Rightarrow> int list \<Rightarrow> problem_test_case" where
  "cookie_case appetites cookies =
     test_case (to_string (int (length appetites)) @ '' '' @ to_string (int (length cookies))
         @ [newline] @ values_line appetites @ values_line cookies)
       (answer_line (int (children_satisfied appetites cookies)))"

fun arrow_loop :: "(int \<times> int) list \<Rightarrow> nat \<Rightarrow> int \<Rightarrow> nat" where
  "arrow_loop [] arrows position = arrows"
| "arrow_loop ((s, e) # bs) arrows position =
     (if arrows = 0 \<or> s > position then arrow_loop bs (Suc arrows) e
      else arrow_loop bs arrows position)"

definition arrows_needed :: "(int \<times> int) list \<Rightarrow> nat" where
  "arrows_needed bs = arrow_loop (by_end bs) 0 0"

definition arrows_case :: "(int \<times> int) list \<Rightarrow> problem_test_case" where
  "arrows_case bs = test_case (intervals_input bs) (answer_line (int (arrows_needed bs)))"

definition distinct_count :: "int list \<Rightarrow> nat" where
  "distinct_count vs = length (fold (\<lambda>v m. AList.update v True m) vs [])"

definition distinct_case :: "int list \<Rightarrow> problem_test_case" where
  "distinct_case vs = test_case (sized_values_input vs) (answer_line (int (distinct_count vs)))"

text \<open>\<^verbatim>\<open>++counts[value]\<close>: an absent key starts from 0.\<close>

definition entry :: "('k \<times> nat) list \<Rightarrow> 'k \<Rightarrow> nat" where
  "entry m k = (case map_of m k of None \<Rightarrow> 0 | Some n \<Rightarrow> n)"

definition increment :: "'k \<Rightarrow> ('k \<times> nat) list \<Rightarrow> ('k \<times> nat) list" where
  "increment k m = AList.update k (Suc (entry m k)) m"

definition first_unique :: "int list \<Rightarrow> int" where
  "first_unique vs =
     (let counts = fold increment vs [] in
      case List.find (\<lambda>v. entry counts v = 1) vs of None \<Rightarrow> - 1 | Some v \<Rightarrow> v)"

definition first_unique_case :: "int list \<Rightarrow> problem_test_case" where
  "first_unique_case vs = test_case (sized_values_input vs) (answer_line (first_unique vs))"

fun pair_loop :: "int \<Rightarrow> int list \<Rightarrow> (int \<times> nat) list \<Rightarrow> nat \<Rightarrow> nat" where
  "pair_loop target [] seen pairs = pairs"
| "pair_loop target (v # vs) seen pairs =
     pair_loop target vs (increment v seen) (pairs + entry seen (target - v))"

definition pair_sum :: "int list \<Rightarrow> int \<Rightarrow> nat" where
  "pair_sum vs target = pair_loop target vs [] 0"

definition pair_sum_case :: "int list \<Rightarrow> int \<Rightarrow> problem_test_case" where
  "pair_sum_case vs target =
     test_case (to_string (int (length vs)) @ '' '' @ to_string target @ [newline] @ values_line vs)
       (answer_line (int (pair_sum vs target)))"

definition repeated_values :: "nat \<Rightarrow> nat \<Rightarrow> int \<Rightarrow> int list" where
  "repeated_values n modulus offset = map (\<lambda>k. int (k mod modulus) + offset) [0..<n]"

section \<open>Activity selection is optimal\<close>

text \<open>A selection: a list of activities in which each ends before the next starts.\<close>

definition compatible :: "(int \<times> int) list \<Rightarrow> bool" where
  "compatible ys \<longleftrightarrow> sorted_wrt (\<lambda>a b. snd a \<le> fst b) ys"

fun chosen :: "(int \<times> int) list \<Rightarrow> int \<Rightarrow> (int \<times> int) list" where
  "chosen [] last_end = []"
| "chosen ((s, e) # is) last_end =
     (if s \<ge> last_end then (s, e) # chosen is e else chosen is last_end)"

lemma activity_loop_chosen: "activity_loop is l n = n + length (chosen is l)"
  by (induction "is" l n rule: activity_loop.induct) auto

lemma chosen_subset: "mset (chosen is l) \<subseteq># mset is"
  by (induction "is" l rule: chosen.induct) (auto intro: subset_mset_add)

lemma chosen_starts: "\<forall>i \<in> set is. fst i < snd i \<Longrightarrow> i \<in> set (chosen is l) \<Longrightarrow> l \<le> fst i"
  by (induction "is" l rule: chosen.induct) (fastforce split: if_splits)+

lemma chosen_compatible: "\<forall>i \<in> set is. fst i < snd i \<Longrightarrow> compatible (chosen is l)"
  by (induction "is" l rule: chosen.induct) (auto simp: compatible_def dest: chosen_starts)

lemma chosen_optimal:
  assumes "sorted (map snd is)" "\<forall>i \<in> set is. fst i < snd i" "mset ys \<subseteq># mset is"
    "compatible ys" "\<forall>y \<in> set ys. l \<le> fst y"
  shows "length ys \<le> length (chosen is l)"
  using assms
proof (induction "is" l arbitrary: ys rule: chosen.induct)
  case (1 l)
  then show ?case by simp
next
  case (2 s e xs l)
  show ?case
  proof (cases ys)
    case (Cons y zs)
    have y: "y \<in># mset ((s, e) # xs)"
      using mset_subset_eqD [OF 2(5), of y] Cons by simp
    then have "e \<le> snd y" using 2(3) by auto
    moreover have "snd y \<le> fst z" if "z \<in> set zs" for z
      using 2(6) that Cons by (simp add: compatible_def)
    ultimately have late: "\<forall>z \<in> set zs. e \<le> fst z" by fastforce
    show ?thesis
    proof (cases "l \<le> s")
      case True
      have "(s, e) \<notin> set zs" using late 2(4) by auto
      moreover have "mset zs \<subseteq># mset ((s, e) # xs)"
        using 2(5) Cons by (metis mset.simps(2) mset_subset_eq_insertD subset_mset.less_imp_le)
      ultimately have "mset zs \<subseteq># mset xs" by (simp add: subset_mset_without)
      then show ?thesis
        using 2(1) [OF True, of zs] 2(3,4,6) late Cons True by (simp add: compatible_def)
    next
      case False
      then have "(s, e) \<notin> set ys" using 2(7) by auto
      then have "mset ys \<subseteq># mset xs" using 2(5) by (simp add: subset_mset_without)
      then show ?thesis
        using 2(2) [OF False, of ys] 2(3,4,6,7) False by simp
    qed
  qed simp
qed

lemma by_end_facts:
  "mset (by_end is) = mset is" "set (by_end is) = set is" "sorted (map snd (by_end is))"
proof -
  show "mset (by_end is) = mset is" "set (by_end is) = set is" by (simp_all add: by_end_def)
  have "sorted (map (\<lambda>(s, e). (e, s)) (by_end is))" by (simp add: by_end_def)
  then show "sorted (map snd (by_end is))"
    unfolding sorted_map by (rule sorted_wrt_mono_rel [rotated]) (auto simp: less_eq_prod_def)
qed

text \<open>
  C33: The expected answers of the activity-selection tests are optimal: the number the generator
  prints is the size of some selection of pairwise non-overlapping activities, and no selection is
  larger.
\<close>

theorem activities_selected_optimal:
  assumes "\<forall>i \<in> set is. fst i < snd i \<and> - (2 ^ 63) \<le> fst i"
  shows "(\<exists>ys. mset ys \<subseteq># mset is \<and> compatible ys \<and> length ys = activities_selected is)
    \<and> (\<forall>ys. mset ys \<subseteq># mset is \<longrightarrow> compatible ys \<longrightarrow> length ys \<le> activities_selected is)"
proof -
  let ?xs = "by_end is" and ?l = "- (2 ^ 63) :: int"
  have proper: "\<forall>i \<in> set ?xs. fst i < snd i" using assms by (simp add: by_end_facts)
  have n: "activities_selected is = length (chosen ?xs ?l)"
    by (simp add: activities_selected_def activity_loop_chosen)
  have "mset (chosen ?xs ?l) \<subseteq># mset is" using chosen_subset [of ?xs ?l] by (simp add: by_end_facts)
  moreover have "length ys \<le> length (chosen ?xs ?l)" if "mset ys \<subseteq># mset is" "compatible ys" for ys
  proof -
    have "\<forall>y \<in> set ys. ?l \<le> fst y"
      using assms that(1) by (meson mset_subset_eqD set_mset_mset in_multiset_in_set)
    then show ?thesis
      using chosen_optimal [OF by_end_facts(3) proper] that by (simp add: by_end_facts)
  qed
  ultimately show ?thesis
    using chosen_compatible [OF proper, of ?l] unfolding n by blast
qed

theorem activities_selected_optimal_witness:
  "(\<exists>ys. mset ys \<subseteq># mset [(1, 3), (2, 5), (4, 7), (7, 8)] \<and> compatible ys
      \<and> length ys = activities_selected [(1, 3), (2, 5), (4, 7), (7, 8)])
   \<and> 3 \<le> activities_selected [(1, 3), (2, 5), (4, 7), (7, 8)]"
proof -
  let ?is = "[(1, 3), (2, 5), (4, 7), (7, 8)] :: (int \<times> int) list"
  let ?ys = "[(1, 3), (4, 7), (7, 8)] :: (int \<times> int) list"
  have "\<forall>i \<in> set ?is. fst i < snd i \<and> - (2 ^ 63) \<le> fst i" by simp
  note optimal = activities_selected_optimal [OF this]
  have "mset ?ys \<subseteq># mset ?is" by (simp add: subset_mset_add)
  moreover have "compatible ?ys" by (simp add: compatible_def)
  ultimately have "length ?ys \<le> activities_selected ?is" using optimal by blast
  then show ?thesis using optimal by simp
qed

section \<open>Cookie assignment is optimal\<close>

text \<open>An assignment: pairs of an appetite and a cookie that satisfies it, each used once.\<close>

definition assignment :: "int multiset \<Rightarrow> int multiset \<Rightarrow> (int \<times> int) multiset \<Rightarrow> bool" where
  "assignment A C M \<longleftrightarrow> image_mset fst M \<subseteq># A \<and> image_mset snd M \<subseteq># C
     \<and> (\<forall>p \<in># M. fst p \<le> snd p)"

fun satisfied :: "int list \<Rightarrow> int list \<Rightarrow> nat" where
  "satisfied as [] = 0"
| "satisfied [] (c # cs) = 0"
| "satisfied (a # as) (c # cs) = (if a \<le> c then Suc (satisfied as cs) else satisfied (a # as) cs)"

lemma satisfied_Nil [simp]: "satisfied [] cs = 0"
  by (cases cs) simp_all

lemma cookie_loop_satisfied:
  "k \<le> length as \<Longrightarrow> cookie_loop as cs k = k + satisfied (drop k as) cs"
proof (induction cs arbitrary: k)
  case (Cons c cs)
  show ?case
  proof (cases "k < length as")
    case True
    then have "drop k as = as ! k # drop (Suc k) as" by (simp add: Cons_nth_drop_Suc)
    then show ?thesis using Cons True by simp
  next
    case False
    then show ?thesis using Cons by simp
  qed
qed simp

lemma satisfied_assignment:
  "\<exists>M. assignment (mset as) (mset cs) M \<and> size M = satisfied as cs"
proof (induction as cs rule: satisfied.induct)
  case (1 as)
  then show ?case by (intro exI [of _ "{#}"]) (simp add: assignment_def)
next
  case (2 c cs)
  then show ?case by (intro exI [of _ "{#}"]) (simp add: assignment_def)
next
  case (3 a as c cs)
  show ?case
  proof (cases "a \<le> c")
    case True
    then obtain M where "assignment (mset as) (mset cs) M" "size M = satisfied as cs"
      using 3(1) by blast
    then show ?thesis using True by (intro exI [of _ "add_mset (a, c) M"]) (simp add: assignment_def)
  next
    case False
    then obtain M where "assignment (mset (a # as)) (mset cs) M" "size M = satisfied (a # as) cs"
      using 3(2) by blast
    then show ?thesis using False by (intro exI [of _ M]) (simp add: assignment_def subset_mset_add)
  qed
qed

text \<open>
  The exchange step: an assignment over one more appetite and one more cookie, the smallest, loses at
  most one pair when both are withdrawn.
\<close>

lemma split_pair:
  assumes "image_mset f M \<subseteq># add_mset a A"
  obtains (unused) "image_mset f M \<subseteq># A" | (used) p M' where "M = add_mset p M'" "f p = a"
    "image_mset f M' \<subseteq># A"
proof (cases "a \<in># image_mset f M")
  case True
  then obtain p where p: "p \<in># M" "f p = a" by auto
  then obtain M' where M': "M = add_mset p M'" by (meson multi_member_split)
  then show ?thesis using assms p used by simp
next
  case False
  then show ?thesis using assms unused subset_mset_without by metis
qed

lemma assignment_exchange:
  assumes M: "assignment (add_mset a A) (add_mset c C) M" and least: "\<forall>y \<in># C. c \<le> y"
  shows "\<exists>M'. assignment A C M' \<and> size M \<le> Suc (size M')"
proof -
  have fst: "image_mset fst M \<subseteq># add_mset a A" and snd: "image_mset snd M \<subseteq># add_mset c C"
    and good: "\<forall>p \<in># M. fst p \<le> snd p"
    using M by (simp_all add: assignment_def)
  from fst show ?thesis
  proof (cases rule: split_pair)
    case unused
    from snd show ?thesis
    proof (cases rule: split_pair)
      case unused': unused
      then show ?thesis using unused good by (auto simp: assignment_def)
    next
      case (used p M')
      then have "image_mset fst M' \<subseteq># A"
        using unused by (metis image_mset_add_mset mset_subset_eq_insertD subset_mset.less_imp_le)
      then show ?thesis using used good by (intro exI [of _ M']) (simp add: assignment_def)
    qed
  next
    case (used p M1)
    then have "image_mset snd M1 \<subseteq># add_mset c C" and both: "add_mset (snd p) (image_mset snd M1) \<subseteq># add_mset c C"
      using snd by (simp_all, metis mset_subset_eq_insertD subset_mset.less_imp_le)
    then show ?thesis
    proof (cases rule: split_pair)
      case unused
      then show ?thesis using used good by (intro exI [of _ M1]) (simp add: assignment_def)
    next
      case (used q M2)
      have sub: "add_mset (snd p) (image_mset snd M2) \<subseteq># C"
        using both used by (simp add: add_mset_commute)
      then have "snd p \<in># C" by (metis mset_subset_eqD union_single_eq_member)
      then have "fst q \<le> snd p" using least good used \<open>M = add_mset p M1\<close> by fastforce
      then show ?thesis
        using sub used good \<open>M = add_mset p M1\<close> \<open>image_mset fst M1 \<subseteq># A\<close>
        by (intro exI [of _ "add_mset (fst q, snd p) M2"]) (simp add: assignment_def)
    qed
  qed
qed

lemma satisfied_optimal:
  assumes "sorted as" "sorted cs" "assignment (mset as) (mset cs) M"
  shows "size M \<le> satisfied as cs"
  using assms
proof (induction as cs arbitrary: M rule: satisfied.induct)
  case (1 as)
  then show ?case by (simp add: assignment_def)
next
  case (2 c cs)
  then show ?case by (simp add: assignment_def)
next
  case (3 a as c cs)
  show ?case
  proof (cases "a \<le> c")
    case True
    obtain M' where "assignment (mset as) (mset cs) M'" "size M \<le> Suc (size M')"
      using assignment_exchange [of a "mset as" c "mset cs" M] 3(4,5) by auto
    then show ?thesis using 3(1) [OF True, of M'] 3(3,4) True by simp
  next
    case False
    have "c \<notin># image_mset snd M"
    proof
      assume "c \<in># image_mset snd M"
      then obtain p where p: "p \<in># M" "snd p = c" by auto
      then have "fst p \<in># mset (a # as)"
        using 3(5) mset_subset_eqD [of "image_mset fst M" "mset (a # as)" "fst p"]
        by (simp add: assignment_def)
      then have "a \<le> fst p" using 3(3) by auto
      then show False using p 3(5) False by (auto simp: assignment_def)
    qed
    then have "assignment (mset (a # as)) (mset cs) M"
      using 3(5) subset_mset_without [of "image_mset snd M" c "mset cs"] by (simp add: assignment_def)
    then show ?thesis using 3(2) [OF False, of M] 3(3,4) False by simp
  qed
qed

text \<open>
  The expected answers of the assign-cookies tests are optimal: the printed number of children can
  be satisfied by some assignment of cookies, and no assignment satisfies more.
\<close>

lemma children_satisfied_optimal:
  "(\<exists>M. assignment (mset appetites) (mset cookies) M \<and> size M = children_satisfied appetites cookies)
   \<and> {M. assignment (mset appetites) (mset cookies) M
        \<and> children_satisfied appetites cookies < size M} = {}"
proof -
  have n: "children_satisfied appetites cookies = satisfied (sort appetites) (sort cookies)"
    by (simp add: children_satisfied_def cookie_loop_satisfied)
  have "size M \<le> satisfied (sort appetites) (sort cookies)"
    if "assignment (mset appetites) (mset cookies) M" for M
    using satisfied_optimal [of "sort appetites" "sort cookies" M] that by simp
  then show ?thesis
    using satisfied_assignment [of "sort appetites" "sort cookies"] unfolding n
    by (auto simp: not_less)
qed

section \<open>Arrows are minimal\<close>

definition hits :: "int set \<Rightarrow> (int \<times> int) list \<Rightarrow> bool" where
  "hits P bs \<longleftrightarrow> (\<forall>(s, e) \<in> set bs. \<exists>p \<in> P. s \<le> p \<and> p \<le> e)"

text \<open>The arrows after the first, and where the greedy strategy shoots them.\<close>

fun shots :: "(int \<times> int) list \<Rightarrow> int \<Rightarrow> int list" where
  "shots [] position = []"
| "shots ((s, e) # bs) position = (if s > position then e # shots bs e else shots bs position)"

lemma arrow_loop_shots: "0 < n \<Longrightarrow> arrow_loop bs n p = n + length (shots bs p)"
  by (induction bs n p rule: arrow_loop.induct) auto

lemma shots_hit:
  assumes "sorted (map snd bs)" "\<forall>b \<in> set bs. position \<le> snd b" "\<forall>b \<in> set bs. fst b \<le> snd b"
  shows "hits (insert position (set (shots bs position))) bs"
  using assms by (induction bs position rule: shots.induct) (fastforce simp: hits_def)+

lemma shots_minimal:
  assumes "finite P" "hits P bs"
  shows "length (shots bs position) \<le> card {p \<in> P. position < p}"
  using assms(2)
proof (induction bs position rule: shots.induct)
  case (2 s e bs position)
  show ?case
  proof (cases "s > position")
    case True
    obtain p where p: "p \<in> P" "s \<le> p" "p \<le> e" using 2(3) by (auto simp: hits_def)
    have "Suc (card {q \<in> P. e < q}) = card (insert p {q \<in> P. e < q})"
      using p assms(1) by simp
    also have "\<dots> \<le> card {q \<in> P. position < q}"
      using p True assms(1) by (intro card_mono) auto
    finally show ?thesis using 2(1) [OF True] 2(3) True by (simp add: hits_def)
  next
    case False
    then show ?thesis using 2 by (simp add: hits_def)
  qed
qed simp

text \<open>
  C34: The expected answers of the minimum-arrows tests are minimal: the printed number of arrows
  suffices to burst every balloon, and every finite set of arrows that does has at least that many.
\<close>

theorem arrows_needed_minimal:
  assumes "\<forall>b \<in> set bs. fst b \<le> snd b"
  shows "(\<exists>P. finite P \<and> hits P bs \<and> card P \<le> arrows_needed bs)
    \<and> (\<forall>P. finite P \<longrightarrow> hits P bs \<longrightarrow> arrows_needed bs \<le> card P)"
proof (cases "by_end bs")
  case Nil
  then have "bs = []" using by_end_facts(1) [of bs] by simp
  then have "arrows_needed bs = 0" "hits {} bs" by (simp_all add: arrows_needed_def by_end_def hits_def)
  then show ?thesis by (metis card.empty finite.emptyI le0)
next
  case (Cons b xs)
  obtain s e where b: "b = (s, e)" by fastforce
  have n: "arrows_needed bs = Suc (length (shots xs e))"
    by (simp add: arrows_needed_def Cons b arrow_loop_shots)
  have set: "set bs = insert (s, e) (set xs)" using by_end_facts(2) [of bs] Cons b by simp
  have sorted: "sorted (map snd xs)" "\<forall>x \<in> set xs. e \<le> snd x"
    using by_end_facts(3) [of bs] Cons b by auto
  let ?P = "insert e (set (shots xs e))"
  have "hits ?P xs" using shots_hit [OF sorted] assms set by simp
  then have "hits ?P bs" using assms set by (auto simp: hits_def)
  moreover have "card ?P \<le> arrows_needed bs"
    using card_length [of "e # shots xs e"] by (simp add: n)
  moreover have "arrows_needed bs \<le> card P" if P: "finite P" "hits P bs" for P
  proof -
    obtain p where p: "p \<in> P" "s \<le> p" "p \<le> e" using P(2) set by (auto simp: hits_def)
    have "hits P xs" using P(2) set by (auto simp: hits_def)
    then have "Suc (length (shots xs e)) \<le> Suc (card {q \<in> P. e < q})"
      using shots_minimal [OF P(1)] by simp
    also have "\<dots> = card (insert p {q \<in> P. e < q})" using p P(1) by simp
    also have "\<dots> \<le> card P" using p P(1) by (intro card_mono) auto
    finally show ?thesis by (simp add: n)
  qed
  ultimately show ?thesis by (intro conjI exI [of _ ?P]) simp_all
qed

theorem arrows_needed_minimal_witness:
  "(\<exists>P. finite P \<and> hits P [(10, 16), (2, 8), (1, 6), (7, 12)]
      \<and> card P \<le> arrows_needed [(10, 16), (2, 8), (1, 6), (7, 12)])
   \<and> arrows_needed [(10, 16), (2, 8), (1, 6), (7, 12)] \<le> card {6, 12 :: int}"
proof -
  let ?bs = "[(10, 16), (2, 8), (1, 6), (7, 12)] :: (int \<times> int) list"
  have "\<forall>b \<in> set ?bs. fst b \<le> snd b" by simp
  note minimal = arrows_needed_minimal [OF this]
  have "hits {6, 12} ?bs" by (simp add: hits_def)
  then have "arrows_needed ?bs \<le> card {6, 12 :: int}" using minimal by (meson finite.emptyI finite_insert)
  then show ?thesis using minimal by (intro conjI) (elim conjE)
qed

section \<open>Counting answers are exact\<close>

lemma entry_increment: "entry (increment k m) j = (if j = k then Suc (entry m k) else entry m j)"
  by (simp add: entry_def increment_def update_conv')

lemma entry_fold: "entry (fold increment vs m) k = entry m k + count_list vs k"
  by (induction vs arbitrary: m) (auto simp: entry_increment)

text \<open>The distinct-values answer is the number of different values in the input.\<close>

lemma distinct_count_correct: "distinct_count vs = card (set vs)"
proof -
  have keys: "distinct (map fst (fold (\<lambda>v m. AList.update v True m) vs m))
      \<and> fst ` set (fold (\<lambda>v m. AList.update v True m) vs m) = set vs \<union> fst ` set m"
    if "distinct (map fst m)" for m :: "(int \<times> bool) list"
    using that
    by (induction vs arbitrary: m) (auto simp: distinct_update dom_update image_iff)
  have "length (fold (\<lambda>v m. AList.update v True m) vs []) = card (set vs)"
    using keys [of "[]"] distinct_card [of "map fst (fold (\<lambda>v m. AList.update v True m) vs [])"]
    by simp
  then show ?thesis by (simp add: distinct_count_def)
qed

text \<open>
  The first-unique answer is the first value, in input order, that occurs exactly once, and -1
  when no value does.
\<close>

lemma first_unique_correct:
  "if \<exists>v \<in> set vs. count_list vs v = 1
   then \<exists>us ws. vs = us @ first_unique vs # ws \<and> count_list vs (first_unique vs) = 1
          \<and> {u \<in> set us. count_list vs u = 1} = {}
   else first_unique vs = - 1"
proof -
  have counts: "entry (fold increment vs []) v = count_list vs v" for v
    by (simp add: entry_fold entry_def [of "[]"])
  show ?thesis
  proof (cases "List.find (\<lambda>v. count_list vs v = 1) vs")
    case None
    then have "first_unique vs = - 1" by (simp add: first_unique_def counts)
    then show ?thesis using None by (auto simp: find_None_iff)
  next
    case (Some v)
    then have v: "first_unique vs = v" by (simp add: first_unique_def counts)
    obtain us ws where split: "vs = us @ v # ws" "count_list vs v = 1"
      "\<forall>u \<in> set us. count_list vs u \<noteq> 1"
      using find_first [OF Some] by blast
    then have "\<exists>v \<in> set vs. count_list vs v = 1" by (intro bexI [of _ v]) simp_all
    moreover have "{u \<in> set us. count_list vs u = 1} = {}" using split(3) by blast
    ultimately show ?thesis using split(1,2) unfolding v by (simp only: if_True) blast
  qed
qed

text \<open>
  The pairs counted by the loop once the first \<open>length pre\<close> values have been seen.
\<close>

definition pairs_from :: "int \<Rightarrow> int list \<Rightarrow> nat \<Rightarrow> (nat \<times> nat) set" where
  "pairs_from target vs m = {(i, j). i < j \<and> m \<le> j \<and> j < length vs \<and> vs ! i + vs ! j = target}"

lemma finite_pairs_from [simp]: "finite (pairs_from target vs m)"
  by (rule finite_subset [of _ "{..<length vs} \<times> {..<length vs}"]) (auto simp: pairs_from_def)

lemma card_count_list: "card {i. i < length xs \<and> xs ! i = v} = count_list xs v"
proof -
  have "count_list xs v = length (filter (\<lambda>x. x = v) xs)"
    by (induction xs) auto
  then show ?thesis by (simp add: length_filter_conv_card)
qed

lemma pairs_from_step:
  "card (pairs_from target (pre @ v # vs) (length pre))
    = count_list pre (target - v) + card (pairs_from target (pre @ v # vs) (Suc (length pre)))"
proof -
  let ?ws = "pre @ v # vs" and ?m = "length pre"
  let ?new = "(\<lambda>i. (i, ?m)) ` {i. i < length pre \<and> pre ! i = target - v}"
  have "pairs_from target ?ws ?m = ?new \<union> pairs_from target ?ws (Suc ?m)"
    by (auto simp: pairs_from_def nth_append le_eq_less_or_eq)
  moreover have "?new \<inter> pairs_from target ?ws (Suc ?m) = {}" by (auto simp: pairs_from_def)
  moreover have "card ?new = count_list pre (target - v)"
    by (subst card_image) (auto simp: card_count_list inj_on_def)
  ultimately show ?thesis by (simp add: card_Un_disjoint)
qed

lemma pair_loop_counts:
  assumes "\<forall>k. entry seen k = count_list pre k"
  shows "pair_loop target vs seen n = n + card (pairs_from target (pre @ vs) (length pre))"
  using assms
proof (induction vs arbitrary: pre seen n)
  case Nil
  have "pairs_from target pre (length pre) = {}" by (auto simp: pairs_from_def)
  then show ?case by simp
next
  case (Cons v vs)
  have "\<forall>k. entry (increment v seen) k = count_list (pre @ [v]) k"
    using Cons.prems by (simp add: entry_increment count_list_append)
  from Cons.IH [OF this] show ?case
    using Cons.prems by (simp add: pairs_from_step)
qed

text \<open>
  The pair-sum answer is the number of index pairs i < j whose values sum to the target, equal
  values at different indices counted separately.
\<close>

lemma pair_sum_correct:
  "pair_sum vs target = card {(i, j). i < j \<and> j < length vs \<and> vs ! i + vs ! j = target}"
  using pair_loop_counts [of "[]" "[]" target vs 0]
  by (simp add: pair_sum_def entry_def pairs_from_def)

end
