(* ===== verification/Catalog.thy ===== *)
theory Catalog
  imports Case_Generators
begin

text \<open>
  The seed problems of \<^verbatim>\<open>backend/src/problem.cpp\<close>
  (\<^verbatim>\<open>make_a_plus_b\<close> to \<^verbatim>\<open>make_pair_sum_count\<close>,
  \<^verbatim>\<open>default_problems\<close>), with the generated inputs written out as the code builds them.
\<close>

section \<open>The problems\<close>

text \<open>Text made of lines that each end in a line feed.\<close>

definition lines :: "string list \<Rightarrow> string" where
  "lines ls = concat (map (\<lambda>l. l @ [newline]) ls)"

definition example :: "string list \<Rightarrow> string list \<Rightarrow> problem_example" where
  "example input output = \<lparr>ex_input = lines input, ex_output = lines output\<rparr>"

definition a_plus_b_data :: "(string \<times> string) list" where
  "a_plus_b_data = map (\<lambda>(input, output). (lines [input], lines [output]))
     [(''2 3'', ''5''), (''0 0'', ''0''), (''-7 -5'', ''-12''),
      (''1000000000 2000000000'', ''3000000000''), (''-1 1'', ''0''), (''42 58'', ''100''),
      (''-100 40'', ''-60''), (''9 10'', ''19''), (''999999999 -999999999'', ''0''),
      (''-2000000000 -2000000000'', ''-4000000000'')]"

definition make_a_plus_b :: problem where
  "make_a_plus_b =
     \<lparr>pb_id = ''a-plus-b'', pb_title = ''A + B'',
      pb_description = ''Read two integers, a and b, and print their sum.'',
      pb_input_format = ''One line containing two integers separated by a space.'',
      pb_output_format = ''Print one integer: a + b.'',
      pb_difficulty = easy, pb_tags = [''math'', ''implementation''],
      pb_languages = [''python'', ''cpp''], pb_examples = [example [''2 3''] [''5'']],
      pb_enabled = True, pb_revision = 1,
      pb_hidden_tests = map (\<lambda>(input, output). test_case input output) a_plus_b_data\<rparr>"

definition merge_sort_inputs :: "int list list" where
  "merge_sort_inputs =
     [[5], [2, 1], [1, 2, 3, 4, 5], [5, 4, 3, 2, 1], [4, 1, 3, 2, 2], [0, -1, 8, -1, 3, 0],
      [1000000000, -1000000000, 7, 7, 6], repeated_values 1000 1 42, repeated_values 4096 97 (-48),
      rev (repeated_values 30000 10 0)]"

definition make_merge_sort :: problem where
  "make_merge_sort =
     \<lparr>pb_id = ''merge-sort'', pb_title = ''Merge Sort'',
      pb_description = ''Sort the array in nondecreasing order. Implement an O(n log n) merge-sort ''
        @ ''solution; quadratic sorting is too slow for the largest test.'',
      pb_input_format = ''The first line contains n (1 <= n <= 30000). The second line contains n ''
        @ ''integers in the range [-10^9, 10^9].'',
      pb_output_format = ''Print the n integers in nondecreasing order, separated by spaces.'',
      pb_difficulty = medium,
      pb_tags = [''sorting'', ''merge-sort'', ''divide-and-conquer'', ''arrays''],
      pb_languages = [''python'', ''cpp''],
      pb_examples = [example [''5'', ''4 1 3 2 2''] [''1 2 2 3 4'']],
      pb_enabled = True, pb_revision = 1, pb_hidden_tests = map sort_case merge_sort_inputs\<rparr>"

definition activity_inputs :: "(int \<times> int) list list" where
  "activity_inputs =
     [[(1, 2)], [(1, 3), (2, 4)], [(1, 3), (3, 5), (5, 8)], [(1, 10), (2, 3), (3, 4), (4, 5)],
      [(-5, -2), (-2, 0), (-1, 2)], [(7, 8), (1, 3), (4, 7), (2, 5)],
      [(0, 100), (1, 2), (2, 3), (3, 4), (4, 5)], [(1, 4), (1, 2), (2, 4), (4, 6), (5, 7)],
      [(3, 9), (0, 6), (5, 7), (8, 9), (1, 2), (2, 3)],
      map (\<lambda>k. (int (k mod 20000), int (k mod 20000) + 1 + int (k mod 17))) [0..<40000]]"

definition make_activity_selection :: problem where
  "make_activity_selection =
     \<lparr>pb_id = ''activity-selection'', pb_title = ''Activity Selection'',
      pb_description = ''Choose the maximum number of non-overlapping activities. An activity ending ''
        @ ''when another starts does not overlap it.'',
      pb_input_format = ''The first line contains n (1 <= n <= 40000). Each of the next n lines ''
        @ ''contains start and end, where start < end.'',
      pb_output_format = ''Print the maximum number of activities that can be selected.'',
      pb_difficulty = medium, pb_tags = [''greedy'', ''sorting'', ''intervals''],
      pb_languages = [''python'', ''cpp''],
      pb_examples = [example [''4'', ''1 3'', ''2 5'', ''4 7'', ''7 8''] [''3'']],
      pb_enabled = True, pb_revision = 1, pb_hidden_tests = map activity_case activity_inputs\<rparr>"

definition cookie_inputs :: "(int list \<times> int list) list" where
  "cookie_inputs =
     [([], []), ([1], []), ([], [1]), ([1, 2, 3], [1, 2]), ([5, 5], [4, 6]), ([3, 1, 2], [2, 3, 1]),
      ([10], [1, 2, 3, 10]), ([1, 1, 1, 1], [1, 1]),
      (repeated_values 2000 100 1, repeated_values 1500 120 1),
      (repeated_values 50000 1000 1, rev (repeated_values 50000 1200 1))]"

definition make_assign_cookies :: problem where
  "make_assign_cookies =
     \<lparr>pb_id = ''assign-cookies'', pb_title = ''Assign Cookies'',
      pb_description = ''Each child has an appetite and each cookie has a size. A child is satisfied ''
        @ ''by one cookie whose size is at least the appetite. Maximize satisfied children.'',
      pb_input_format = ''The first line contains n and m (0 <= n,m <= 50000). The next line has n ''
        @ ''appetites and the last line has m cookie sizes.'',
      pb_output_format = ''Print the maximum number of children that can be satisfied.'',
      pb_difficulty = easy, pb_tags = [''greedy'', ''sorting'', ''two-pointers''],
      pb_languages = [''python'', ''cpp''],
      pb_examples = [example [''3 2'', ''1 2 3'', ''1 2''] [''2'']],
      pb_enabled = True, pb_revision = 1,
      pb_hidden_tests = map (\<lambda>(appetites, cookies). cookie_case appetites cookies) cookie_inputs\<rparr>"

definition arrow_inputs :: "(int \<times> int) list list" where
  "arrow_inputs =
     [[(1, 2)], [(1, 2), (3, 4)], [(1, 2), (2, 3)], [(1, 10), (2, 9), (3, 8)],
      [(-10, -5), (-7, 0), (1, 2)], [(10, 16), (2, 8), (1, 6), (7, 12)],
      [(1, 2), (4, 5), (7, 8), (2, 7)], [(0, 0), (0, 1), (1, 1)],
      [(-1000000000, 1000000000), (0, 0)],
      map (\<lambda>k. (int k * 2, int k * 2 + 3)) [0..<50000]]"

definition make_minimum_arrows :: problem where
  "make_minimum_arrows =
     \<lparr>pb_id = ''minimum-arrows'', pb_title = ''Minimum Arrows for Balloons'',
      pb_description = ''Each balloon occupies a closed interval. One arrow shot at coordinate x ''
        @ ''bursts every interval containing x. Find the minimum number of arrows.'',
      pb_input_format = ''The first line contains n (1 <= n <= 50000). Each following line contains ''
        @ ''the inclusive left and right endpoints of one balloon.'',
      pb_output_format = ''Print the minimum number of arrows needed.'',
      pb_difficulty = medium, pb_tags = [''greedy'', ''sorting'', ''intervals''],
      pb_languages = [''python'', ''cpp''],
      pb_examples = [example [''4'', ''10 16'', ''2 8'', ''1 6'', ''7 12''] [''2'']],
      pb_enabled = True, pb_revision = 1, pb_hidden_tests = map arrows_case arrow_inputs\<rparr>"

definition distinct_inputs :: "int list list" where
  "distinct_inputs =
     [[1], [1, 1, 1], [1, 2, 3], [-1, 0, 1, -1], [1000000000, -1000000000], [5, 4, 5, 4, 3, 2, 1],
      repeated_values 1000 7 0, repeated_values 10000 997 (-498), repeated_values 50000 25000 0,
      repeated_values 100000 60001 (-30000)]"

definition make_distinct_values :: problem where
  "make_distinct_values =
     \<lparr>pb_id = ''distinct-values'', pb_title = ''Count Distinct Values'',
      pb_description = ''Count how many different integer values occur in the array.'',
      pb_input_format = ''The first line contains n (1 <= n <= 100000). The second line contains n ''
        @ ''integers.'',
      pb_output_format = ''Print the number of distinct values.'',
      pb_difficulty = easy, pb_tags = [''hash-table'', ''set'', ''arrays''],
      pb_languages = [''python'', ''cpp''],
      pb_examples = [example [''6'', ''1 2 2 3 1 4''] [''4'']],
      pb_enabled = True, pb_revision = 1, pb_hidden_tests = map distinct_case distinct_inputs\<rparr>"

text \<open>The large input of first-unique: one value inserted in front of position 45000.\<close>

definition first_unique_inputs :: "int list list" where
  "first_unique_inputs =
     (let large = repeated_values 60000 29999 0
      in [[1], [1, 1], [1, 2, 2], [2, 2, 1], [4, 5, 4, 6, 5, 7], [-1, 0, -1, 2, 0], [3, 3, 2, 2, 1],
          repeated_values 1000 500 0, [1000000000, -1000000000, 1000000000],
          take 45000 large @ [1000000000] @ drop 45000 large])"

definition make_first_unique :: problem where
  "make_first_unique =
     \<lparr>pb_id = ''first-unique'', pb_title = ''First Unique Value'',
      pb_description = ''Find the first array value, in input order, that occurs exactly once.'',
      pb_input_format = ''The first line contains n (1 <= n <= 60001). The second line contains n ''
        @ ''integers.'',
      pb_output_format = ''Print the first value occurring once, or -1 if no such value exists.'',
      pb_difficulty = easy, pb_tags = [''hash-table'', ''frequency'', ''arrays''],
      pb_languages = [''python'', ''cpp''],
      pb_examples = [example [''6'', ''4 5 4 6 5 7''] [''6'']],
      pb_enabled = True, pb_revision = 1, pb_hidden_tests = map first_unique_case first_unique_inputs\<rparr>"

definition pair_sum_inputs :: "(int list \<times> int) list" where
  "pair_sum_inputs =
     [([1], 2), ([1, 1], 2), ([1, 2, 3], 4), ([1, 5, 3, 3, 5], 6), ([-1, 1, 0, 0], 0),
      ([5, 5, 5, 5], 10), ([1, 2, 3, 4, 5], 100), (repeated_values 1000 10 0, 9),
      (repeated_values 20000 101 (-50), 0), (repeated_values 100000 2001 (-1000), 0)]"

definition make_pair_sum_count :: problem where
  "make_pair_sum_count =
     \<lparr>pb_id = ''pair-sum-count'', pb_title = ''Count Pairs With a Given Sum'',
      pb_description = ''Count index pairs (i, j) with i < j whose values sum to the target. Equal ''
        @ ''values at different indices form different pairs.'',
      pb_input_format = ''The first line contains n and target (1 <= n <= 100000). The second line ''
        @ ''contains n integers.'',
      pb_output_format =
        ''Print the number of valid index pairs. The answer fits in a signed 64-bit integer.'',
      pb_difficulty = medium, pb_tags = [''hash-table'', ''frequency'', ''two-sum'', ''counting''],
      pb_languages = [''python'', ''cpp''],
      pb_examples = [example [''5 6'', ''1 5 3 3 5''] [''4'']],
      pb_enabled = True, pb_revision = 1,
      pb_hidden_tests = map (\<lambda>(values, target). pair_sum_case values target) pair_sum_inputs\<rparr>"

definition default_problems :: "problem list" where
  "default_problems = [make_a_plus_b, make_merge_sort, make_activity_selection, make_assign_cookies,
     make_minimum_arrows, make_distinct_values, make_first_unique, make_pair_sum_count]"

lemmas catalog_defs = default_problems_def make_a_plus_b_def make_merge_sort_def
  make_activity_selection_def make_assign_cookies_def make_minimum_arrows_def
  make_distinct_values_def make_first_unique_def make_pair_sum_count_def

lemmas catalog_inputs = a_plus_b_data_def merge_sort_inputs_def activity_inputs_def cookie_inputs_def
  arrow_inputs_def distinct_inputs_def first_unique_inputs_def pair_sum_inputs_def

lemma default_ids_no_nul: "p \<in> set default_problems \<Longrightarrow> nul \<notin> set (pb_id p)"
  by (auto simp: catalog_defs Let_def)

section \<open>The catalog is well formed\<close>

text \<open>
  The seed catalog has eight problems with different identifiers; each is enabled at revision 1,
  can be solved in Python and C++, and has ten hidden tests.
\<close>

lemma default_problems_well_formed:
  "length default_problems = 8 \<and> distinct (map pb_id default_problems)
   \<and> list_all (\<lambda>p. pb_enabled p \<and> pb_revision p = 1 \<and> pb_languages p = [''python'', ''cpp'']
        \<and> length (pb_hidden_tests p) = 10 \<and> length (pb_examples p) = 1) default_problems"
  by (simp add: catalog_defs catalog_inputs Let_def)

text \<open>A test case as a problem statement would show it.\<close>

definition shown :: "problem_test_case \<Rightarrow> problem_example list" where
  "shown t = [\<lparr>ex_input = tc_input t, ex_output = tc_expected_output t\<rparr>]"

text \<open>
  The examples shown for six of the seven generated problems are right: each is the input the
  generator prints for the data of the example, with the expected output.
\<close>

lemma default_examples_correct:
  "pb_examples make_merge_sort = shown (sort_case [4, 1, 3, 2, 2])
   \<and> pb_examples make_activity_selection = shown (activity_case [(1, 3), (2, 5), (4, 7), (7, 8)])
   \<and> pb_examples make_assign_cookies = shown (cookie_case [1, 2, 3] [1, 2])
   \<and> pb_examples make_minimum_arrows = shown (arrows_case [(10, 16), (2, 8), (1, 6), (7, 12)])
   \<and> pb_examples make_distinct_values = shown (distinct_case [1, 2, 2, 3, 1, 4])
   \<and> pb_examples make_first_unique = shown (first_unique_case [4, 5, 4, 6, 5, 7])"
  by (intro conjI; unfold catalog_defs problem.select_convs; code_simp)

text \<open>
  The example of pair-sum-count is wrong. It shows the input of one of the hidden tests with the
  output 4, while that test expects 3 (the pairs are 1 + 5 twice and 3 + 3 once).
\<close>

lemma pair_sum_example_contradicts_test:
  "\<exists>t \<in> set (pb_hidden_tests make_pair_sum_count).
     tc_input t = ex_input (hd (pb_examples make_pair_sum_count))
     \<and> tc_expected_output t = lines [''3'']
     \<and> ex_output (hd (pb_examples make_pair_sum_count)) = lines [''4'']"
proof
  show "pair_sum_case [1, 5, 3, 3, 5] 6 \<in> set (pb_hidden_tests make_pair_sum_count)"
    by (simp add: make_pair_sum_count_def pair_sum_inputs_def)
  have "pb_examples make_pair_sum_count = [example [''5 6'', ''1 5 3 3 5''] [''4'']]"
    by (simp add: make_pair_sum_count_def)
  moreover have "tc_input (pair_sum_case [1, 5, 3, 3, 5] 6)
      = ex_input (example [''5 6'', ''1 5 3 3 5''] [''4''])
    \<and> tc_expected_output (pair_sum_case [1, 5, 3, 3, 5] 6) = lines [''3'']
    \<and> ex_output (example [''5 6'', ''1 5 3 3 5''] [''4'']) = lines [''4'']"
    by code_simp
  ultimately show "tc_input (pair_sum_case [1, 5, 3, 3, 5] 6)
      = ex_input (hd (pb_examples make_pair_sum_count))
    \<and> tc_expected_output (pair_sum_case [1, 5, 3, 3, 5] 6) = lines [''3'']
    \<and> ex_output (hd (pb_examples make_pair_sum_count)) = lines [''4'']" by simp
qed

lemma digit_chars:
  "digit_char 0 = CHR ''0''" "digit_char (Suc 0) = CHR ''1''" "digit_char 2 = CHR ''2''"
  "digit_char 3 = CHR ''3''" "digit_char 4 = CHR ''4''" "digit_char 5 = CHR ''5''"
  "digit_char 6 = CHR ''6''" "digit_char 7 = CHR ''7''" "digit_char 8 = CHR ''8''"
  "digit_char 9 = CHR ''9''"
  by code_simp+

text \<open>
  Every hidden test of A + B is right: its input is two integers and its output their sum.
\<close>

lemma a_plus_b_tests_correct:
  "\<exists>ps :: (int \<times> int) list. pb_hidden_tests make_a_plus_b
     = map (\<lambda>(a, b). test_case (to_string a @ '' '' @ to_string b @ [newline]) (answer_line (a + b))) ps"
proof (rule exI)
  let ?ps = "[(2, 3), (0, 0), (-7, -5), (1000000000, 2000000000), (-1, 1), (42, 58), (-100, 40),
    (9, 10), (999999999, -999999999), (-2000000000, -2000000000)] :: (int \<times> int) list"
  show "pb_hidden_tests make_a_plus_b
     = map (\<lambda>(a, b). test_case (to_string a @ '' '' @ to_string b @ [newline]) (answer_line (a + b))) ?ps"
    by (simp add: make_a_plus_b_def a_plus_b_data_def lines_def answer_line_def to_string_def
        to_string_nat.simps digit_chars)
qed

section \<open>The hidden tests respect the stated bounds\<close>

lemma length_repeated_values [simp]: "length (repeated_values n m offset) = n"
  by (simp add: repeated_values_def)

lemma repeated_values_range:
  "0 < m \<Longrightarrow> v \<in> set (repeated_values n m offset) \<Longrightarrow> offset \<le> v \<and> v < offset + int m"
  by (auto simp: repeated_values_def)

lemma merge_sort_in_bounds:
  "\<forall>vs \<in> set merge_sort_inputs. 1 \<le> length vs \<and> length vs \<le> 30000
     \<and> (\<forall>v \<in> set vs. - (10 ^ 9) \<le> v \<and> v \<le> 10 ^ 9)"
  by (auto simp: merge_sort_inputs_def dest: repeated_values_range [rotated])

lemma activity_in_bounds:
  "\<forall>is \<in> set activity_inputs. 1 \<le> length is \<and> length is \<le> 40000
     \<and> (\<forall>i \<in> set is. fst i < snd i \<and> - (2 ^ 63) \<le> fst i)"
  by (auto simp: activity_inputs_def)

lemma cookies_in_bounds:
  "\<forall>c \<in> set cookie_inputs. length (fst c) \<le> 50000 \<and> length (snd c) \<le> 50000"
  by (simp add: cookie_inputs_def)

lemma arrows_in_bounds:
  "\<forall>bs \<in> set arrow_inputs. 1 \<le> length bs \<and> length bs \<le> 50000 \<and> (\<forall>b \<in> set bs. fst b \<le> snd b)"
  by (auto simp: arrow_inputs_def)

lemma others_in_bounds:
  "\<forall>vs \<in> set distinct_inputs. 1 \<le> length vs \<and> length vs \<le> 100000"
  "\<forall>vs \<in> set first_unique_inputs. 1 \<le> length vs \<and> length vs \<le> 60001"
  "\<forall>c \<in> set pair_sum_inputs. 1 \<le> length (fst c) \<and> length (fst c) \<le> 100000"
  by (simp_all add: distinct_inputs_def first_unique_inputs_def pair_sum_inputs_def Let_def)

text \<open>
  Every generated hidden test stays within the input bounds its problem statement promises: sizes,
  the value range of merge-sort, start before end for activities, left before right for balloons.
\<close>

lemma hidden_tests_in_bounds:
  "pb_hidden_tests make_merge_sort \<in> lists (sort_case `
      {vs. 1 \<le> length vs \<and> length vs \<le> 30000 \<and> set vs \<subseteq> {- (10 ^ 9)..10 ^ 9}})
   \<and> pb_hidden_tests make_activity_selection \<in> lists (activity_case `
      {is. 1 \<le> length is \<and> length is \<le> 40000 \<and> set is \<subseteq> {(s, e). s < e}})
   \<and> pb_hidden_tests make_assign_cookies \<in> lists ((\<lambda>(as, cs). cookie_case as cs) `
      {(as, cs). length as \<le> 50000 \<and> length cs \<le> 50000})
   \<and> pb_hidden_tests make_minimum_arrows \<in> lists (arrows_case `
      {bs. 1 \<le> length bs \<and> length bs \<le> 50000 \<and> set bs \<subseteq> {(l, r). l \<le> r}})
   \<and> pb_hidden_tests make_distinct_values \<in> lists (distinct_case `
      {vs. 1 \<le> length vs \<and> length vs \<le> 100000})
   \<and> pb_hidden_tests make_first_unique \<in> lists (first_unique_case `
      {vs. 1 \<le> length vs \<and> length vs \<le> 60001})
   \<and> pb_hidden_tests make_pair_sum_count \<in> lists ((\<lambda>(vs, t). pair_sum_case vs t) `
      {(vs, t). 1 \<le> length vs \<and> length vs \<le> 100000})"
proof -
  have lists: "map f xs \<in> lists (f ` S)" if "\<forall>x \<in> set xs. x \<in> S"
    for f :: "'b \<Rightarrow> problem_test_case" and xs S
    using that by (auto simp: in_lists_conv_set)
  show ?thesis
    unfolding catalog_defs problem.select_convs
    using merge_sort_in_bounds activity_in_bounds cookies_in_bounds arrows_in_bounds others_in_bounds
    by (intro conjI lists) fastforce+
qed

section \<open>The hidden tests expect the right answers\<close>

text \<open>
  What a right test of each kind is, after the statement of the problem: the text of an input within
  the promised bounds, and the answer as the statement defines it.
\<close>

definition right_sum :: "problem_test_case \<Rightarrow> bool" where
  "right_sum t \<longleftrightarrow> (\<exists>a b. tc_input t = to_string a @ '' '' @ to_string b @ [newline]
     \<and> tc_expected_output t = to_string (a + b) @ [newline])"

definition right_sort :: "problem_test_case \<Rightarrow> bool" where
  "right_sort t \<longleftrightarrow> (\<exists>vs ws. 1 \<le> length vs \<and> length vs \<le> 30000 \<and> set vs \<subseteq> {- (10 ^ 9)..10 ^ 9}
     \<and> tc_input t = sized_values_input vs \<and> tc_expected_output t = values_line ws
     \<and> mset ws = mset vs \<and> sorted ws)"

definition right_cookies :: "problem_test_case \<Rightarrow> bool" where
  "right_cookies t \<longleftrightarrow> (\<exists>as cs M. length as \<le> 50000 \<and> length cs \<le> 50000
     \<and> tc_input t = to_string (int (length as)) @ '' '' @ to_string (int (length cs)) @ [newline]
         @ values_line as @ values_line cs
     \<and> tc_expected_output t = to_string (int (size M)) @ [newline] \<and> assignment (mset as) (mset cs) M
     \<and> {N. assignment (mset as) (mset cs) N \<and> size M < size N} = {})"

definition right_distinct :: "problem_test_case \<Rightarrow> bool" where
  "right_distinct t \<longleftrightarrow> (\<exists>vs. 1 \<le> length vs \<and> length vs \<le> 100000 \<and> tc_input t = sized_values_input vs
     \<and> tc_expected_output t = to_string (int (card (set vs))) @ [newline])"

definition right_first_unique :: "problem_test_case \<Rightarrow> bool" where
  "right_first_unique t \<longleftrightarrow> (\<exists>vs v. 1 \<le> length vs \<and> length vs \<le> 60001 \<and> tc_input t = sized_values_input vs
     \<and> tc_expected_output t = to_string v @ [newline]
     \<and> (if list_ex (\<lambda>u. count_list vs u = 1) vs
        then \<exists>us ws. vs = us @ v # ws \<and> count_list vs v = 1 \<and> list_all (\<lambda>u. count_list vs u \<noteq> 1) us
        else v = - 1))"

definition right_pair_sum :: "problem_test_case \<Rightarrow> bool" where
  "right_pair_sum t \<longleftrightarrow> (\<exists>vs target. 1 \<le> length vs \<and> length vs \<le> 100000
     \<and> tc_input t = to_string (int (length vs)) @ '' '' @ to_string target @ [newline] @ values_line vs
     \<and> tc_expected_output t
         = to_string (int (card {(i, j). i < j \<and> j < length vs \<and> vs ! i + vs ! j = target})) @ [newline])"

lemma right_sum_case: "right_sum (test_case (to_string a @ '' '' @ to_string b @ [newline]) (answer_line (a + b)))"
  unfolding right_sum_def test_case_def answer_line_def by auto

lemma right_sort_case:
  "1 \<le> length vs \<Longrightarrow> length vs \<le> 30000 \<Longrightarrow> set vs \<subseteq> {- (10 ^ 9)..10 ^ 9} \<Longrightarrow> right_sort (sort_case vs)"
  unfolding right_sort_def by (intro exI [of _ vs] exI [of _ "sort vs"]) (simp add: sort_case_def test_case_def)

lemma right_cookie_case:
  assumes "length as \<le> 50000" "length cs \<le> 50000"
  shows "right_cookies (cookie_case as cs)"
proof -
  obtain M where "assignment (mset as) (mset cs) M" "size M = children_satisfied as cs"
    "{N. assignment (mset as) (mset cs) N \<and> children_satisfied as cs < size N} = {}"
    using children_satisfied_optimal [of as cs] by blast
  with assms show ?thesis
    unfolding right_cookies_def
    by (intro exI [of _ as] exI [of _ cs] exI [of _ M]) (simp add: cookie_case_def test_case_def answer_line_def)
qed

lemma right_distinct_case: "1 \<le> length vs \<Longrightarrow> length vs \<le> 100000 \<Longrightarrow> right_distinct (distinct_case vs)"
  by (auto simp: right_distinct_def distinct_case_def test_case_def answer_line_def distinct_count_correct)

lemma right_first_unique_case:
  assumes "1 \<le> length vs" "length vs \<le> 60001"
  shows "right_first_unique (first_unique_case vs)"
proof -
  have "if list_ex (\<lambda>u. count_list vs u = 1) vs
    then \<exists>us ws. vs = us @ first_unique vs # ws \<and> count_list vs (first_unique vs) = 1
      \<and> list_all (\<lambda>u. count_list vs u \<noteq> 1) us
    else first_unique vs = - 1"
    using first_unique_correct [of vs] by (auto simp: list_all_iff list_ex_iff split: if_splits)
  then show ?thesis
    unfolding right_first_unique_def using assms
    by (intro exI [of _ vs] exI [of _ "first_unique vs"]) (simp add: first_unique_case_def test_case_def answer_line_def)
qed

lemma right_pair_sum_case: "1 \<le> length vs \<Longrightarrow> length vs \<le> 100000 \<Longrightarrow> right_pair_sum (pair_sum_case vs target)"
  unfolding right_pair_sum_def
  by (intro exI [of _ vs] exI [of _ target]) (simp add: pair_sum_case_def test_case_def answer_line_def pair_sum_correct)

text \<open>
  C40: The hidden tests of the built-in problems are right. There are ten for each problem, and for
  the six problems that are not on intervals each input is the text the statement describes, for data
  within the bounds it promises, and the expected output is the answer as the statement defines it:
  the sum; the same values in nondecreasing order; the size of a largest assignment of cookies; the
  number of different values; the first value that occurs once, or -1; the number of index pairs with
  the given sum.
\<close>

theorem default_tests_correct:
  "list_all (\<lambda>p. length (pb_hidden_tests p) = 10) default_problems
   \<and> list_all right_sum (pb_hidden_tests make_a_plus_b)
   \<and> list_all right_sort (pb_hidden_tests make_merge_sort)
   \<and> list_all right_cookies (pb_hidden_tests make_assign_cookies)
   \<and> list_all right_distinct (pb_hidden_tests make_distinct_values)
   \<and> list_all right_first_unique (pb_hidden_tests make_first_unique)
   \<and> list_all right_pair_sum (pb_hidden_tests make_pair_sum_count)"
proof (intro conjI)
  show "list_all (\<lambda>p. length (pb_hidden_tests p) = 10) default_problems"
    using default_problems_well_formed by (auto simp: list_all_iff)
  show "list_all right_sum (pb_hidden_tests make_a_plus_b)"
    using a_plus_b_tests_correct right_sum_case by (fastforce simp: list_all_iff)
  show "list_all right_sort (pb_hidden_tests make_merge_sort)"
    using merge_sort_in_bounds by (auto simp: make_merge_sort_def list_all_iff intro!: right_sort_case)
  show "list_all right_cookies (pb_hidden_tests make_assign_cookies)"
    using cookies_in_bounds by (fastforce simp: make_assign_cookies_def list_all_iff intro!: right_cookie_case)
  show "list_all right_distinct (pb_hidden_tests make_distinct_values)"
    using others_in_bounds(1) by (auto simp: make_distinct_values_def list_all_iff intro!: right_distinct_case)
  show "list_all right_first_unique (pb_hidden_tests make_first_unique)"
    using others_in_bounds(2) by (auto simp: make_first_unique_def list_all_iff intro!: right_first_unique_case)
  show "list_all right_pair_sum (pb_hidden_tests make_pair_sum_count)"
    using others_in_bounds(3) by (fastforce simp: make_pair_sum_count_def list_all_iff intro!: right_pair_sum_case)
qed

end
