(* ===== verification/Json_Api.thy ===== *)
theory Json_Api
  imports Core_Types
begin

text \<open>
  The JSON bodies of the HTTP interface: \<^verbatim>\<open>validate_submission\<close>
  (\<^verbatim>\<open>submission.cpp\<close>), the limits of \<^verbatim>\<open>admin-validation.h\<close>, the problem
  serializers of \<^verbatim>\<open>problem.cpp\<close>, and from \<^verbatim>\<open>main.cpp\<close> the submission
  serializers, \<^verbatim>\<open>positive_id\<close>, \<^verbatim>\<open>parse_admin_problem\<close> and
  \<^verbatim>\<open>parse_admin_test\<close>.

  JsonCpp is not part of the program: its values and functions are a record \<open>json_lib\<close>, an
  argument of the model. What the code relies on is \<open>json_laws\<close>, the documented behaviour of
  \<^verbatim>\<open>Json::Value\<close>: reading back a member that was set, an array that was built, a scalar
  that was stored. A function that indexes a value which is neither an object nor null raises.
\<close>

section \<open>The JSON library\<close>

record 'j json_lib =
  isNull :: "'j \<Rightarrow> bool"
  isObject :: "'j \<Rightarrow> bool"
  isArray :: "'j \<Rightarrow> bool"
  isString :: "'j \<Rightarrow> bool"
  isBool :: "'j \<Rightarrow> bool"
  isInt64 :: "'j \<Rightarrow> bool"
  isMember :: "'j \<Rightarrow> string \<Rightarrow> bool"
  member :: "'j \<Rightarrow> string \<Rightarrow> 'j"
  asString :: "'j \<Rightarrow> string"
  asBool :: "'j \<Rightarrow> bool"
  asInt64 :: "'j \<Rightarrow> int64"
  elements :: "'j \<Rightarrow> 'j list"
  nullValue :: 'j
  emptyArray :: 'j
  stringValue :: "string \<Rightarrow> 'j"
  boolValue :: "bool \<Rightarrow> 'j"
  int64Value :: "int64 \<Rightarrow> 'j"
  setMember :: "'j \<Rightarrow> string \<Rightarrow> 'j \<Rightarrow> 'j"
  appendElement :: "'j \<Rightarrow> 'j \<Rightarrow> 'j"

definition indexable :: "'j json_lib \<Rightarrow> 'j \<Rightarrow> bool" where
  "indexable J v \<longleftrightarrow> isObject J v \<or> isNull J v"

definition json_laws :: "'j json_lib \<Rightarrow> bool" where
  "json_laws J \<longleftrightarrow>
     isNull J (nullValue J) \<and>
     (\<forall>s. isString J (stringValue J s) \<and> asString J (stringValue J s) = s) \<and>
     (\<forall>b. isBool J (boolValue J b) \<and> asBool J (boolValue J b) = b) \<and>
     (\<forall>i. int64_range i \<longrightarrow> isInt64 J (int64Value J i) \<and> asInt64 J (int64Value J i) = i) \<and>
     isArray J (emptyArray J) \<and> elements J (emptyArray J) = [] \<and>
     (\<forall>a v. isArray J a \<longrightarrow> isArray J (appendElement J a v)
        \<and> elements J (appendElement J a v) = elements J a @ [v]) \<and>
     (\<forall>b k v. indexable J b \<longrightarrow> isObject J (setMember J b k v) \<and> isMember J (setMember J b k v) k
        \<and> (\<forall>l. member J (setMember J b k v) l = (if l = k then v else member J b l)))"

text \<open>\<^verbatim>\<open>Json::Value a{Json::arrayValue}; for (x : xs) a.append(f(x));\<close>\<close>

definition json_array :: "'j json_lib \<Rightarrow> 'j list \<Rightarrow> 'j" where
  "json_array J vs = foldl (appendElement J) (emptyArray J) vs"

text \<open>\<^verbatim>\<open>Json::Value o; o[k1] = v1; o[k2] = v2; \<dots>\<close>\<close>

definition json_object :: "'j json_lib \<Rightarrow> 'j \<Rightarrow> (string \<times> 'j) list \<Rightarrow> 'j" where
  "json_object J start kvs = foldl (\<lambda>b (k, v). setMember J b k v) start kvs"

section \<open>Validating a submission\<close>

definition maximum_code_size :: nat where
  "maximum_code_size = 64 * 1024"

definition validate_submission :: "'j json_lib \<Rightarrow> 'j \<Rightarrow> string + submission_request" where
  "validate_submission J json =
     (if \<not> isObject J json then Inl ''Request body must be a JSON object''
      else case List.find (\<lambda>field. \<not> isMember J json field \<or> \<not> isString J (member J json field))
             [''problemId'', ''language'', ''code''] of
          Some field \<Rightarrow> Inl (field @ '' must be a string'')
        | None \<Rightarrow>
          let request = \<lparr>rq_problem_id = asString J (member J json ''problemId''),
                 rq_language = asString J (member J json ''language''),
                 rq_code = asString J (member J json ''code''), rq_user_id = None\<rparr>
          in if rq_problem_id request = [] \<or> length (rq_problem_id request) > 128
             then Inl ''Unsupported problemId''
             else if rq_language request \<noteq> ''python'' \<and> rq_language request \<noteq> ''cpp''
             then Inl ''Unsupported language''
             else if rq_code request = [] then Inl ''code must not be empty''
             else if length (rq_code request) > maximum_code_size then Inl ''code is too large''
             else Inr request)"

section \<open>Limits of administrator input\<close>

definition maximum_problem_text_bytes :: nat where
  "maximum_problem_text_bytes = 64 * 1024"

definition maximum_hidden_test_bytes :: nat where
  "maximum_hidden_test_bytes = 1024 * 1024"

definition valid_problem_slug :: "string \<Rightarrow> bool" where
  "valid_problem_slug slug \<longleftrightarrow> slug \<noteq> [] \<and> length slug \<le> 80 \<and> hd slug \<noteq> CHR ''-''
     \<and> last slug \<noteq> CHR ''-'' \<and> list_all (\<lambda>c. islower c \<or> isdigit c \<or> c = CHR ''-'') slug"

definition valid_problem_text :: "string \<Rightarrow> bool" where
  "valid_problem_text t \<longleftrightarrow> length t \<le> maximum_problem_text_bytes"

definition valid_hidden_test_text :: "string \<Rightarrow> bool" where
  "valid_hidden_test_text t \<longleftrightarrow> length t \<le> maximum_hidden_test_bytes"

section \<open>Problems as JSON\<close>

definition problem_summary_to_json :: "'j json_lib \<Rightarrow> problem \<Rightarrow> 'j" where
  "problem_summary_to_json J p = json_object J (nullValue J)
     [(''id'', stringValue J (pb_id p)), (''title'', stringValue J (pb_title p)),
      (''difficulty'', stringValue J (difficulty_name (pb_difficulty p))),
      (''tags'', json_array J (map (stringValue J) (pb_tags p)))]"

definition example_to_json :: "'j json_lib \<Rightarrow> problem_example \<Rightarrow> 'j" where
  "example_to_json J x = json_object J (nullValue J)
     [(''input'', stringValue J (ex_input x)), (''output'', stringValue J (ex_output x))]"

definition problem_to_json :: "'j json_lib \<Rightarrow> problem \<Rightarrow> 'j" where
  "problem_to_json J p = json_object J (nullValue J)
     [(''id'', stringValue J (pb_id p)), (''title'', stringValue J (pb_title p)),
      (''description'', stringValue J (pb_description p)),
      (''inputFormat'', stringValue J (pb_input_format p)),
      (''outputFormat'', stringValue J (pb_output_format p)),
      (''difficulty'', stringValue J (difficulty_name (pb_difficulty p))),
      (''tags'', member J (problem_summary_to_json J p) ''tags''),
      (''languages'', json_array J (map (stringValue J) (pb_languages p))),
      (''examples'', json_array J (map (example_to_json J) (pb_examples p)))]"

definition admin_problem_test_to_json :: "'j json_lib \<Rightarrow> problem_test_case \<Rightarrow> 'j" where
  "admin_problem_test_to_json J t = json_object J (nullValue J)
     [(''id'', int64Value J (tc_id t)), (''input'', stringValue J (tc_input t)),
      (''expectedOutput'', stringValue J (tc_expected_output t)),
      (''position'', int64Value J (tc_position t)), (''enabled'', boolValue J (tc_enabled t)),
      (''revision'', int64Value J (tc_revision t))]"

definition admin_problem_to_json :: "'j json_lib \<Rightarrow> problem \<Rightarrow> 'j" where
  "admin_problem_to_json J p = json_object J (problem_to_json J p)
     [(''enabled'', boolValue J (pb_enabled p)), (''revision'', int64Value J (pb_revision p)),
      (''tests'', json_array J (map (admin_problem_test_to_json J) (pb_hidden_tests p)))]"

section \<open>Administrator input\<close>

definition positive_id :: "string \<Rightarrow> int64 option" where
  "positive_id raw = (case from_chars_int64 raw of
     Parsed i rest \<Rightarrow> if rest = [] \<and> i > 0 then Some i else None
   | _ \<Rightarrow> None)"

datatype 'a parse_outcome =
    Value 'a
  | Message string
  | Raises

fun parse_strings :: "'j json_lib \<Rightarrow> 'j list \<Rightarrow> string list option" where
  "parse_strings J [] = Some []"
| "parse_strings J (v # vs) = (if \<not> isString J v then None
     else map_option (\<lambda>ss. asString J v # ss) (parse_strings J vs))"

fun parse_examples :: "'j json_lib \<Rightarrow> 'j list \<Rightarrow> problem_example list option" where
  "parse_examples J [] = Some []"
| "parse_examples J (v # vs) =
     (if \<not> isObject J v \<or> \<not> isString J (member J v ''input'') \<or> \<not> isString J (member J v ''output'')
      then None
      else map_option (\<lambda>xs. \<lparr>ex_input = asString J (member J v ''input''),
             ex_output = asString J (member J v ''output'')\<rparr> # xs) (parse_examples J vs))"

definition parse_difficulty :: "string \<Rightarrow> problem_difficulty option" where
  "parse_difficulty d = (if d = ''Easy'' then Some easy else if d = ''Medium'' then Some medium
     else if d = ''Hard'' then Some hard else None)"

definition parse_admin_problem ::
    "'j json_lib \<Rightarrow> 'j \<Rightarrow> string option \<Rightarrow> problem parse_outcome" where
  "parse_admin_problem J json path_id =
     (let at = member J json; text = (\<lambda>k. asString J (at k));
          id = (case path_id of Some i \<Rightarrow> i | None \<Rightarrow> text ''id'')
      in if path_id = Some [] then Message ''Problem fields are invalid or incomplete''
      else if \<not> indexable J json then Raises
      else if path_id = None \<and> \<not> isString J (at ''id'') then Message ''Problem id must be a string''
      else if id = [] \<or> \<not> isString J (at ''title'') \<or> text ''title'' = []
        \<or> \<not> isString J (at ''description'') \<or> \<not> isString J (at ''inputFormat'')
        \<or> \<not> isString J (at ''outputFormat'') \<or> \<not> isString J (at ''difficulty'')
        \<or> \<not> isArray J (at ''tags'') \<or> \<not> isArray J (at ''languages'')
        \<or> \<not> isArray J (at ''examples'') \<or> \<not> isBool J (at ''enabled'')
      then Message ''Problem fields are invalid or incomplete''
      else if \<not> valid_problem_slug id then Message ''Problem id must be a lowercase slug''
      else if length (text ''title'') > 200 \<or> \<not> valid_problem_text (text ''description'')
        \<or> \<not> valid_problem_text (text ''inputFormat'') \<or> \<not> valid_problem_text (text ''outputFormat'')
        \<or> length (elements J (at ''tags'')) > 50 \<or> length (elements J (at ''languages'')) > 10
        \<or> length (elements J (at ''examples'')) > 20
      then Message ''Problem metadata exceeds the allowed size''
      else if path_id \<noteq> None \<and> (\<not> isInt64 J (at ''revision'') \<or> asInt64 J (at ''revision'') \<le> 0)
      then Message ''A positive revision is required when updating a problem''
      else (case parse_difficulty (text ''difficulty'') of
          None \<Rightarrow> Message ''Difficulty must be Easy, Medium, or Hard''
        | Some difficulty \<Rightarrow>
      (case parse_strings J (elements J (at ''tags'')) of
          None \<Rightarrow> Message ''Tags must contain strings''
        | Some tags \<Rightarrow>
      (case parse_strings J (elements J (at ''languages'')) of
          None \<Rightarrow> Message ''Languages must contain strings''
        | Some languages \<Rightarrow>
      (case parse_examples J (elements J (at ''examples'')) of
          None \<Rightarrow> Message ''Examples must contain input and output strings''
        | Some examples \<Rightarrow> Value
            \<lparr>pb_id = id, pb_title = text ''title'', pb_description = text ''description'',
             pb_input_format = text ''inputFormat'', pb_output_format = text ''outputFormat'',
             pb_difficulty = difficulty, pb_tags = tags, pb_languages = languages,
             pb_examples = examples, pb_enabled = asBool J (at ''enabled''),
             pb_revision = (if path_id = None then 1 else asInt64 J (at ''revision'')),
             pb_hidden_tests = []\<rparr>)))))"

definition parse_admin_test :: "'j json_lib \<Rightarrow> 'j \<Rightarrow> int64 \<Rightarrow> problem_test_case parse_outcome" where
  "parse_admin_test J json i =
     (let at = member J json; text = (\<lambda>k. asString J (at k))
      in if \<not> indexable J json then Raises
      else if \<not> isString J (at ''input'') \<or> \<not> isString J (at ''expectedOutput'')
        \<or> \<not> isInt64 J (at ''position'') \<or> asInt64 J (at ''position'') < 0 \<or> \<not> isBool J (at ''enabled'')
      then Message ''Test input, expectedOutput, non-negative position, and enabled are required''
      else if \<not> valid_hidden_test_text (text ''input'') \<or> \<not> valid_hidden_test_text (text ''expectedOutput'')
      then Message ''Hidden-test input or output exceeds the allowed size''
      else if i > 0 \<and> (\<not> isInt64 J (at ''revision'') \<or> asInt64 J (at ''revision'') \<le> 0)
      then Message ''A positive revision is required when updating a hidden test''
      else Value \<lparr>tc_input = text ''input'', tc_expected_output = text ''expectedOutput'', tc_id = i,
             tc_position = asInt64 J (at ''position''), tc_enabled = asBool J (at ''enabled''),
             tc_revision = (if i > 0 then asInt64 J (at ''revision'') else 1)\<rparr>)"

section \<open>Submissions as JSON\<close>

definition optional_member :: "string \<Rightarrow> 'j option \<Rightarrow> (string \<times> 'j) list" where
  "optional_member k v = (case v of None \<Rightarrow> [] | Some x \<Rightarrow> [(k, x)])"

definition submission_to_json :: "'j json_lib \<Rightarrow> submission_record \<Rightarrow> bool \<Rightarrow> 'j" where
  "submission_to_json J r include_source = json_object J (nullValue J)
     ([(''id'', int64Value J (sr_id r)), (''problemId'', stringValue J (sr_problem_id r)),
       (''language'', stringValue J (sr_language r)),
       (''status'', stringValue J (submission_status_name (sr_status r))),
       (''createdAt'', stringValue J (sr_created_at r))]
      @ (if include_source then [(''code'', stringValue J (sr_source_code r))] else [])
      @ optional_member ''verdict'' (map_option (stringValue J \<circ> verdict_name) (sr_verdict r))
      @ optional_member ''completedAt'' (map_option (stringValue J) (sr_completed_at r))
      @ optional_member ''errorType'' (map_option (stringValue J) (sr_error_type r)))"

definition diagnostic_category :: "submission_record \<Rightarrow> string" where
  "diagnostic_category r = (case sr_error_type r of Some t \<Rightarrow> t
     | None \<Rightarrow> (case sr_verdict r of Some v \<Rightarrow> verdict_name v
         | None \<Rightarrow> submission_status_name (sr_status r)))"

definition diagnostic_message :: "submission_record \<Rightarrow> string" where
  "diagnostic_message r =
     (if sr_error_type r \<noteq> None then ''Execution ended with a normalized runtime error.''
      else if sr_status r = failed then ''Judging infrastructure could not complete this submission.''
      else ''No private diagnostic details are available.'')"

definition admin_submission_to_json :: "'j json_lib \<Rightarrow> submission_record \<Rightarrow> 'j" where
  "admin_submission_to_json J r = json_object J (submission_to_json J r True)
     ([(''userId'', case sr_user_id r of Some u \<Rightarrow> int64Value J u | None \<Rightarrow> nullValue J)]
      @ optional_member ''retryOf'' (map_option (int64Value J) (sr_retry_of r))
      @ [(''diagnostic'', json_object J (nullValue J)
           [(''category'', stringValue J (diagnostic_category r)),
            (''message'', stringValue J (diagnostic_message r))])])"

section \<open>Reading back what was written\<close>

lemma json_array_elements:
  assumes "json_laws J"
  shows "isArray J (json_array J vs) \<and> elements J (json_array J vs) = vs"
proof (induction vs rule: rev_induct)
  case Nil
  then show ?case using assms by (simp add: json_array_def json_laws_def)
next
  case (snoc v vs)
  then show ?case using assms by (simp add: json_array_def json_laws_def)
qed

text \<open>The member of an object built key by key is the last value set under that key.\<close>

lemma json_object_member:
  assumes "json_laws J" "indexable J start"
  shows "indexable J (json_object J start kvs)
    \<and> (kvs \<noteq> [] \<longrightarrow> isObject J (json_object J start kvs))
    \<and> member J (json_object J start kvs) k
       = (case map_of (rev kvs) k of Some v \<Rightarrow> v | None \<Rightarrow> member J start k)"
proof (induction kvs rule: rev_induct)
  case Nil
  then show ?case using assms by (simp add: json_object_def)
next
  case (snoc kv kvs)
  obtain l v where kv: "kv = (l, v)" by fastforce
  have step: "json_object J start (kvs @ [(l, v)]) = setMember J (json_object J start kvs) l v"
    by (simp add: json_object_def)
  have "isObject J (setMember J (json_object J start kvs) l v)"
    "member J (setMember J (json_object J start kvs) l v) k
       = (if k = l then v else member J (json_object J start kvs) k)"
    using assms(1) snoc unfolding json_laws_def by blast+
  then show ?case using snoc by (simp add: step kv indexable_def)
qed

lemmas json_object_read = json_object_member [THEN conjunct2, THEN conjunct2]
lemmas json_object_object = json_object_member [THEN conjunct2, THEN conjunct1, THEN mp]
lemmas json_object_indexable = json_object_member [THEN conjunct1]

lemma json_scalars:
  assumes "json_laws J"
  shows "isNull J (nullValue J)" "indexable J (nullValue J)"
    "isString J (stringValue J t)" "asString J (stringValue J t) = t"
    "isBool J (boolValue J b)" "asBool J (boolValue J b) = b"
    "int64_range i \<Longrightarrow> isInt64 J (int64Value J i)" "int64_range i \<Longrightarrow> asInt64 J (int64Value J i) = i"
  using assms by (simp_all add: json_laws_def indexable_def)

lemma parse_strings_map: "json_laws J \<Longrightarrow> parse_strings J (map (stringValue J) ss) = Some ss"
  by (induction ss) (simp_all add: json_scalars)

lemma example_member:
  assumes "json_laws J"
  shows "isObject J (example_to_json J x)"
    "member J (example_to_json J x) ''input'' = stringValue J (ex_input x)"
    "member J (example_to_json J x) ''output'' = stringValue J (ex_output x)"
  using assms by (simp_all add: example_to_json_def json_object_read json_object_object json_scalars)

lemma parse_examples_map: "json_laws J \<Longrightarrow> parse_examples J (map (example_to_json J) xs) = Some xs"
  by (induction xs) (simp_all add: example_member json_scalars)

lemma parse_difficulty_name [simp]: "parse_difficulty (difficulty_name d) = Some d"
  by (cases d) (simp_all add: parse_difficulty_def)

lemma problem_to_json_members:
  assumes "json_laws J"
  shows "indexable J (problem_to_json J p)"
    "member J (problem_to_json J p) ''title'' = stringValue J (pb_title p)"
    "member J (problem_to_json J p) ''description'' = stringValue J (pb_description p)"
    "member J (problem_to_json J p) ''inputFormat'' = stringValue J (pb_input_format p)"
    "member J (problem_to_json J p) ''outputFormat'' = stringValue J (pb_output_format p)"
    "member J (problem_to_json J p) ''difficulty'' = stringValue J (difficulty_name (pb_difficulty p))"
    "member J (problem_to_json J p) ''tags'' = json_array J (map (stringValue J) (pb_tags p))"
    "member J (problem_to_json J p) ''languages'' = json_array J (map (stringValue J) (pb_languages p))"
    "member J (problem_to_json J p) ''examples'' = json_array J (map (example_to_json J) (pb_examples p))"
  using assms
  by (simp_all add: problem_to_json_def problem_summary_to_json_def json_object_read
      json_object_indexable json_scalars)

lemma admin_problem_members:
  assumes "json_laws J"
  shows "indexable J (admin_problem_to_json J p)"
    "member J (admin_problem_to_json J p) ''enabled'' = boolValue J (pb_enabled p)"
    "member J (admin_problem_to_json J p) ''revision'' = int64Value J (pb_revision p)"
    "k \<notin> {''enabled'', ''revision'', ''tests''} \<Longrightarrow>
       member J (admin_problem_to_json J p) k = member J (problem_to_json J p) k"
  using assms
  by (simp_all add: admin_problem_to_json_def json_object_read json_object_indexable
      problem_to_json_members(1))

text \<open>The problems an administrator may store.\<close>

definition storable_problem :: "problem \<Rightarrow> bool" where
  "storable_problem p \<longleftrightarrow> valid_problem_slug (pb_id p) \<and> pb_title p \<noteq> [] \<and> length (pb_title p) \<le> 200
     \<and> valid_problem_text (pb_description p) \<and> valid_problem_text (pb_input_format p)
     \<and> valid_problem_text (pb_output_format p) \<and> length (pb_tags p) \<le> 50
     \<and> length (pb_languages p) \<le> 10 \<and> length (pb_examples p) \<le> 20
     \<and> 0 < pb_revision p \<and> int64_range (pb_revision p)"

text \<open>
  C36: What the administrator reads can be written back: parsing the JSON of a stored problem as an
  update gives the same problem, with its revision (hidden tests are edited separately).
\<close>

theorem admin_problem_roundtrip:
  assumes "json_laws J" "storable_problem p"
  shows "parse_admin_problem J (admin_problem_to_json J p) (Some (pb_id p))
    = Value (p\<lparr>pb_hidden_tests := []\<rparr>)"
proof -
  note read = admin_problem_members [OF assms(1), where p = p] problem_to_json_members [OF assms(1), of p]
    json_scalars [OF assms(1)] json_array_elements [OF assms(1)]
    parse_strings_map [OF assms(1)] parse_examples_map [OF assms(1)]
  have "pb_id p \<noteq> []" using assms(2) by (simp add: storable_problem_def valid_problem_slug_def)
  then show ?thesis
    using assms(2) unfolding parse_admin_problem_def storable_problem_def
    by (simp add: read Let_def)
qed

section \<open>A concrete JSON library\<close>

text \<open>
  The laws can hold: a value type with ordered members and the functions the program calls. It is
  used only to instantiate the parameter in examples.
\<close>

datatype json =
    JNull
  | JBool bool
  | JInt int
  | JString string
  | JArray "json list"
  | JObject "(string \<times> json) list"

fun json_members :: "json \<Rightarrow> (string \<times> json) list" where
  "json_members (JObject ms) = ms"
| "json_members _ = []"

fun json_elements :: "json \<Rightarrow> json list" where
  "json_elements (JArray vs) = vs"
| "json_elements _ = []"

definition json_member :: "json \<Rightarrow> string \<Rightarrow> json" where
  "json_member v k = (case map_of (json_members v) k of Some x \<Rightarrow> x | None \<Rightarrow> JNull)"

definition plain_json :: "json json_lib" where
  "plain_json = \<lparr>isNull = (\<lambda>v. case v of JNull \<Rightarrow> True | _ \<Rightarrow> False),
     isObject = (\<lambda>v. case v of JObject _ \<Rightarrow> True | _ \<Rightarrow> False),
     isArray = (\<lambda>v. case v of JArray _ \<Rightarrow> True | _ \<Rightarrow> False),
     isString = (\<lambda>v. case v of JString _ \<Rightarrow> True | _ \<Rightarrow> False),
     isBool = (\<lambda>v. case v of JBool _ \<Rightarrow> True | _ \<Rightarrow> False),
     isInt64 = (\<lambda>v. case v of JInt i \<Rightarrow> int64_range i | _ \<Rightarrow> False),
     isMember = (\<lambda>v k. k \<in> fst ` set (json_members v)),
     member = json_member,
     asString = (\<lambda>v. case v of JString t \<Rightarrow> t | _ \<Rightarrow> []),
     asBool = (\<lambda>v. case v of JBool b \<Rightarrow> b | _ \<Rightarrow> False),
     asInt64 = (\<lambda>v. case v of JInt i \<Rightarrow> i | _ \<Rightarrow> 0),
     elements = json_elements,
     nullValue = JNull, emptyArray = JArray [], stringValue = JString, boolValue = JBool,
     int64Value = JInt,
     setMember = (\<lambda>b k v. JObject ((k, v) # filter (\<lambda>m. fst m \<noteq> k) (json_members b))),
     appendElement = (\<lambda>a v. JArray (json_elements a @ [v]))\<rparr>"

lemma json_laws_plain: "json_laws plain_json"
proof -
  have others: "map_of (filter (\<lambda>m. fst m \<noteq> k) ms) l = map_of ms l" if "l \<noteq> k" for k l and ms :: "(string \<times> json) list"
    using that by (induction ms) auto
  show ?thesis
    by (auto simp: json_laws_def plain_json_def json_member_def others split: json.splits)
qed

text \<open>A problem an administrator might store.\<close>

definition sample_problem :: problem where
  "sample_problem = \<lparr>pb_id = ''two-sum'', pb_title = ''Two sum'', pb_description = ''Add.'',
     pb_input_format = ''a b'', pb_output_format = ''c'', pb_difficulty = easy,
     pb_tags = [''math''], pb_languages = [''python''],
     pb_examples = [\<lparr>ex_input = ''1 2'', ex_output = ''3''\<rparr>], pb_enabled = True,
     pb_revision = 4, pb_hidden_tests = []\<rparr>"

lemma storable_sample_problem: "storable_problem sample_problem"
  by (simp add: storable_problem_def sample_problem_def valid_problem_slug_def valid_problem_text_def
      maximum_problem_text_bytes_def islower_def isdigit_def int64_range_def)

theorem admin_problem_roundtrip_witness:
  "parse_admin_problem plain_json (admin_problem_to_json plain_json sample_problem) (Some ''two-sum'')
    = Value sample_problem"
  using admin_problem_roundtrip [OF json_laws_plain storable_sample_problem]
  by (simp add: sample_problem_def)

section \<open>Hidden tests\<close>

definition storable_test :: "problem_test_case \<Rightarrow> bool" where
  "storable_test t \<longleftrightarrow> valid_hidden_test_text (tc_input t) \<and> valid_hidden_test_text (tc_expected_output t)
     \<and> 0 < tc_id t \<and> 0 \<le> tc_position t \<and> 0 < tc_revision t \<and> int64_range (tc_id t)
     \<and> int64_range (tc_position t) \<and> int64_range (tc_revision t)"

text \<open>
  Parsing the JSON of a stored hidden test as an update gives the same test; parsed as a new
  test (id 0) it keeps its texts, position and flag and starts at revision 1.
\<close>

lemma admin_test_roundtrip:
  assumes "json_laws J" "storable_test t"
  shows "parse_admin_test J (admin_problem_test_to_json J t) (tc_id t) = Value t
    \<and> parse_admin_test J (admin_problem_test_to_json J t) 0 = Value (t\<lparr>tc_id := 0, tc_revision := 1\<rparr>)"
  using assms
  by (simp add: parse_admin_test_def admin_problem_test_to_json_def storable_test_def Let_def
      json_object_read json_object_indexable json_scalars)

definition sample_test :: problem_test_case where
  "sample_test = \<lparr>tc_input = ''1 2'', tc_expected_output = ''3'', tc_id = 7, tc_position = 0,
     tc_enabled = True, tc_revision = 2\<rparr>"

section \<open>What validation accepts\<close>

text \<open>
  C37: A submission body is accepted exactly when it is an object whose problemId, language and code
  are strings, with a problem id of 1 to 128 bytes, one of the two languages and 1 to 65536 bytes
  of code; the request then holds these texts and no user.
\<close>

theorem validate_submission_iff:
  "validate_submission J json = Inr q \<longleftrightarrow>
     isObject J json
     \<and> isMember J json ''problemId'' \<and> isString J (member J json ''problemId'')
     \<and> isMember J json ''language'' \<and> isString J (member J json ''language'')
     \<and> isMember J json ''code'' \<and> isString J (member J json ''code'')
     \<and> q = \<lparr>rq_problem_id = asString J (member J json ''problemId''),
            rq_language = asString J (member J json ''language''),
            rq_code = asString J (member J json ''code''), rq_user_id = None\<rparr>
     \<and> length (rq_problem_id q) \<in> {1..128}
     \<and> rq_language q \<in> {''python'', ''cpp''}
     \<and> length (rq_code q) \<in> {1..65536}"
  by (auto simp: validate_submission_def maximum_code_size_def Let_def Suc_le_eq
      split: if_splits option.splits)

text \<open>
  An id in a path is accepted exactly when it is a non-empty text of digits whose value is
  between 1 and 2^63 - 1, and the id is that value.
\<close>

lemma positive_id_iff:
  "positive_id raw = Some i \<longleftrightarrow>
     raw \<noteq> [] \<and> list_all isdigit raw \<and> i = int (digits_value 0 raw) \<and> 0 < i \<and> i < 2 ^ 63"
proof (cases "\<exists>cs. raw = CHR ''-'' # cs")
  case True
  then obtain cs where "raw = CHR ''-'' # cs" by blast
  then show ?thesis
    by (auto simp: positive_id_def from_chars_int64_def isdigit_def Let_def split: if_splits)
next
  case False
  then have unsigned: "split_sign raw = (False, raw)" by (cases raw) auto
  show ?thesis
  proof (cases "\<forall>c\<in>set raw. isdigit c")
    case True
    then have all: "takeWhile isdigit raw = raw" "dropWhile isdigit raw = []"
      by (simp_all add: takeWhile_eq_all_conv dropWhile_eq_Nil_conv)
    show ?thesis
      using True
      by (auto simp add: positive_id_def from_chars_int64_def int64_range_def list_all_iff unsigned all)
  next
    case False
    then have "dropWhile isdigit raw \<noteq> []" by (simp add: dropWhile_eq_Nil_conv)
    then show ?thesis
      using unsigned False
      by (auto simp: positive_id_def from_chars_int64_def list_all_iff Let_def split: if_splits)
  qed
qed

end
