(* ===== verification/Auth_Provider.thy ===== *)
theory Auth_Provider
  imports Schema
begin

text \<open>
  Accounts and sessions: the data of \<^verbatim>\<open>auth-service.h\<close>, the abstract class
  \<^verbatim>\<open>AuthProvider\<close> as a record of operations with its contract as the locale
  \<open>auth_store\<close>, and the statements on the tables \<^verbatim>\<open>users\<close> and
  \<^verbatim>\<open>sessions\<close> that both implementations (\<^verbatim>\<open>Pg_Auth\<close>,
  \<^verbatim>\<open>Sqlite_Auth\<close>) use.

  libsodium is not part of the program. Its deterministic functions are a record \<open>sodium\<close>, an
  argument of the model; the salted password hash and the random bytes of a call are part of what
  the environment decides during that call.
\<close>

section \<open>Data (auth-service.h)\<close>

record auth_user =
  au_id :: int64
  au_username :: string
  au_created_at :: string
  au_is_admin :: bool

definition has_admin_access :: "auth_user \<Rightarrow> bool" where
  "has_admin_access user \<longleftrightarrow> au_is_admin user"

datatype auth_error_code =
    invalid_input
  | duplicate_user
  | invalid_credentials
  | unauthenticated
  | auth_internal

record auth_error =
  ae_code :: auth_error_code
  ae_message :: string

definition AuthError :: "auth_error_code \<Rightarrow> string \<Rightarrow> auth_error" where
  "AuthError c m = \<lparr>ae_code = c, ae_message = m\<rparr>"

record auth_session =
  as_user :: auth_user
  as_token :: string

lemma ae_code_AuthError [simp]: "ae_code (AuthError c m) = c" "ae_message (AuthError c m) = m"
  by (simp_all add: AuthError_def)

lemma AuthError_eq [simp]: "AuthError c m = AuthError c' m' \<longleftrightarrow> c = c' \<and> m = m'"
  by (simp add: AuthError_def)

record ('e, 's) auth_provider =
  register_user_op :: "'e \<Rightarrow> string \<Rightarrow> string \<Rightarrow> 's \<Rightarrow> (auth_error + auth_session) \<times> 's"
  login_op :: "'e \<Rightarrow> string \<Rightarrow> string \<Rightarrow> 's \<Rightarrow> (auth_error + auth_session) \<times> 's"
  ensure_admin_op :: "'e \<Rightarrow> string \<Rightarrow> string \<Rightarrow> 's \<Rightarrow> (auth_error + auth_user) \<times> 's"
  current_user_op :: "'e \<Rightarrow> string \<Rightarrow> 's \<Rightarrow> auth_error + auth_user"
  logout_op :: "'e \<Rightarrow> string \<Rightarrow> 's \<Rightarrow> (auth_error + unit) \<times> 's"

section \<open>The cryptographic library\<close>

text \<open>
  \<^verbatim>\<open>crypto_pwhash_str_verify\<close> on a hash (a C string) and a password,
  \<^verbatim>\<open>crypto_generichash\<close> without key, \<^verbatim>\<open>sodium_bin2hex\<close> and
  \<^verbatim>\<open>sodium_bin2base64\<close>.
\<close>

record sodium =
  pwhash_str_verify :: "string \<Rightarrow> string \<Rightarrow> bool"
  generichash :: "string \<Rightarrow> string"
  bin2hex :: "string \<Rightarrow> string"
  bin2base64 :: "string \<Rightarrow> string"

section \<open>Validation\<close>

definition username_character :: "char \<Rightarrow> bool" where
  "username_character c \<longleftrightarrow> isalnum c \<or> c = CHR ''_'' \<or> c = CHR ''-'' \<or> c = CHR ''.''"

definition validate_credentials :: "string \<Rightarrow> string \<Rightarrow> auth_error option" where
  "validate_credentials username password =
     (if length username < 3 \<or> length username > 64
      then Some (AuthError invalid_input ''Username must contain between 3 and 64 characters'')
      else if \<not> list_all username_character username
      then Some (AuthError invalid_input
        ''Username may contain only letters, numbers, dots, underscores, and hyphens'')
      else if length password < 8 \<or> length password > 128
      then Some (AuthError invalid_input ''Password must contain between 8 and 128 characters'')
      else None)"

lemma username_character_not_nul: "list_all username_character u \<Longrightarrow> nul \<notin> set u"
  by (auto simp: list_all_iff username_character_def isalnum_def isdigit_def islower_def isupper_def)

lemma validated_username:
  "validate_credentials u p = None \<Longrightarrow> nul \<notin> set u \<and> u \<noteq> [] \<and> length u \<le> 64 \<and> p \<noteq> [] \<and> length p \<le> 128"
  using username_character_not_nul [of u]
  by (auto simp: validate_credentials_def split: if_splits)

section \<open>Statements on users and sessions\<close>

text \<open>
  A user name is unique up to its case, as the collation of the column (SQLite) or the unique index
  on \<^verbatim>\<open>lower(username)\<close> (PostgreSQL) compares it: \<open>key\<close> is that comparison key.
\<close>

definition same_name :: "(string \<Rightarrow> string) \<Rightarrow> string \<Rightarrow> 't user_row \<Rightarrow> bool" where
  "same_name key name u \<longleftrightarrow> key (usr_username u) = key name"

definition username_taken :: "(string \<Rightarrow> string) \<Rightarrow> string \<Rightarrow> 't database \<Rightarrow> bool" where
  "username_taken key name db \<longleftrightarrow> list_ex (same_name key name) (users db)"

definition new_user :: "'t \<Rightarrow> string \<Rightarrow> string \<Rightarrow> bool \<Rightarrow> 't user_row" where
  "new_user t name hash admin = \<lparr>usr_id = 0, usr_username = name, usr_password_hash = hash,
     usr_created_at = t, usr_is_admin = admin\<rparr>"

definition insert_user ::
    "(string \<Rightarrow> string) \<Rightarrow> nat \<Rightarrow> 't user_row \<Rightarrow> 't database \<Rightarrow> ('t user_row \<times> 't database) option" where
  "insert_user key gap r db =
     (let i = users_seq db + 1 + int gap; r' = r\<lparr>usr_id := i\<rparr>
      in if int64_range i \<and> \<not> username_taken key (usr_username r) db
         then Some (r', db\<lparr>users := users db @ [r'], users_seq := i\<rparr>)
         else None)"

definition insert_session ::
    "nat \<Rightarrow> int64 \<Rightarrow> string \<Rightarrow> 't \<Rightarrow> 't \<Rightarrow> 't database \<Rightarrow> 't database option" where
  "insert_session gap user hash t expires db =
     (let i = sessions_seq db + 1 + int gap
      in if int64_range i \<and> user \<in> usr_id ` set (users db)
            \<and> hash \<notin> ses_token_hash ` set (sessions db)
         then Some (db\<lparr>sessions := sessions db @ [\<lparr>ses_id = i, ses_user_id = user,
                ses_token_hash = hash, ses_created_at = t, ses_expires_at = expires\<rparr>],
              sessions_seq := i\<rparr>)
         else None)"

definition delete_sessions :: "string \<Rightarrow> 't database \<Rightarrow> 't database" where
  "delete_sessions hash db =
     db\<lparr>sessions := filter (\<lambda>s. ses_token_hash s \<noteq> hash) (sessions db)\<rparr>"

text \<open>\<^verbatim>\<open>sessions JOIN users\<close> for a token whose session has not expired.\<close>

definition session_rows :: "string \<Rightarrow> 't::ord \<Rightarrow> 't database \<Rightarrow> 't user_row list" where
  "session_rows hash t db =
     concat (map (\<lambda>s. filter (\<lambda>u. usr_id u = ses_user_id s) (users db))
       (filter (\<lambda>s. ses_token_hash s = hash \<and> ses_expires_at s > t) (sessions db)))"

section \<open>What the constraints maintain\<close>

definition wf_auth :: "(string \<Rightarrow> string) \<Rightarrow> 't database \<Rightarrow> bool" where
  "wf_auth key db \<longleftrightarrow>
     ascending usr_id (users db) \<and> usr_id ` set (users db) \<subseteq> {0<..users_seq db} \<and>
     0 \<le> users_seq db \<and> int64_range (users_seq db) \<and>
     distinct (map (key \<circ> usr_username) (users db)) \<and>
     distinct (map ses_token_hash (sessions db)) \<and>
     ses_user_id ` set (sessions db) \<subseteq> usr_id ` set (users db)"

lemma wf_auth_empty [simp]: "wf_auth key empty_database"
  by (simp add: wf_auth_def empty_database_def int64_range_def)

lemma wf_auth_id_range: "wf_auth key db \<Longrightarrow> u \<in> set (users db) \<Longrightarrow> int64_range (usr_id u)"
  by (fastforce simp: wf_auth_def int64_range_def)

lemma insert_user_Some:
  assumes "insert_user key gap r db = Some (r', db')"
  shows "r' = r\<lparr>usr_id := users_seq db + 1 + int gap\<rparr>"
    and "db' = db\<lparr>users := users db @ [r'], users_seq := usr_id r'\<rparr>"
    and "\<not> username_taken key (usr_username r) db" and "int64_range (usr_id r')"
  using assms by (auto simp: insert_user_def Let_def split: if_splits)

lemma wf_insert_user:
  assumes wf: "wf_auth key db" and ins: "insert_user key gap r db = Some (r', db')"
  shows "wf_auth key db'"
proof -
  note new = insert_user_Some [OF ins]
  have "usr_id u < usr_id r'" if "u \<in> set (users db)" for u
    using wf that by (fastforce simp: wf_auth_def new(1))
  moreover have "key (usr_username r) \<notin> (key \<circ> usr_username) ` set (users db)"
    using new(1,3) by (auto simp: username_taken_def same_name_def list_ex_iff)
  ultimately show ?thesis
    using wf new(4) unfolding wf_auth_def new(2)
    by (auto simp: sorted_wrt_append new(1) image_subset_iff)
qed

lemma insert_session_Some:
  assumes "insert_session gap user hash t expires db = Some db'"
  obtains i where "db' = db\<lparr>sessions := sessions db @ [\<lparr>ses_id = i, ses_user_id = user,
      ses_token_hash = hash, ses_created_at = t, ses_expires_at = expires\<rparr>], sessions_seq := i\<rparr>"
    "user \<in> usr_id ` set (users db)" "hash \<notin> ses_token_hash ` set (sessions db)"
  using assms by (auto simp: insert_session_def Let_def split: if_splits)

lemma wf_insert_session:
  assumes "wf_auth key db" "insert_session gap user hash t expires db = Some db'"
  shows "wf_auth key db'"
  using assms(2)
proof (rule insert_session_Some)
  fix i
  assume "db' = db\<lparr>sessions := sessions db @ [\<lparr>ses_id = i, ses_user_id = user,
      ses_token_hash = hash, ses_created_at = t, ses_expires_at = expires\<rparr>], sessions_seq := i\<rparr>"
    "user \<in> usr_id ` set (users db)" "hash \<notin> ses_token_hash ` set (sessions db)"
  then show ?thesis using assms(1) by (auto simp: wf_auth_def)
qed

lemma insert_session_users: "insert_session gap user hash t expires db = Some db' \<Longrightarrow> users db' = users db"
  by (auto elim!: insert_session_Some)

lemma wf_delete_sessions: "wf_auth key db \<Longrightarrow> wf_auth key (delete_sessions hash db)"
  by (auto simp: wf_auth_def delete_sessions_def distinct_map_filter)

lemma users_delete_sessions [simp]: "users (delete_sessions hash db) = users db"
  by (simp add: delete_sessions_def)

text \<open>Setting a password hash and the administrator flag keeps keys and names.\<close>

lemma wf_update_users:
  assumes wf: "wf_auth key db" and keep: "\<And>u. usr_id (f u) = usr_id u" "\<And>u. usr_username (f u) = usr_username u"
  shows "wf_auth key (db\<lparr>users := update_where P f (users db)\<rparr>)"
proof -
  have "map usr_id (update_where P f (users db)) = map usr_id (users db)"
    "map (key \<circ> usr_username) (update_where P f (users db)) = map (key \<circ> usr_username) (users db)"
    by (rule map_update_where; simp add: keep)+
  moreover from this(1) have "usr_id ` set (update_where P f (users db)) = usr_id ` set (users db)"
    by (metis list.set_map)
  ultimately show ?thesis using wf by (simp add: wf_auth_def)
qed

text \<open>A token identifies at most one account.\<close>

lemma filter_key:
  assumes "distinct (map k xs)" "x \<in> set xs"
  shows "filter (\<lambda>y. k y = k x) xs = [x]"
  using assms
proof (induction xs)
  case Nil
  then show ?case by simp
next
  case (Cons y ys)
  then show ?case by (cases "y = x") (auto simp: filter_empty_conv image_iff)
qed

lemma session_rows_new:
  assumes wf: "wf_auth key db" and ins: "insert_session gap (usr_id u) hash t expires db = Some db'"
    and u: "u \<in> set (users db)"
  shows "session_rows hash t' db' = (if t' < expires then [u] else [])"
  using ins
proof (rule insert_session_Some)
  fix i
  assume db': "db' = db\<lparr>sessions := sessions db @ [\<lparr>ses_id = i, ses_user_id = usr_id u,
      ses_token_hash = hash, ses_created_at = t, ses_expires_at = expires\<rparr>], sessions_seq := i\<rparr>"
    and fresh: "hash \<notin> ses_token_hash ` set (sessions db)"
  have "filter (\<lambda>s. ses_token_hash s = hash \<and> ses_expires_at s > t') (sessions db) = []"
    using fresh by (auto simp: filter_empty_conv)
  moreover have "filter (\<lambda>x. usr_id x = usr_id u) (users db) = [u]"
    using wf u by (intro filter_key ascending_distinct) (simp_all add: wf_auth_def)
  ultimately show ?thesis by (simp add: session_rows_def db')
qed

lemma session_rows_deleted [simp]: "session_rows hash t (delete_sessions hash db) = []"
  by (auto simp: session_rows_def delete_sessions_def filter_empty_conv)

lemma session_rows_other:
  "hash' \<noteq> hash \<Longrightarrow> session_rows hash' t (delete_sessions hash db) = session_rows hash' t db"
  unfolding session_rows_def delete_sessions_def
  by (simp, rule arg_cong [where f = concat], rule arg_cong [where f = "map _"],
      rule filter_cong) auto

lemma session_rows_users: "u \<in> set (session_rows hash t db) \<Longrightarrow> u \<in> set (users db)"
  by (auto simp: session_rows_def)

section \<open>The contract\<close>

text \<open>
  \<open>accounts\<close> lists the stored accounts. A registration adds at most one account, never an
  administrator; logging in and out adds none; a recognised token belongs to a stored account, and
  to none once it was logged out.
\<close>

locale auth_store =
  fixes provider :: "('e, 's) auth_provider"
    and ok :: "'s \<Rightarrow> bool"
    and accounts :: "'s \<Rightarrow> auth_user list"
  assumes register_keeps_ok:
      "ok s \<Longrightarrow> register_user_op provider e name password s = (res, s') \<Longrightarrow> ok s'"
    and login_keeps_ok: "ok s \<Longrightarrow> login_op provider e name password s = (res, s') \<Longrightarrow> ok s'"
    and ensure_admin_keeps_ok:
      "ok s \<Longrightarrow> ensure_admin_op provider e name password s = (res', s') \<Longrightarrow> ok s'"
    and logout_keeps_ok: "ok s \<Longrightarrow> logout_op provider e token s = (done', s') \<Longrightarrow> ok s'"
    and register_accounts:
      "ok s \<Longrightarrow> register_user_op provider e name password s = (res, s') \<Longrightarrow>
         accounts s' = accounts s
         \<or> (\<exists>a. \<not> au_is_admin a \<and> au_username a = name \<and> accounts s' = accounts s @ [a])"
    and register_session:
      "ok s \<Longrightarrow> register_user_op provider e name password s = (Inr session, s') \<Longrightarrow>
         accounts s' = accounts s @ [as_user session]"
    and login_accounts:
      "ok s \<Longrightarrow> login_op provider e name password s = (res, s') \<Longrightarrow> accounts s' = accounts s"
    and login_session:
      "ok s \<Longrightarrow> login_op provider e name password s = (Inr session, s') \<Longrightarrow>
         as_user session \<in> set (accounts s)"
    and ensure_admin_account:
      "ok s \<Longrightarrow> ensure_admin_op provider e name password s = (Inr user, s') \<Longrightarrow>
         au_is_admin user \<and> user \<in> set (accounts s')"
    and logout_accounts:
      "ok s \<Longrightarrow> logout_op provider e token s = (done', s') \<Longrightarrow> accounts s' = accounts s"
    and current_user_account:
      "ok s \<Longrightarrow> current_user_op provider e token s = Inr user \<Longrightarrow> user \<in> set (accounts s)"
    and logout_ends:
      "ok s \<Longrightarrow> logout_op provider e token s = (Inr (), s') \<Longrightarrow>
         current_user_op provider e' token s' \<noteq> Inr user"

text \<open>What an unprivileged client can do to the accounts: any sequence of these requests.\<close>

inductive auth_step :: "('e, 's) auth_provider \<Rightarrow> 's \<Rightarrow> 's \<Rightarrow> bool" for provider where
  Register: "register_user_op provider e name password s = (res, s') \<Longrightarrow> auth_step provider s s'"
| Login: "login_op provider e name password s = (res, s') \<Longrightarrow> auth_step provider s s'"
| Logout: "logout_op provider e token s = (ended, s') \<Longrightarrow> auth_step provider s s'"

context auth_store
begin

lemma auth_step_accounts:
  assumes "auth_step provider s s'" "ok s"
  shows "ok s' \<and> filter au_is_admin (accounts s') = filter au_is_admin (accounts s)"
  using assms
proof cases
  case (Register e name password res)
  then show ?thesis
    using register_accounts [OF assms(2) Register] register_keeps_ok [OF assms(2) Register] by auto
next
  case (Login e name password res)
  then show ?thesis
    using login_accounts [OF assms(2) Login] login_keeps_ok [OF assms(2) Login] by simp
next
  case (Logout e token ended)
  then show ?thesis
    using logout_accounts [OF assms(2) Logout] logout_keeps_ok [OF assms(2) Logout] by simp
qed

lemma auth_steps_accounts:
  assumes "(auth_step provider)\<^sup>*\<^sup>* s s'" "ok s"
  shows "ok s' \<and> filter au_is_admin (accounts s') = filter au_is_admin (accounts s)"
  using assms by (induction rule: rtranclp_induct) (auto dest: auth_step_accounts)

lemma recognised_admin_existed:
  assumes "(auth_step provider)\<^sup>*\<^sup>* s s'" "ok s"
    and "current_user_op provider e token s' = Inr user" "has_admin_access user"
  shows "user \<in> set (accounts s)"
proof -
  have ok: "ok s'" and same: "filter au_is_admin (accounts s') = filter au_is_admin (accounts s)"
    using auth_steps_accounts [OF assms(1,2)] by simp_all
  have "user \<in> set (filter au_is_admin (accounts s'))"
    using current_user_account [OF ok assms(3)] assms(4) by (simp add: has_admin_access_def)
  then show ?thesis unfolding same by simp
qed

end

end
