(* ===== verification/Pg_Auth.thy ===== *)
theory Pg_Auth
  imports Auth_Provider Pg_Client
begin

text \<open>
  \<^verbatim>\<open>PostgreSQLAuthService\<close> (\<^verbatim>\<open>backend/src/postgresql-auth-service.cpp\<close>):
  every member function with each of its error returns, and the interpretation of
  \<open>auth_store\<close> on them.

  \<open>pg_auth_service\<close> is the object: libsodium, the server's \<^verbatim>\<open>lower\<close> and its
  printing of time stamps, and the hash kept for unknown users. \<open>pg_auth_env\<close> is what the
  outside decides during one call: the server, the salted hash of a password (None when hashing
  fails), the random bytes, the identifiers sequences have lost, and the clock when the session is
  stored. Time stamps count microseconds. The two statements of \<^verbatim>\<open>register_user\<close> and
  \<^verbatim>\<open>login\<close> run one after the other on one state: nothing in the program deletes or
  renames an account, so what other connections write in between cannot affect them other than by
  the failure of the second statement, which the model has.
\<close>

section \<open>The object and its environment\<close>

record pg_auth_service =
  crypto :: sodium
  lower :: "string \<Rightarrow> string"
  timestamp_text :: "int \<Rightarrow> string"
  dummy_password_hash :: string

record pg_auth_env =
  server :: pg_env
  pwhash_str :: "string \<Rightarrow> string option"
  random_bytes :: string
  user_gap :: nat
  session_gap :: nat
  session_clock :: int

definition session_lifetime_seconds :: int where
  "session_lifetime_seconds = 60 * 60 * 24 * 30"

definition pg_internal :: "string \<Rightarrow> auth_error" where
  "pg_internal m = AuthError auth_internal m"

definition pg_validate :: "string \<Rightarrow> string \<Rightarrow> auth_error option" where
  "pg_validate username password =
     (if length username < 3 \<or> length username > 64
      then Some (AuthError invalid_input ''Username must contain between 3 and 64 characters'')
      else if \<not> list_all username_character username
      then Some (AuthError invalid_input
        ''Username may contain only letters, numbers, dots, underscores, and hyphens'')
      else if length password < 8 \<or> length password > 128
      then Some (AuthError invalid_input ''Password must contain between 8 and 128 characters'')
      else None)"

text \<open>The encoded digests and tokens are read back as C strings.\<close>

definition pg_token_hash :: "sodium \<Rightarrow> string \<Rightarrow> string" where
  "pg_token_hash k token = c_str (bin2hex k (generichash k token))"

definition pg_new_token :: "sodium \<Rightarrow> pg_auth_env \<Rightarrow> string" where
  "pg_new_token k e = c_str (bin2base64 k (random_bytes e))"

definition password_hash :: "pg_auth_env \<Rightarrow> string \<Rightarrow> string" where
  "password_hash e password = (case pwhash_str e password of None \<Rightarrow> [] | Some h \<Rightarrow> c_str h)"

text \<open>\<^verbatim>\<open>id, username, created_at, is_admin\<close> as the server sends them.\<close>

definition user_columns :: "(int \<Rightarrow> string) \<Rightarrow> int user_row \<Rightarrow> string option list" where
  "user_columns ts u = [Some (to_string (usr_id u)), Some (usr_username u),
     Some (ts (usr_created_at u)), Some (if usr_is_admin u then ''t'' else ''f'')]"

definition pg_user :: "pg_result \<Rightarrow> nat \<Rightarrow> auth_user" where
  "pg_user res row = \<lparr>au_id = pg_integer (pg_value res row 0), au_username = pg_value res row 1,
     au_created_at = pg_value res row 2, au_is_admin = (pg_value res row 3 = ''t'')\<rparr>"

section \<open>Operations\<close>

text \<open>
  \<^verbatim>\<open>open\<close>: \<open>init\<close> is the result of \<^verbatim>\<open>sodium_init\<close>,
  \<open>connection_error\<close> the error of a connection that is not valid, \<open>versions\<close> the
  content of \<^verbatim>\<open>schema_migrations\<close>.
\<close>

definition pg_auth_open ::
    "sodium \<Rightarrow> (string \<Rightarrow> string) \<Rightarrow> (int \<Rightarrow> string) \<Rightarrow> pg_auth_env \<Rightarrow> int \<Rightarrow> string option \<Rightarrow> int list
       \<Rightarrow> auth_error + pg_auth_service" where
  "pg_auth_open k lw ts e init connection_error versions =
     (if init < 0 then Inl (pg_internal ''Cryptographic library initialization failed'')
      else case connection_error of
        Some m \<Rightarrow> Inl (pg_internal (''Could not connect to PostgreSQL: '' @ m))
      | None \<Rightarrow>
        let dummy = password_hash e ''authentication-timing-placeholder''
        in if dummy = [] then Inl (pg_internal ''Password hashing initialization failed'')
           else let probe = fst (pg_execute (server e) 0 (Some (Tuples_ok
                      (map (\<lambda>v. [Some ''1'']) (filter (\<lambda>v. v = 1) versions)), ())) ())
                in if \<not> pg_tuples_ok probe \<or> pg_rows probe \<noteq> 1
                   then Inl (pg_internal (''PostgreSQL schema is missing; apply ''
                     @ ''migrations/postgresql/001-initial-schema.sql first''))
                   else Inr \<lparr>crypto = k, lower = lw, timestamp_text = ts, dummy_password_hash = dummy\<rparr>)"

text \<open>The session statement shared by \<^verbatim>\<open>register_user\<close> and \<^verbatim>\<open>login\<close>.\<close>

definition pg_create_session ::
    "pg_auth_service \<Rightarrow> pg_auth_env \<Rightarrow> auth_user \<Rightarrow> int database
       \<Rightarrow> (auth_error + auth_session) \<times> int database" where
  "pg_create_session A e user db =
     (let token = pg_new_token (crypto A) e;
          (session, db') = pg_execute (server e) 1
            (map_option (Pair Command_ok) (insert_session (session_gap e) (au_id user)
               (c_str (pg_token_hash (crypto A) token)) (session_clock e)
               (session_clock e + 1000000 * session_lifetime_seconds) db)) db
      in if \<not> pg_command_ok session then (Inl (pg_internal ''Could not create session''), db')
         else (Inr \<lparr>as_user = user, as_token = token\<rparr>, db'))"

text \<open>\<^verbatim>\<open>INSERT INTO users \<dots> ON CONFLICT DO NOTHING RETURNING\<close>\<close>

definition pg_insert_account ::
    "pg_auth_service \<Rightarrow> pg_auth_env \<Rightarrow> string \<Rightarrow> string \<Rightarrow> int database \<Rightarrow> (pg_result \<times> int database) option" where
  "pg_insert_account A e name hash db =
     (if username_taken (lower A) name db then Some (Tuples_ok [], db)
      else map_option (\<lambda>(u, d). (Tuples_ok [user_columns (timestamp_text A) u], d))
             (insert_user (lower A) (user_gap e) (new_user (clock (server e)) name hash False) db))"

definition pg_register_user ::
    "pg_auth_service \<Rightarrow> pg_auth_env \<Rightarrow> string \<Rightarrow> string \<Rightarrow> int database
       \<Rightarrow> (auth_error + auth_session) \<times> int database" where
  "pg_register_user A e username password db =
     (case pg_validate username password of Some err \<Rightarrow> (Inl err, db)
      | None \<Rightarrow>
        let hash = password_hash e password
        in if hash = [] then (Inl (pg_internal ''Password hashing failed''), db)
           else let (result, db') = pg_execute (server e) 0
                      (pg_insert_account A e (c_str username) (c_str hash) db) db
                in if \<not> pg_tuples_ok result then (Inl (pg_internal ''Could not create user''), db')
                   else if pg_rows result = 0
                   then (Inl (AuthError duplicate_user ''Username is already registered''), db')
                   else pg_create_session A e (pg_user result 0) db')"

definition pg_login ::
    "pg_auth_service \<Rightarrow> pg_auth_env \<Rightarrow> string \<Rightarrow> string \<Rightarrow> int database
       \<Rightarrow> (auth_error + auth_session) \<times> int database" where
  "pg_login A e username password db =
     (if username = [] \<or> length username > 64 \<or> password = [] \<or> length password > 128
      then (Inl (AuthError invalid_credentials ''Invalid username or password''), db)
      else let (result, _) = pg_execute (server e) 0 (Some (Tuples_ok
             (map (\<lambda>u. user_columns (timestamp_text A) u @ [Some (usr_password_hash u)])
               (filter (same_name (lower A) (c_str username)) (users db))), db)) db
           in if \<not> pg_tuples_ok result then (Inl (pg_internal ''Could not retrieve user''), db)
              else let exists = (pg_rows result = 1);
                       hash = (if exists then pg_value result 0 4 else dummy_password_hash A)
                   in if \<not> pwhash_str_verify (crypto A) (c_str hash) password \<or> \<not> exists
                      then (Inl (AuthError invalid_credentials ''Invalid username or password''), db)
                      else pg_create_session A e (pg_user result 0) db)"

definition make_admin :: "string \<Rightarrow> 't user_row \<Rightarrow> 't user_row" where
  "make_admin hash u = u\<lparr>usr_password_hash := hash, usr_is_admin := True\<rparr>"

text \<open>
  \<^verbatim>\<open>INSERT \<dots> ON CONFLICT((lower(username))) DO UPDATE \<dots> RETURNING\<close>: the row that
  conflicts gets the new password and the flag, otherwise an administrator is inserted.
\<close>

definition pg_upsert_admin ::
    "pg_auth_service \<Rightarrow> pg_auth_env \<Rightarrow> string \<Rightarrow> string \<Rightarrow> int database \<Rightarrow> (pg_result \<times> int database) option" where
  "pg_upsert_admin A e name hash db =
     (if username_taken (lower A) name db
      then Some (Tuples_ok (map (user_columns (timestamp_text A) \<circ> make_admin hash)
             (filter (same_name (lower A) name) (users db))),
             db\<lparr>users := update_where (same_name (lower A) name) (make_admin hash) (users db)\<rparr>)
      else map_option (\<lambda>(u, d). (Tuples_ok [user_columns (timestamp_text A) u], d))
             (insert_user (lower A) (user_gap e) (new_user (clock (server e)) name hash True) db))"

definition pg_ensure_admin ::
    "pg_auth_service \<Rightarrow> pg_auth_env \<Rightarrow> string \<Rightarrow> string \<Rightarrow> int database
       \<Rightarrow> (auth_error + auth_user) \<times> int database" where
  "pg_ensure_admin A e username password db =
     (case pg_validate username password of Some err \<Rightarrow> (Inl err, db)
      | None \<Rightarrow>
        let hash = password_hash e password
        in if hash = [] then (Inl (pg_internal ''Admin password hashing failed''), db)
           else let (result, db') = pg_execute (server e) 0
                      (pg_upsert_admin A e (c_str username) (c_str hash) db) db
                in if \<not> pg_tuples_ok result \<or> pg_rows result \<noteq> 1
                   then (Inl (pg_internal ''Could not initialize admin account''), db')
                   else (Inr (pg_user result 0), db'))"

definition pg_current_user ::
    "pg_auth_service \<Rightarrow> pg_auth_env \<Rightarrow> string \<Rightarrow> int database \<Rightarrow> auth_error + auth_user" where
  "pg_current_user A e token db =
     (if token = [] then Inl (AuthError unauthenticated ''Authentication required'')
      else let (result, _) = pg_execute (server e) 0 (Some (Tuples_ok
             (map (user_columns (timestamp_text A))
               (session_rows (c_str (pg_token_hash (crypto A) token)) (clock (server e)) db)), db)) db
           in if \<not> pg_tuples_ok result then Inl (pg_internal ''Could not retrieve session'')
              else if pg_rows result \<noteq> 1
              then Inl (AuthError unauthenticated ''Authentication required'')
              else Inr (pg_user result 0))"

definition pg_logout ::
    "pg_auth_service \<Rightarrow> pg_auth_env \<Rightarrow> string \<Rightarrow> int database \<Rightarrow> (auth_error + unit) \<times> int database" where
  "pg_logout A e token db =
     (if token = [] then (Inr (), db)
      else let (result, db') = pg_execute (server e) 0
             (Some (Command_ok, delete_sessions (c_str (pg_token_hash (crypto A) token)) db)) db
           in if \<not> pg_command_ok result then (Inl (pg_internal ''Could not invalidate session''), db')
              else (Inr (), db'))"

definition pg_auth_provider :: "pg_auth_service \<Rightarrow> (pg_auth_env, int database) auth_provider" where
  "pg_auth_provider A = \<lparr>register_user_op = pg_register_user A, login_op = pg_login A,
     ensure_admin_op = pg_ensure_admin A, current_user_op = pg_current_user A,
     logout_op = pg_logout A\<rparr>"

section \<open>Accounts survive the wire\<close>

definition account :: "(int \<Rightarrow> string) \<Rightarrow> int user_row \<Rightarrow> auth_user" where
  "account ts u = \<lparr>au_id = usr_id u, au_username = usr_username u,
     au_created_at = ts (usr_created_at u), au_is_admin = usr_is_admin u\<rparr>"

definition pg_accounts :: "pg_auth_service \<Rightarrow> int database \<Rightarrow> auth_user list" where
  "pg_accounts A db = map (account (timestamp_text A)) (users db)"

lemma au_is_admin_account [simp]: "au_is_admin (account ts u) = usr_is_admin u"
  by (simp add: account_def)

lemma usr_is_admin_make_admin [simp]: "usr_is_admin (make_admin hash u)"
  by (simp add: make_admin_def)

lemma pg_user_columns:
  "int64_range (usr_id u) \<Longrightarrow> pg_user (Tuples_ok ((user_columns ts u @ xs) # rows)) 0 = account ts u"
  by (simp add: pg_user_def user_columns_def account_def pg_value_Tuples nth_Cons')

lemmas pg_user_columns' = pg_user_columns [where xs = "[]", simplified]

lemma pg_validate_eq: "pg_validate u p = validate_credentials u p"
  unfolding pg_validate_def validate_credentials_def ..

text \<open>At most one account has a given name.\<close>

lemma same_name_unique:
  assumes "wf_auth key db" "u \<in> set (users db)" "same_name key name u"
  shows "filter (same_name key name) (users db) = [u]"
proof -
  have eq: "same_name key name = (\<lambda>v. (key \<circ> usr_username) v = (key \<circ> usr_username) u)"
    using assms(3) by (auto simp: same_name_def)
  have "distinct (map (key \<circ> usr_username) (users db))"
    using assms(1) by (simp add: wf_auth_def)
  then show ?thesis unfolding eq by (rule filter_key) (rule assms(2))
qed

lemma one_same_name:
  assumes "wf_auth key db"
  shows "filter (same_name key name) (users db) = []
    \<or> (\<exists>u \<in> set (users db). filter (same_name key name) (users db) = [u])"
  using same_name_unique [OF assms] by (auto simp: filter_empty_conv)

section \<open>Sessions\<close>

lemma pg_create_session_cases:
  assumes "pg_create_session A e user db = (res, db')"
  obtains (stored) "res = Inr \<lparr>as_user = user, as_token = pg_new_token (crypto A) e\<rparr>"
      "insert_session (session_gap e) (au_id user)
         (c_str (pg_token_hash (crypto A) (pg_new_token (crypto A) e))) (session_clock e)
         (session_clock e + 1000000 * session_lifetime_seconds) db = Some db'"
  | (refused) "res = Inl (pg_internal ''Could not create session'')" "db' = db"
proof -
  obtain result db1 where ex: "pg_execute (server e) 1
      (map_option (Pair Command_ok) (insert_session (session_gap e) (au_id user)
        (c_str (pg_token_hash (crypto A) (pg_new_token (crypto A) e))) (session_clock e)
        (session_clock e + 1000000 * session_lifetime_seconds) db)) db = (result, db1)"
    by fastforce
  show ?thesis
  proof (cases "pg_command_ok result")
    case True
    then show ?thesis
      using pg_execute_good [OF ex] assms ex
      by (intro stored) (auto simp: pg_create_session_def Let_def)
  next
    case False
    moreover have "\<not> pg_tuples_ok result"
      using pg_execute_good [OF ex] by auto
    ultimately show ?thesis
      using pg_execute_bad [OF ex] assms ex
      by (intro refused) (auto simp: pg_create_session_def Let_def)
  qed
qed

lemma pg_create_session_keeps:
  assumes "wf_auth key db" "pg_create_session A e user db = (res, db')"
  shows "wf_auth key db'" "users db' = users db"
  using assms(2)
  by (cases rule: pg_create_session_cases;
      use assms(1) in \<open>auto dest: wf_insert_session insert_session_users\<close>)+

section \<open>Operations by cases\<close>

lemma pg_register_cases:
  assumes "pg_register_user A e name password db = (res, db')"
  obtains (refused) err where "res = Inl err" "db' = db"
  | (added) u db1 where "validate_credentials name password = None"
      "insert_user (lower A) (user_gap e)
         (new_user (clock (server e)) name (c_str (password_hash e password)) False) db = Some (u, db1)"
      "pg_create_session A e (account (timestamp_text A) u) db1 = (res, db')"
proof (cases "validate_credentials name password")
  case (Some err)
  then show ?thesis using assms by (intro refused [of err]) (simp_all add: pg_register_user_def pg_validate_eq)
next
  case None
  then have name: "c_str name = name" using validated_username [of name password] by simp
  let ?insert = "insert_user (lower A) (user_gap e)
      (new_user (clock (server e)) name (c_str (password_hash e password)) False) db"
  let ?hash = "c_str (password_hash e password)"
  obtain result db1 where ex: "pg_execute (server e) 0 (pg_insert_account A e name ?hash db) db
      = (result, db1)" by fastforce
  have tuples: "pg_tuples_ok (fst out)" if "pg_insert_account A e name ?hash db = Some out" for out
    using that by (auto simp: pg_insert_account_def split: if_splits)
  have bad: "db1 = db" if "\<not> pg_tuples_ok result"
    using pg_execute_bad [OF ex that] pg_execute_good [OF ex] tuples that
    by (cases "pg_command_ok result") auto
  have taken: "result = Tuples_ok []" "db1 = db" if "username_taken (lower A) name db" "pg_tuples_ok result"
    using pg_execute_good [OF ex] that by (simp_all add: pg_insert_account_def)
  note def = pg_register_user_def [of A e name password db] pg_validate_eq None name ex
  show ?thesis
  proof (cases "password_hash e password = [] \<or> \<not> pg_tuples_ok result \<or> username_taken (lower A) name db")
    case True
    then have "\<exists>err. res = Inl err \<and> db' = db"
      using assms bad taken
      by (cases "pg_tuples_ok result") (auto simp: def Let_def split: if_splits)
    then show ?thesis using refused by blast
  next
    case False
    then obtain u where ins: "?insert = Some (u, db1)"
      and result: "result = Tuples_ok [user_columns (timestamp_text A) u]"
      using pg_execute_good [OF ex] by (auto simp: pg_insert_account_def)
    show ?thesis
      using None ins
    proof (rule added)
      show "pg_create_session A e (account (timestamp_text A) u) db1 = (res, db')"
        using assms False result pg_user_columns' [OF insert_user_Some(4) [OF ins]]
        by (simp add: def Let_def)
    qed
  qed
qed

lemma pg_login_cases:
  assumes wf: "wf_auth (lower A) db" and login: "pg_login A e name password db = (res, db')"
  obtains (refused) err where "res = Inl err" "db' = db"
      "pg_healthy (server e) \<Longrightarrow> err = AuthError invalid_credentials ''Invalid username or password''"
  | (verified) u where "u \<in> set (users db)" "same_name (lower A) (c_str name) u"
      "pwhash_str_verify (crypto A) (c_str (usr_password_hash u)) password"
      "pg_create_session A e (account (timestamp_text A) u) db = (res, db')"
proof -
  let ?rows = "filter (same_name (lower A) (c_str name)) (users db)"
  obtain result db1 where ex: "pg_execute (server e) 0 (Some (Tuples_ok
      (map (\<lambda>u. user_columns (timestamp_text A) u @ [Some (usr_password_hash u)]) ?rows), db)) db
      = (result, db1)" by fastforce
  note def = pg_login_def [of A e name password db] ex
  have healthy: "pg_tuples_ok result" if "pg_healthy (server e)"
    using ex that by (auto simp: pg_execute_healthy(1))
  show ?thesis
  proof (cases "name = [] \<or> length name > 64 \<or> password = [] \<or> length password > 128 \<or> \<not> pg_tuples_ok result
      \<or> ?rows = []")
    case True
    then have "\<exists>err. res = Inl err \<and> db' = db \<and> (pg_healthy (server e) \<longrightarrow>
        err = AuthError invalid_credentials ''Invalid username or password'')"
      using login pg_execute_good [OF ex] healthy
      by (auto simp: def Let_def split: if_splits)
    then show ?thesis using refused by blast
  next
    case False
    then obtain u where u: "u \<in> set (users db)" "?rows = [u]"
      using one_same_name [OF wf] by blast
    then have name: "same_name (lower A) (c_str name) u" by (auto dest: filter_eq_ConsD)
    have result: "result = Tuples_ok [user_columns (timestamp_text A) u @ [Some (usr_password_hash u)]]"
      using pg_execute_good [OF ex] False u(2) by simp
    have read: "pg_user result 0 = account (timestamp_text A) u" "pg_value result 0 4 = usr_password_hash u"
      "pg_rows result = 1" "pg_tuples_ok result"
      using pg_user_columns [OF wf_auth_id_range [OF wf u(1)]]
      by (simp_all add: result pg_value_Tuples user_columns_def)
    show ?thesis
    proof (cases "pwhash_str_verify (crypto A) (c_str (usr_password_hash u)) password")
      case True
      then show ?thesis
        using login False by (intro verified [OF u(1) name]) (simp_all add: def read)
    next
      case unverified: False
      then show ?thesis using login False by (intro refused) (auto simp: def read)
    qed
  qed
qed

lemma pg_ensure_admin_cases:
  assumes wf: "wf_auth (lower A) db" and call: "pg_ensure_admin A e name password db = (res, db')"
  obtains (refused) err where "res = Inl err" "db' = db"
  | (promoted) u hash where "u \<in> set (users db)" "same_name (lower A) name u"
      "res = Inr (account (timestamp_text A) (make_admin hash u))"
      "db' = db\<lparr>users := update_where (same_name (lower A) name) (make_admin hash) (users db)\<rparr>"
  | (inserted) u hash where "insert_user (lower A) (user_gap e)
        (new_user (clock (server e)) name hash True) db = Some (u, db')"
      "res = Inr (account (timestamp_text A) u)"
proof (cases "validate_credentials name password")
  case (Some err)
  then show ?thesis using call by (intro refused [of err]) (simp_all add: pg_ensure_admin_def pg_validate_eq)
next
  case None
  then have name: "c_str name = name" using validated_username [of name password] by simp
  let ?hash = "c_str (password_hash e password)"
  obtain result db1 where ex: "pg_execute (server e) 0 (pg_upsert_admin A e name ?hash db) db = (result, db1)"
    by fastforce
  note def = pg_ensure_admin_def [of A e name password db] pg_validate_eq None name ex
  have tuples: "pg_tuples_ok (fst out)" if "pg_upsert_admin A e name ?hash db = Some out" for out
    using that by (auto simp: pg_upsert_admin_def split: if_splits)
  show ?thesis
  proof (cases "password_hash e password = [] \<or> \<not> pg_tuples_ok result")
    case True
    then have "\<exists>err. res = Inl err \<and> db' = db"
      using call pg_execute_bad [OF ex] pg_execute_good [OF ex] tuples
      by (cases "pg_command_ok result") (auto simp: def Let_def split: if_splits)
    then show ?thesis using refused by blast
  next
    case False
    then have up: "pg_upsert_admin A e name ?hash db = Some (result, db1)"
      using pg_execute_good [OF ex] by simp
    show ?thesis
    proof (cases "username_taken (lower A) name db")
      case True
      then obtain u where u: "u \<in> set (users db)" "same_name (lower A) name u"
        by (auto simp: username_taken_def list_ex_iff)
      have result: "result = Tuples_ok [user_columns (timestamp_text A) (make_admin ?hash u)]"
        and db1: "db1 = db\<lparr>users := update_where (same_name (lower A) name) (make_admin ?hash) (users db)\<rparr>"
        using up True same_name_unique [OF wf u] by (simp_all add: pg_upsert_admin_def)
      have "int64_range (usr_id (make_admin ?hash u))"
        using wf_auth_id_range [OF wf u(1)] by (simp add: make_admin_def)
      then show ?thesis
        using call False
        by (intro promoted [OF u, of ?hash]) (auto simp: def Let_def pg_user_columns' result db1)
    next
      case free: False
      then obtain u where ins: "insert_user (lower A) (user_gap e)
          (new_user (clock (server e)) name ?hash True) db = Some (u, db1)"
        and "result = Tuples_ok [user_columns (timestamp_text A) u]"
        using up by (auto simp: pg_upsert_admin_def)
      then show ?thesis
        using call False pg_user_columns' [OF insert_user_Some(4) [OF ins]]
        by (intro inserted [of ?hash u]) (auto simp: def Let_def)
    qed
  qed
qed

section \<open>The contract\<close>

lemma users_insert_user:
  "insert_user key gap r db = Some (u, db') \<Longrightarrow> users db' = users db @ [u]"
  by (drule insert_user_Some(2)) simp

lemma new_user_fields [simp]:
  "insert_user key gap (new_user t name hash admin) db = Some (u, db') \<Longrightarrow>
     usr_is_admin u = admin \<and> usr_username u = name \<and> usr_password_hash u = hash"
  by (drule insert_user_Some(1)) (simp add: new_user_def)

lemma pg_current_user_account:
  assumes "wf_auth key db" "pg_current_user A e token db = Inr user"
  shows "\<exists>u. session_rows (c_str (pg_token_hash (crypto A) token)) (clock (server e)) db = [u]
    \<and> u \<in> set (users db) \<and> user = account (timestamp_text A) u"
proof -
  let ?rows = "session_rows (c_str (pg_token_hash (crypto A) token)) (clock (server e)) db"
  obtain result db1 where ex: "pg_execute (server e) 0 (Some (Tuples_ok
      (map (user_columns (timestamp_text A)) ?rows), db)) db = (result, db1)" by fastforce
  have "pg_tuples_ok result" "pg_rows result = 1" and user: "user = pg_user result 0"
    using assms(2) ex by (auto simp: pg_current_user_def split: if_splits)
  then obtain u where u: "?rows = [u]" and result: "result = Tuples_ok [user_columns (timestamp_text A) u]"
    using pg_execute_good [OF ex] by (auto simp: length_Suc_conv)
  have "u \<in> set (users db)" using u session_rows_users by (metis list.set_intros(1))
  then show ?thesis
    using u pg_user_columns' [OF wf_auth_id_range [OF assms(1)]] by (simp add: user result)
qed

lemma pg_current_user_stored:
  "wf_auth key db \<Longrightarrow> pg_current_user A e token db = Inr user \<Longrightarrow> user \<in> set (pg_accounts A db)"
  by (auto dest!: pg_current_user_account simp: pg_accounts_def)

lemma pg_register_contract:
  assumes ok: "wf_auth (lower A) s" and call: "pg_register_user A e name password s = (res, s')"
  shows "wf_auth (lower A) s'"
    and "pg_accounts A s' = pg_accounts A s
       \<or> (\<exists>a. \<not> au_is_admin a \<and> au_username a = name \<and> pg_accounts A s' = pg_accounts A s @ [a])"
    and "res = Inr session \<Longrightarrow> pg_accounts A s' = pg_accounts A s @ [as_user session]"
proof -
  show "wf_auth (lower A) s'"
    using call ok by (cases rule: pg_register_cases) (auto dest: wf_insert_user pg_create_session_keeps(1))
  have *: "users s' = users s \<and> (\<exists>err. res = Inl err)
      \<or> (\<exists>u. users s' = users s @ [u] \<and> \<not> usr_is_admin u \<and> usr_username u = name
           \<and> (\<forall>session. res = Inr session \<longrightarrow> as_user session = account (timestamp_text A) u))"
    using call
  proof (cases rule: pg_register_cases)
    case (added u db1)
    then have "users s' = users s @ [u]" "\<not> usr_is_admin u" "usr_username u = name"
      using pg_create_session_keeps(2) [OF wf_insert_user [OF ok added(2)] added(3)]
      by (simp_all add: users_insert_user)
    moreover have "as_user session = account (timestamp_text A) u" if "res = Inr session" for session
      using added(3) that by (cases rule: pg_create_session_cases) auto
    ultimately show ?thesis by blast
  qed simp
  then show "pg_accounts A s' = pg_accounts A s
       \<or> (\<exists>a. \<not> au_is_admin a \<and> au_username a = name \<and> pg_accounts A s' = pg_accounts A s @ [a])"
    by (auto simp: pg_accounts_def account_def)
  show "pg_accounts A s' = pg_accounts A s @ [as_user session]" if "res = Inr session"
    using * that by (auto simp: pg_accounts_def)
qed

lemma pg_login_contract:
  assumes ok: "wf_auth (lower A) s" and call: "pg_login A e name password s = (res, s')"
  shows "wf_auth (lower A) s'" and "pg_accounts A s' = pg_accounts A s"
    and "res = Inr session \<Longrightarrow> as_user session \<in> set (pg_accounts A s)"
proof -
  have *: "wf_auth (lower A) s' \<and> users s' = users s
      \<and> (\<forall>session. res = Inr session \<longrightarrow> as_user session \<in> set (pg_accounts A s))"
    using ok call
  proof (cases rule: pg_login_cases)
    case (verified u)
    have "as_user session \<in> set (pg_accounts A s)" if "res = Inr session" for session
      using verified(4) that verified(1) by (cases rule: pg_create_session_cases) (auto simp: pg_accounts_def)
    then show ?thesis using pg_create_session_keeps [OF ok verified(4)] by simp
  qed (simp add: ok)
  then show "wf_auth (lower A) s'" "pg_accounts A s' = pg_accounts A s"
    "res = Inr session \<Longrightarrow> as_user session \<in> set (pg_accounts A s)"
    by (auto simp: pg_accounts_def)
qed

lemma pg_ensure_admin_contract:
  assumes ok: "wf_auth (lower A) s" and call: "pg_ensure_admin A e name password s = (res, s')"
  shows "wf_auth (lower A) s'" and "res = Inr user \<Longrightarrow> au_is_admin user \<and> user \<in> set (pg_accounts A s')"
proof -
  have *: "wf_auth (lower A) s'
      \<and> (\<forall>user. res = Inr user \<longrightarrow> au_is_admin user \<and> user \<in> set (pg_accounts A s'))"
    using ok call
  proof (cases rule: pg_ensure_admin_cases)
    case (promoted u hash)
    have "wf_auth (lower A) s'"
      unfolding promoted(4) by (rule wf_update_users [OF ok]) (simp_all add: make_admin_def)
    moreover have "make_admin hash u \<in> set (users s')"
      using promoted(1,2) by (auto simp: promoted(4) set_update_where)
    ultimately show ?thesis
      by (auto simp: promoted(3) pg_accounts_def)
  next
    case (inserted u hash)
    then show ?thesis
      using wf_insert_user [OF ok inserted(1)] users_insert_user [OF inserted(1)] new_user_fields [OF inserted(1)]
      by (auto simp: pg_accounts_def account_def)
  qed (simp add: ok)
  then show "wf_auth (lower A) s'" "res = Inr user \<Longrightarrow> au_is_admin user \<and> user \<in> set (pg_accounts A s')"
    by auto
qed

lemma pg_logout_cases:
  assumes "pg_logout A e token s = (res, s')"
  shows "s' = s \<and> (res = Inr () \<longrightarrow> token = [])
    \<or> s' = delete_sessions (c_str (pg_token_hash (crypto A) token)) s"
  using assms by (auto simp: pg_logout_def pg_execute_def split: if_splits option.splits)

lemmas pg_auth_laws = pg_register_contract(1,2) pg_register_contract(3) [OF _ _ refl]
  pg_login_contract(1,2) pg_login_contract(3) [OF _ _ refl]
  pg_ensure_admin_contract(1) pg_ensure_admin_contract(2) [OF _ _ refl] pg_current_user_stored

interpretation pg_auth: auth_store "pg_auth_provider A" "wf_auth (lower A)" "pg_accounts A" for A
proof (unfold_locales, unfold pg_auth_provider_def auth_provider.simps)
  fix s s' :: "int database" and e token res
  assume ok: "wf_auth (lower A) s" and call: "pg_logout A e token s = (res, s')"
  show "wf_auth (lower A) s'" using pg_logout_cases [OF call] ok by (auto intro: wf_delete_sessions)
  show "pg_accounts A s' = pg_accounts A s" using pg_logout_cases [OF call] by (auto simp: pg_accounts_def)
next
  fix s s' :: "int database" and e e' token user
  assume ok: "wf_auth (lower A) s" and call: "pg_logout A e token s = (Inr (), s')"
  show "pg_current_user A e' token s' \<noteq> Inr user"
  proof (cases "token = []")
    case False
    then have "s' = delete_sessions (c_str (pg_token_hash (crypto A) token)) s"
      using pg_logout_cases [OF call] by auto
    then show ?thesis
      using pg_current_user_account [OF wf_delete_sessions [OF ok]] by fastforce
  qed (simp add: pg_current_user_def)
qed (fact pg_auth_laws)+

section \<open>Properties\<close>

text \<open>
  C13: No privilege escalation: whatever sequence of registrations, logins and logouts is served, an
  administrator recognised afterwards was an administrator account before, and the administrator
  accounts are the same.
\<close>

theorem pg_no_privilege_escalation:
  assumes "wf_auth (lower A) db" "(auth_step (pg_auth_provider A))\<^sup>*\<^sup>* db db'"
  shows "filter au_is_admin (pg_accounts A db') = filter au_is_admin (pg_accounts A db)
    \<and> {user. \<exists>e token. pg_current_user A e token db' = Inr user \<and> has_admin_access user}
        \<subseteq> set (pg_accounts A db)"
  using pg_auth.auth_steps_accounts [OF assms(2,1)] pg_auth.recognised_admin_existed [OF assms(2,1)]
  by (auto simp: pg_auth_provider_def)

text \<open>
  C14: A session works exactly for its lifetime: after a successful login the returned token
  identifies the account on a healthy server until thirty days after the session was stored, and is
  refused from then on.
\<close>

theorem pg_login_session_lifetime:
  assumes wf: "wf_auth (lower A) db" and login: "pg_login A e name password db = (Inr session, db')"
    and token: "as_token session \<noteq> []" and healthy: "pg_healthy (server e')"
  shows "pg_current_user A e' (as_token session) db' =
    (if clock (server e') < session_clock e + 1000000 * (60 * 60 * 24 * 30)
     then Inr (as_user session)
     else Inl (AuthError unauthenticated ''Authentication required''))"
  using wf login
proof (cases rule: pg_login_cases)
  case (verified u)
  from verified(4) show ?thesis
  proof (cases rule: pg_create_session_cases)
    case stored
    have "au_id (account (timestamp_text A) u) = usr_id u" by (simp add: account_def)
    then have rows: "session_rows (c_str (pg_token_hash (crypto A) (pg_new_token (crypto A) e))) t db'
        = (if t < session_clock e + 1000000 * session_lifetime_seconds then [u] else [])" for t
      using session_rows_new [OF wf _ verified(1)] stored by auto
    show ?thesis
      using token stored(1) pg_user_columns' [OF wf_auth_id_range [OF wf verified(1)]]
      by (simp add: pg_current_user_def rows pg_execute_healthy(1) [OF healthy] session_lifetime_seconds_def)
  qed simp
qed simp

text \<open>
  C15: Logging out ends that session and no other: the token is refused by every later check, and a
  token with another hash is judged as before.
\<close>

theorem pg_logout_ends_only_that_session:
  assumes "wf_auth (lower A) db" "pg_logout A e token db = (Inr (), db')"
    and "c_str (pg_token_hash (crypto A) other) \<noteq> c_str (pg_token_hash (crypto A) token)"
  shows "pg_current_user A e' token db' \<noteq> Inr user
    \<and> pg_current_user A e' other db' = pg_current_user A e' other db"
proof
  show "pg_current_user A e' token db' \<noteq> Inr user"
    using pg_auth.logout_ends [of A db e token db'] assms(1,2) by (simp add: pg_auth_provider_def)
  show "pg_current_user A e' other db' = pg_current_user A e' other db"
    using pg_logout_cases [OF assms(2)]
    by (auto simp: pg_current_user_def pg_execute_def session_rows_other [OF assms(3)]
        split: option.splits)
qed

text \<open>
  C17: A login is refused, in one way: on a healthy server, when the password does not verify against
  the stored hash of any account the name denotes -- because there is no such account, or because the
  password is wrong -- the answer is the one error ''Invalid username or password'', no session is
  opened and the database is as before. A caller cannot tell the two cases apart.
\<close>

theorem pg_login_uniform_error:
  assumes "wf_auth (lower A) db" "pg_healthy (server e)"
    and "\<forall>u \<in> set (users db). same_name (lower A) (c_str name) u \<longrightarrow>
           \<not> pwhash_str_verify (crypto A) (c_str (usr_password_hash u)) password"
  shows "pg_login A e name password db
    = (Inl (AuthError invalid_credentials ''Invalid username or password''), db)"
proof (cases "pg_login A e name password db")
  case (Pair res db')
  from assms(1) Pair show ?thesis
  proof (cases rule: pg_login_cases)
    case (refused err)
    then show ?thesis using assms(2) Pair by simp
  next
    case (verified u)
    then show ?thesis using assms(3) by blast
  qed
qed

text \<open>
  C16: Registering and logging in fit together: after a registration the same password, under any
  spelling of the name the server folds to the same key, opens a session for the same account,
  provided the session can be stored and the password verifies against the hash made for it.
\<close>

theorem pg_register_then_login:
  assumes wf: "wf_auth (lower A) db"
    and reg: "pg_register_user A e name password db = (Inr session, db')"
    and verify: "pwhash_str_verify (crypto A) (password_hash e password) password"
    and healthy: "pg_healthy (server e')"
    and name': "lower A (c_str name') = lower A name" "name' \<noteq> []" "length name' \<le> 64"
    and fresh: "c_str (pg_token_hash (crypto A) (pg_new_token (crypto A) e'))
          \<notin> ses_token_hash ` set (sessions db')" "int64_range (sessions_seq db' + 1 + int (session_gap e'))"
  shows "fst (pg_login A e' name' password db')
    = Inr \<lparr>as_user = as_user session, as_token = pg_new_token (crypto A) e'\<rparr>"
  using reg
proof (cases rule: pg_register_cases)
  case (added u db1)
  have wf1: "wf_auth (lower A) db1" by (rule wf_insert_user [OF wf added(2)])
  have users: "users db' = users db @ [u]"
    using pg_create_session_keeps(2) [OF wf1 added(3)] users_insert_user [OF added(2)] by simp
  have wf': "wf_auth (lower A) db'" by (rule pg_create_session_keeps(1) [OF wf1 added(3)])
  have user: "as_user session = account (timestamp_text A) u"
    using added(3) by (cases rule: pg_create_session_cases) auto
  note fields = new_user_fields [OF added(2)]
  have found: "filter (same_name (lower A) (c_str name')) (users db') = [u]"
    using fields name'(1) by (intro same_name_unique [OF wf']) (simp_all add: users same_name_def)
  have read: "pg_user (Tuples_ok [user_columns (timestamp_text A) u @ [Some h]]) 0
      = account (timestamp_text A) u"
    "pg_value (Tuples_ok [user_columns (timestamp_text A) u @ [Some h]]) 0 4 = h" for h
    using pg_user_columns [OF wf_auth_id_range [OF wf']] users
    by (simp_all add: pg_value_Tuples user_columns_def)
  have hash: "c_str (usr_password_hash u) = password_hash e password"
    using fields by (simp add: password_hash_def split: option.splits)
  have id: "usr_id u \<in> usr_id ` set (users db')" by (simp add: users)
  show ?thesis
    using name'(2,3) validated_username [OF added(1)] verify fresh id
    by (simp add: pg_login_def pg_execute_healthy(1) [OF healthy] found read hash user
        pg_create_session_def Let_def insert_session_def account_def)
qed simp

section \<open>An example\<close>

definition sample_sodium :: sodium where
  "sample_sodium = \<lparr>pwhash_str_verify = \<lambda>h p. h = CHR ''h'' # p, generichash = \<lambda>t. t,
     bin2hex = \<lambda>t. t, bin2base64 = \<lambda>t. t\<rparr>"

definition sample_auth :: pg_auth_service where
  "sample_auth = \<lparr>crypto = sample_sodium, lower = \<lambda>n. n, timestamp_text = to_string,
     dummy_password_hash = ''x''\<rparr>"

definition sample_auth_env :: "string \<Rightarrow> pg_auth_env" where
  "sample_auth_env r = \<lparr>server = quiet_server, pwhash_str = \<lambda>p. Some (CHR ''h'' # p),
     random_bytes = r, user_gap = 0, session_gap = 0, session_clock = 8\<rparr>"

definition sample_account :: auth_user where
  "sample_account = \<lparr>au_id = 1, au_username = ''ann'', au_created_at = ''7'', au_is_admin = False\<rparr>"

definition sample_users :: "int database" where
  "sample_users = empty_database\<lparr>users := [\<lparr>usr_id = 1, usr_username = ''ann'',
     usr_password_hash = ''hpassword'', usr_created_at = 7, usr_is_admin = False\<rparr>], users_seq := 1\<rparr>"

definition with_session :: "string \<Rightarrow> int database" where
  "with_session hash = sample_users\<lparr>sessions := [\<lparr>ses_id = 1, ses_user_id = 1, ses_token_hash = hash,
     ses_created_at = 8, ses_expires_at = 2592000000008\<rparr>], sessions_seq := 1\<rparr>"

lemma wf_sample_users: "wf_auth (lower sample_auth) sample_users"
  by (simp add: wf_auth_def sample_users_def empty_database_def int64_range_def)

lemma wf_with_session: "wf_auth (lower sample_auth) (with_session hash)"
  using wf_sample_users by (simp add: wf_auth_def with_session_def sample_users_def)

lemma sample_register:
  "pg_register_user sample_auth (sample_auth_env ''r'') ''ann'' ''password'' empty_database
    = (Inr \<lparr>as_user = sample_account, as_token = ''r''\<rparr>, with_session ''r'')"
  by code_simp

lemma sample_login:
  "pg_login sample_auth (sample_auth_env ''s'') ''ann'' ''password'' sample_users
    = (Inr \<lparr>as_user = sample_account, as_token = ''s''\<rparr>, with_session ''s'')"
  by code_simp

lemma sample_env_healthy: "pg_healthy (server (sample_auth_env r))"
  by (simp add: sample_auth_env_def)

theorem pg_no_privilege_escalation_witness:
  "{user. \<exists>e token. pg_current_user sample_auth e token (with_session ''r'') = Inr user
     \<and> has_admin_access user} = {}"
proof -
  have "auth_step (pg_auth_provider sample_auth) empty_database (with_session ''r'')"
    using auth_step.Register [of "pg_auth_provider sample_auth"] sample_register
    by (simp add: pg_auth_provider_def)
  then have "(auth_step (pg_auth_provider sample_auth))\<^sup>*\<^sup>* empty_database (with_session ''r'')"
    by (rule r_into_rtranclp)
  from pg_no_privilege_escalation [OF wf_auth_empty this]
  show ?thesis by (simp add: pg_accounts_def empty_database_def)
qed

theorem pg_login_session_lifetime_witness:
  "pg_current_user sample_auth (sample_auth_env ''x'') ''s'' (with_session ''s'') = Inr sample_account"
  using pg_login_session_lifetime [OF wf_sample_users sample_login _ sample_env_healthy, of "''x''"]
  by (simp add: sample_auth_env_def quiet_server_def)

theorem pg_logout_ends_only_that_session_witness:
  "pg_logout sample_auth (sample_auth_env ''x'') ''s'' (with_session ''s'')
     = (Inr (), sample_users\<lparr>sessions_seq := 1\<rparr>)
   \<and> pg_current_user sample_auth (sample_auth_env ''x'') ''s'' (sample_users\<lparr>sessions_seq := 1\<rparr>)
       \<noteq> Inr sample_account"
proof -
  have call: "pg_logout sample_auth (sample_auth_env ''x'') ''s'' (with_session ''s'')
     = (Inr (), sample_users\<lparr>sessions_seq := 1\<rparr>)" by code_simp
  moreover have "c_str (pg_token_hash (crypto sample_auth) ''r'')
      \<noteq> c_str (pg_token_hash (crypto sample_auth) ''s'')" by code_simp
  ultimately show ?thesis
    using pg_logout_ends_only_that_session [OF wf_with_session call] by blast
qed

theorem pg_login_uniform_error_witness:
  "pg_login sample_auth (sample_auth_env ''x'') ''bob'' ''password'' sample_users
     = (Inl (AuthError invalid_credentials ''Invalid username or password''), sample_users)
   \<and> pg_login sample_auth (sample_auth_env ''x'') ''ann'' ''Password'' sample_users
     = (Inl (AuthError invalid_credentials ''Invalid username or password''), sample_users)
   \<and> (\<exists>u \<in> set (users sample_users). same_name (lower sample_auth) (c_str ''ann'') u)"
proof (intro conjI)
  show "\<exists>u \<in> set (users sample_users). same_name (lower sample_auth) (c_str ''ann'') u"
    by code_simp
qed (rule pg_login_uniform_error [OF wf_sample_users sample_env_healthy], code_simp)+

theorem pg_register_then_login_witness:
  "fst (pg_login sample_auth (sample_auth_env ''s'') ''ann'' ''password'' (with_session ''r''))
    = Inr \<lparr>as_user = sample_account, as_token = ''s''\<rparr>"
proof -
  have facts: "pwhash_str_verify (crypto sample_auth) (password_hash (sample_auth_env ''r'') ''password'') ''password''"
    "lower sample_auth (c_str ''ann'') = lower sample_auth ''ann''"
    "c_str (pg_token_hash (crypto sample_auth) (pg_new_token (crypto sample_auth) (sample_auth_env ''s'')))
       \<notin> ses_token_hash ` set (sessions (with_session ''r''))"
    "int64_range (sessions_seq (with_session ''r'') + 1 + int (session_gap (sample_auth_env ''s'')))"
    "pg_new_token (crypto sample_auth) (sample_auth_env ''s'') = ''s''"
    by code_simp+
  show ?thesis
    using pg_register_then_login [OF wf_auth_empty sample_register facts(1) sample_env_healthy
        facts(2) _ _ facts(3,4)] facts(5) by simp
qed

end
