(* ===== verification/Sqlite_Auth.thy ===== *)
theory Sqlite_Auth
  imports Auth_Provider Sqlite_Engine
begin

text \<open>
  \<^verbatim>\<open>AuthService\<close> (\<^verbatim>\<open>backend/src/auth-service.cpp\<close>), the SQLite
  implementation of \<^verbatim>\<open>AuthProvider\<close>: its member functions with each of their error
  returns, and the interpretation of \<open>auth_store\<close> on them. Opening the file and applying the
  migrations is not modelled.

  The column \<^verbatim>\<open>username\<close> has the collation \<^verbatim>\<open>NOCASE\<close>, which folds the
  ASCII letters only (\<open>nocase\<close>). Time stamps are ISO 8601 texts and are compared as texts.
  \<open>sqlite_auth_env\<close> is what the outside decides during one call: the engine, the salted hash
  of a password, the random bytes and the text of the expiry date the engine computes. Statements of
  a call are numbered from 0.
\<close>

section \<open>The object and its environment\<close>

record sqlite_auth_service =
  sq_crypto :: sodium
  sq_dummy_password_hash :: string

record sqlite_auth_env =
  engine :: sqlite_env
  sq_pwhash_str :: "string \<Rightarrow> string option"
  sq_random_bytes :: string
  session_expiry :: string

definition ascii_lower :: "char \<Rightarrow> char" where
  "ascii_lower c = (if isupper c then char_of ((of_char c :: nat) + 32) else c)"

definition nocase :: "string \<Rightarrow> string" where
  "nocase s = map ascii_lower s"

definition internal_error :: "string \<Rightarrow> auth_error" where
  "internal_error m = AuthError auth_internal m"

definition token_hash :: "sodium \<Rightarrow> string \<Rightarrow> string" where
  "token_hash k token = c_str (bin2hex k (generichash k token))"

definition new_token :: "sodium \<Rightarrow> sqlite_auth_env \<Rightarrow> string" where
  "new_token k e = c_str (bin2base64 k (sq_random_bytes e))"

definition read_user :: "string user_row \<Rightarrow> auth_user" where
  "read_user u = \<lparr>au_id = usr_id u, au_username = usr_username u, au_created_at = usr_created_at u,
     au_is_admin = usr_is_admin u\<rparr>"

section \<open>Operations\<close>

definition create_session ::
    "sqlite_auth_service \<Rightarrow> sqlite_auth_env \<Rightarrow> auth_user \<Rightarrow> string database
       \<Rightarrow> (auth_error + auth_session) \<times> string database" where
  "create_session A e user db =
     (let token = new_token (sq_crypto A) e; hashed_token = token_hash (sq_crypto A) token
      in case prepare_fault (engine e) 1 of Some m \<Rightarrow> (Inl (internal_error m), db)
       | None \<Rightarrow> (case sqlite_step (engine e) 1 (map_option (Pair (None :: unit option))
              (insert_session 0 (au_id user) hashed_token (now (engine e)) (session_expiry e) db)) db of
            (Done, db') \<Rightarrow> (Inr \<lparr>as_user = user, as_token = token\<rparr>, db')
          | (_, db') \<Rightarrow> (Inl (internal_error ''Could not create session''), db')))"

text \<open>
  A failed insertion reports a duplicate when the extended error code is
  \<^verbatim>\<open>SQLITE_CONSTRAINT_UNIQUE\<close>, that is when the name is taken and nothing else failed.
\<close>

definition register_user ::
    "sqlite_auth_service \<Rightarrow> sqlite_auth_env \<Rightarrow> string \<Rightarrow> string \<Rightarrow> string database
       \<Rightarrow> (auth_error + auth_session) \<times> string database" where
  "register_user A e username password db =
     (case validate_credentials username password of Some err \<Rightarrow> (Inl err, db)
      | None \<Rightarrow>
     (case sq_pwhash_str e password of None \<Rightarrow> (Inl (internal_error ''Password hashing failed''), db)
      | Some password_hash \<Rightarrow>
     (case prepare_fault (engine e) 0 of Some m \<Rightarrow> (Inl (internal_error m), db)
      | None \<Rightarrow>
     (case sqlite_step (engine e) 0 (map_option (\<lambda>(u, d). (Some u, d)) (insert_user nocase 0
             (new_user (now (engine e)) username (c_str password_hash) False) db)) db of
        (Row u, db') \<Rightarrow> create_session A e (read_user u) db'
      | (_, db') \<Rightarrow>
          (if \<not> step_fault (engine e) 0 0 \<and> username_taken nocase username db
           then (Inl (AuthError duplicate_user ''Username is already registered''), db')
           else (Inl (internal_error ''Could not create user''), db'))))))"

definition login ::
    "sqlite_auth_service \<Rightarrow> sqlite_auth_env \<Rightarrow> string \<Rightarrow> string \<Rightarrow> string database
       \<Rightarrow> (auth_error + auth_session) \<times> string database" where
  "login A e username password db =
     (if username = [] \<or> length username > 64 \<or> password = [] \<or> length password > 128
      then (Inl (AuthError invalid_credentials ''Invalid username or password''), db)
      else case prepare_fault (engine e) 0 of Some m \<Rightarrow> (Inl (internal_error m), db)
      | None \<Rightarrow>
        let found = (case sqlite_step (engine e) 0
                (Some (List.find (same_name nocase username) (users db), db)) db of
              (Row u, _) \<Rightarrow> Some u | _ \<Rightarrow> None);
            password_hash = (case found of Some u \<Rightarrow> usr_password_hash u
                | None \<Rightarrow> sq_dummy_password_hash A);
            password_matches = pwhash_str_verify (sq_crypto A) (c_str password_hash) password
        in case found of
             Some u \<Rightarrow> if password_matches then create_session A e (read_user u) db
               else (Inl (AuthError invalid_credentials ''Invalid username or password''), db)
           | None \<Rightarrow> (Inl (AuthError invalid_credentials ''Invalid username or password''), db))"

definition promote :: "string \<Rightarrow> 't user_row \<Rightarrow> 't user_row" where
  "promote hash u = u\<lparr>usr_password_hash := hash, usr_is_admin := True\<rparr>"

text \<open>
  \<^verbatim>\<open>INSERT \<dots> ON CONFLICT(username) DO UPDATE \<dots> WHERE users.is_admin = 0 RETURNING\<close>: an
  account that is an administrator already is left alone and no row is returned.
\<close>

definition plain_account :: "string \<Rightarrow> 't user_row \<Rightarrow> bool" where
  "plain_account name u \<longleftrightarrow> same_name nocase name u \<and> \<not> usr_is_admin u"

definition upsert_admin ::
    "sqlite_auth_env \<Rightarrow> string \<Rightarrow> string \<Rightarrow> string database
       \<Rightarrow> (string user_row option \<times> string database) option" where
  "upsert_admin e name hash db =
     (if username_taken nocase name db
      then Some (map_option (promote hash) (List.find (plain_account name) (users db)),
             db\<lparr>users := update_where (plain_account name) (promote hash) (users db)\<rparr>)
      else map_option (\<lambda>(u, d). (Some u, d))
             (insert_user nocase 0 (new_user (now (engine e)) name hash True) db))"

definition existing_admin :: "sqlite_auth_env \<Rightarrow> string \<Rightarrow> string database \<Rightarrow> auth_error + auth_user" where
  "existing_admin e username db =
     (case prepare_fault (engine e) 1 of Some m \<Rightarrow> Inl (internal_error m)
      | None \<Rightarrow> (case sqlite_step (engine e) 1
            (Some (List.find (\<lambda>u. same_name nocase username u \<and> usr_is_admin u) (users db), db)) db of
          (Row u, _) \<Rightarrow> Inr (read_user u)
        | _ \<Rightarrow> Inl (internal_error ''Could not initialize admin account'')))"

definition ensure_admin ::
    "sqlite_auth_service \<Rightarrow> sqlite_auth_env \<Rightarrow> string \<Rightarrow> string \<Rightarrow> string database
       \<Rightarrow> (auth_error + auth_user) \<times> string database" where
  "ensure_admin A e username password db =
     (case validate_credentials username password of Some err \<Rightarrow> (Inl err, db)
      | None \<Rightarrow>
     (case sq_pwhash_str e password of
        None \<Rightarrow> (Inl (internal_error ''Admin password hashing failed''), db)
      | Some password_hash \<Rightarrow>
     (case prepare_fault (engine e) 0 of Some m \<Rightarrow> (Inl (internal_error m), db)
      | None \<Rightarrow>
     (case sqlite_step (engine e) 0 (upsert_admin e username (c_str password_hash) db) db of
        (Row u, db') \<Rightarrow> (Inr (read_user u), db')
      | (_, db') \<Rightarrow> (existing_admin e username db', db')))))"

definition sqlite_current_user ::
    "sqlite_auth_service \<Rightarrow> sqlite_auth_env \<Rightarrow> string \<Rightarrow> string database \<Rightarrow> auth_error + auth_user" where
  "sqlite_current_user A e token db =
     (if token = [] then Inl (AuthError unauthenticated ''Authentication required'')
      else case prepare_fault (engine e) 0 of Some m \<Rightarrow> Inl (internal_error m)
      | None \<Rightarrow> (case sqlite_step (engine e) 0
            (Some (case session_rows (token_hash (sq_crypto A) token) (now (engine e)) db of
                     [] \<Rightarrow> None | u # _ \<Rightarrow> Some u, db)) db of
          (Row u, _) \<Rightarrow> Inr (read_user u)
        | _ \<Rightarrow> Inl (AuthError unauthenticated ''Authentication required'')))"

definition sqlite_logout ::
    "sqlite_auth_service \<Rightarrow> sqlite_auth_env \<Rightarrow> string \<Rightarrow> string database
       \<Rightarrow> (auth_error + unit) \<times> string database" where
  "sqlite_logout A e token db =
     (if token = [] then (Inr (), db)
      else case prepare_fault (engine e) 0 of Some m \<Rightarrow> (Inl (internal_error m), db)
      | None \<Rightarrow> (case sqlite_step (engine e) 0
            (Some (None :: unit option, delete_sessions (token_hash (sq_crypto A) token) db)) db of
          (Done, db') \<Rightarrow> (Inr (), db')
        | (_, db') \<Rightarrow> (Inl (internal_error ''Could not invalidate session''), db')))"

definition sqlite_auth_provider :: "sqlite_auth_service \<Rightarrow> (sqlite_auth_env, string database) auth_provider" where
  "sqlite_auth_provider A = \<lparr>register_user_op = register_user A, login_op = login A,
     ensure_admin_op = ensure_admin A, current_user_op = sqlite_current_user A,
     logout_op = sqlite_logout A\<rparr>"

section \<open>Operations by cases\<close>

definition sqlite_accounts :: "string database \<Rightarrow> auth_user list" where
  "sqlite_accounts db = map read_user (users db)"

lemma au_is_admin_read_user [simp]: "au_is_admin (read_user u) = usr_is_admin u"
  by (simp add: read_user_def)

lemma create_session_cases:
  assumes "create_session A e user db = (res, db')"
  obtains (stored) "res = Inr \<lparr>as_user = user, as_token = new_token (sq_crypto A) e\<rparr>"
      "insert_session 0 (au_id user) (token_hash (sq_crypto A) (new_token (sq_crypto A) e))
         (now (engine e)) (session_expiry e) db = Some db'"
  | (refused) err where "res = Inl err" "db' = db"
  using assms
  by (auto simp: create_session_def sqlite_step_def Let_def
      split: option.splits if_splits prod.splits step_result.splits)

lemma create_session_keeps:
  assumes "wf_auth key db" "create_session A e user db = (res, db')"
  shows "wf_auth key db'" "users db' = users db" "res = Inr session \<Longrightarrow> as_user session = user"
  using assms(2)
  by (cases rule: create_session_cases;
      use assms(1) in \<open>auto dest: wf_insert_session insert_session_users\<close>)+

lemma register_cases:
  assumes "register_user A e name password db = (res, db')"
  obtains (refused) err where "res = Inl err" "db' = db"
  | (added) u db1 hash where "insert_user nocase 0 (new_user (now (engine e)) name hash False) db
        = Some (u, db1)"
      "create_session A e (read_user u) db1 = (res, db')"
  using assms
  by (auto simp: register_user_def sqlite_step_def
      split: option.splits if_splits prod.splits step_result.splits)

lemma login_cases:
  assumes "login A e name password db = (res, db')"
  obtains (refused) err where "res = Inl err" "db' = db"
  | (verified) u where "u \<in> set (users db)" "create_session A e (read_user u) db = (res, db')"
  using assms
  by (auto simp: login_def sqlite_step_def Let_def dest: find_Some_iff_in
      split: option.splits if_splits prod.splits step_result.splits)

lemma ensure_admin_cases:
  assumes "ensure_admin A e name password db = (res, db')"
  obtains (refused) err where "res = Inl err" "db' = db"
  | (kept) u where "u \<in> set (users db)" "usr_is_admin u" "res = Inr (read_user u)" "db' = db"
  | (upserted) hash eff where "upsert_admin e name hash db = Some (eff, db')"
      "res = existing_admin e name db' \<or> (\<exists>u. eff = Some u \<and> res = Inr (read_user u))"
proof -
  show ?thesis
  proof (cases "res = existing_admin e name db' \<and> db' = db")
    case True
    then show ?thesis
      using refused kept
      by (auto simp: existing_admin_def sqlite_step_def dest!: find_Some_iff_in
          split: option.splits if_splits)
  next
    case False
    then show ?thesis
      using assms refused upserted
      by (fastforce simp: ensure_admin_def sqlite_step_def
          split: option.splits if_splits prod.splits step_result.splits)
  qed
qed

section \<open>The contract\<close>

lemma promote_fields [simp]:
  "usr_id (promote hash u) = usr_id u" "usr_username (promote hash u) = usr_username u"
  "usr_is_admin (promote hash u)"
  by (simp_all add: promote_def)

lemma upsert_admin_keeps:
  assumes wf: "wf_auth nocase db" and up: "upsert_admin e name hash db = Some (eff, db')"
  shows "wf_auth nocase db'" and "eff = Some u \<Longrightarrow> u \<in> set (users db') \<and> usr_is_admin u"
proof -
  have "wf_auth nocase db' \<and> (\<forall>u. eff = Some u \<longrightarrow> u \<in> set (users db') \<and> usr_is_admin u)"
  proof (cases "username_taken nocase name db")
    case True
    then have db': "db' = db\<lparr>users := update_where (plain_account name) (promote hash) (users db)\<rparr>"
      and eff: "eff = map_option (promote hash) (List.find (plain_account name) (users db))"
      using up by (auto simp: upsert_admin_def)
    have "wf_auth nocase db'" unfolding db' by (rule wf_update_users [OF wf]) simp_all
    then show ?thesis by (auto simp: eff db' set_update_where dest!: find_Some_iff_in)
  next
    case False
    then obtain v where ins: "insert_user nocase 0 (new_user (now (engine e)) name hash True) db = Some (v, db')"
      and eff: "eff = Some v" using up by (auto simp: upsert_admin_def)
    have "users db' = users db @ [v]" "usr_is_admin v"
      using insert_user_Some(1,2) [OF ins] by (simp_all add: new_user_def)
    then show ?thesis using wf_insert_user [OF wf ins] eff by simp
  qed
  then show "wf_auth nocase db'" "eff = Some u \<Longrightarrow> u \<in> set (users db') \<and> usr_is_admin u" by auto
qed

lemma existing_admin_account:
  "existing_admin e name db = Inr user \<Longrightarrow> au_is_admin user \<and> user \<in> set (sqlite_accounts db)"
  by (auto simp: existing_admin_def sqlite_step_def sqlite_accounts_def dest!: find_Some_iff_in
      split: option.splits if_splits)

lemma ensure_admin_contract:
  assumes ok: "wf_auth nocase s" and call: "ensure_admin A e name password s = (res, s')"
  shows "wf_auth nocase s'" and "res = Inr user \<Longrightarrow> au_is_admin user \<and> user \<in> set (sqlite_accounts s')"
proof -
  have "wf_auth nocase s' \<and> (\<forall>user. res = Inr user \<longrightarrow> au_is_admin user \<and> user \<in> set (sqlite_accounts s'))"
    using call
  proof (cases rule: ensure_admin_cases)
    case (upserted hash eff)
    then show ?thesis
      using upsert_admin_keeps [OF ok upserted(1)] existing_admin_account [of e name s']
      by (auto simp: sqlite_accounts_def)
  qed (auto simp: ok sqlite_accounts_def)
  then show "wf_auth nocase s'" "res = Inr user \<Longrightarrow> au_is_admin user \<and> user \<in> set (sqlite_accounts s')"
    by auto
qed

lemma register_contract:
  assumes ok: "wf_auth nocase s" and call: "register_user A e name password s = (res, s')"
  shows "wf_auth nocase s'"
    and "sqlite_accounts s' = sqlite_accounts s
       \<or> (\<exists>a. \<not> au_is_admin a \<and> au_username a = name \<and> sqlite_accounts s' = sqlite_accounts s @ [a])"
    and "res = Inr session \<Longrightarrow> sqlite_accounts s' = sqlite_accounts s @ [as_user session]"
proof -
  have "wf_auth nocase s' \<and> (users s' = users s \<and> (\<exists>err. res = Inl err)
      \<or> (\<exists>u. users s' = users s @ [u] \<and> \<not> usr_is_admin u \<and> usr_username u = name
           \<and> (\<forall>session. res = Inr session \<longrightarrow> as_user session = read_user u)))"
    using call
  proof (cases rule: register_cases)
    case (added u db1 hash)
    have "users db1 = users s @ [u]" "\<not> usr_is_admin u" "usr_username u = name"
      using insert_user_Some(1,2) [OF added(1)] by (simp_all add: new_user_def)
    then show ?thesis
      using create_session_keeps [OF wf_insert_user [OF ok added(1)] added(2)] by auto
  qed (simp add: ok)
  then show "wf_auth nocase s'"
    "sqlite_accounts s' = sqlite_accounts s
       \<or> (\<exists>a. \<not> au_is_admin a \<and> au_username a = name \<and> sqlite_accounts s' = sqlite_accounts s @ [a])"
    "res = Inr session \<Longrightarrow> sqlite_accounts s' = sqlite_accounts s @ [as_user session]"
    by (auto simp: sqlite_accounts_def read_user_def)
qed

lemma login_contract:
  assumes ok: "wf_auth nocase s" and call: "login A e name password s = (res, s')"
  shows "wf_auth nocase s'" and "sqlite_accounts s' = sqlite_accounts s"
    and "res = Inr session \<Longrightarrow> as_user session \<in> set (sqlite_accounts s)"
proof -
  have "wf_auth nocase s' \<and> users s' = users s
      \<and> (\<forall>session. res = Inr session \<longrightarrow> as_user session \<in> set (sqlite_accounts s))"
    using call
  proof (cases rule: login_cases)
    case (verified u)
    then show ?thesis using create_session_keeps [OF ok verified(2)] by (auto simp: sqlite_accounts_def)
  qed (simp add: ok)
  then show "wf_auth nocase s'" "sqlite_accounts s' = sqlite_accounts s"
    "res = Inr session \<Longrightarrow> as_user session \<in> set (sqlite_accounts s)"
    by (auto simp: sqlite_accounts_def)
qed

lemma sqlite_current_user_stored:
  "sqlite_current_user A e token s = Inr user \<Longrightarrow> user \<in> set (sqlite_accounts s)"
  by (cases "session_rows (token_hash (sq_crypto A) token) (now (engine e)) s")
    (auto simp: sqlite_current_user_def sqlite_step_def sqlite_accounts_def
      intro!: imageI session_rows_users [of _ "token_hash (sq_crypto A) token" "now (engine e)"]
      split: option.splits if_splits)

lemma sqlite_logout_cases:
  assumes "sqlite_logout A e token s = (res, s')"
  shows "s' = s \<and> (res = Inr () \<longrightarrow> token = []) \<or> s' = delete_sessions (token_hash (sq_crypto A) token) s"
  using assms by (auto simp: sqlite_logout_def sqlite_step_def split: option.splits if_splits)

lemma sqlite_logout_contract:
  assumes "wf_auth nocase s" "sqlite_logout A e token s = (res, s')"
  shows "wf_auth nocase s'" and "sqlite_accounts s' = sqlite_accounts s"
    and "res = Inr () \<Longrightarrow> sqlite_current_user A e' token s' \<noteq> Inr user"
  using sqlite_logout_cases [OF assms(2)] assms(1)
  by (auto intro: wf_delete_sessions
      simp: sqlite_accounts_def sqlite_current_user_def sqlite_step_def split: option.splits if_splits)

lemmas sqlite_auth_laws = register_contract(1,2) register_contract(3) [OF _ _ refl]
  login_contract(1,2) login_contract(3) [OF _ _ refl]
  ensure_admin_contract(1) ensure_admin_contract(2) [OF _ _ refl] sqlite_current_user_stored
  sqlite_logout_contract(1,2) sqlite_logout_contract(3) [OF _ _ refl]

interpretation sqlite_auth: auth_store "sqlite_auth_provider A" "wf_auth nocase" sqlite_accounts for A
proof (unfold_locales, unfold sqlite_auth_provider_def auth_provider.simps)
qed ((fact sqlite_auth_laws)+, rule sqlite_current_user_stored, assumption, fact sqlite_auth_laws)

section \<open>Properties\<close>

text \<open>
  On SQLite, as on PostgreSQL, no sequence of registrations, logins and logouts changes the
  administrator accounts, and whoever is recognised as an administrator afterwards was one before.
\<close>

lemma sqlite_no_privilege_escalation:
  assumes "wf_auth nocase db" "(auth_step (sqlite_auth_provider A))\<^sup>*\<^sup>* db db'"
  shows "filter au_is_admin (sqlite_accounts db') = filter au_is_admin (sqlite_accounts db)
    \<and> {user. \<exists>e token. sqlite_current_user A e token db' = Inr user \<and> has_admin_access user}
        \<subseteq> set (sqlite_accounts db)"
  using sqlite_auth.auth_steps_accounts [OF assms(2,1)] sqlite_auth.recognised_admin_existed [OF assms(2,1)]
  by (auto simp: sqlite_auth_provider_def)

text \<open>
  On SQLite the start-up password is not synchronized: for an account that is an administrator
  already, \<^verbatim>\<open>ensure_admin\<close> answers with the account and changes nothing, whatever
  password it is given.
\<close>

lemma sqlite_ensure_admin_keeps_password:
  assumes wf: "wf_auth nocase db" and healthy: "sqlite_healthy (engine e)"
    and valid: "validate_credentials name password = None" "sq_pwhash_str e password = Some hash"
    and admin: "u \<in> set (users db)" "same_name nocase name u" "usr_is_admin u"
  shows "ensure_admin A e name password db = (Inr (read_user u), db)"
proof -
  have unique: "v = u" if "v \<in> set (users db)" "same_name nocase name v" for v
    using wf that admin distinct_keys_eq [of "nocase \<circ> usr_username" "users db" v u]
    by (simp add: wf_auth_def same_name_def)
  have not_plain: "\<not> plain_account name v" if "v \<in> set (users db)" for v
    using unique [OF that] admin(3) unfolding plain_account_def by blast
  then have none: "List.find (plain_account name) (users db) = None"
    by (simp add: find_None_iff)
  have same: "update_where (plain_account name) (promote h) (users db) = users db" for h
    by (rule update_where_none) (rule not_plain)
  have "upsert_admin e name h db = Some (None, db)" for h
    using admin none same by (auto simp: upsert_admin_def username_taken_def list_ex_iff)
  moreover have "List.find (\<lambda>u. same_name nocase name u \<and> usr_is_admin u) (users db) = Some u"
    by (rule find_unique) (use admin unique in blast)+
  ultimately show ?thesis
    using healthy valid
    by (simp add: ensure_admin_def existing_admin_def sqlite_step_def sqlite_healthy_def)
qed

section \<open>An example\<close>

definition sqlite_sample_env :: sqlite_auth_env where
  "sqlite_sample_env = \<lparr>engine = quiet_engine, sq_pwhash_str = \<lambda>p. Some (CHR ''h'' # p),
     sq_random_bytes = ''r'', session_expiry = ''2026-01-31''\<rparr>"

definition sqlite_sample_service :: sqlite_auth_service where
  "sqlite_sample_service = \<lparr>sq_crypto = \<lparr>pwhash_str_verify = \<lambda>h p. h = CHR ''h'' # p,
     generichash = \<lambda>t. t, bin2hex = \<lambda>t. t, bin2base64 = \<lambda>t. t\<rparr>, sq_dummy_password_hash = ''x''\<rparr>"

definition sqlite_sample_user :: "bool \<Rightarrow> string user_row" where
  "sqlite_sample_user admin = \<lparr>usr_id = 1, usr_username = ''ann'', usr_password_hash = ''hpassword'',
     usr_created_at = ''2026-01-01'', usr_is_admin = admin\<rparr>"

definition sqlite_sample_database :: "bool \<Rightarrow> string session_row list \<Rightarrow> string database" where
  "sqlite_sample_database admin ss =
     empty_database\<lparr>users := [sqlite_sample_user admin], users_seq := 1, sessions := ss,
       sessions_seq := int (length ss)\<rparr>"

definition sqlite_sample_session :: "string session_row" where
  "sqlite_sample_session = \<lparr>ses_id = 1, ses_user_id = 1, ses_token_hash = ''r'',
     ses_created_at = ''2026-01-01'', ses_expires_at = ''2026-01-31''\<rparr>"

end
