(* ===== verification/Problem_Repository.thy ===== *)
theory Problem_Repository
  imports Core_Types
begin

text \<open>
  The abstract class \<^verbatim>\<open>ProblemRepository\<close> of \<^verbatim>\<open>problem-repository.h\<close> as a
  record of operations, its contract as the locale \<open>problem_store\<close>, and its first client,
  \<^verbatim>\<open>ProblemService\<close> (\<^verbatim>\<open>problem-service.cpp\<close>). The theories
  \<^verbatim>\<open>Sqlite_Problems\<close> and \<^verbatim>\<open>Pg_Problems\<close> implement and interpret it.

  The contract is a refinement: \<open>catalogue s\<close> maps an id to the stored problem with all its
  hidden tests, and every operation acts on that map as the specification below says. \<open>storable\<close>
  says that the JSON columns of a problem read back as they were written, \<open>isolated\<close> that no
  other connection writes between the two statements of a read.
\<close>

section \<open>The virtual functions\<close>

record ('e, 's) problem_repository =
  list_enabled_op :: "'e \<Rightarrow> 's \<Rightarrow> problem_repository_error + problem list"
  find_enabled_op :: "'e \<Rightarrow> string \<Rightarrow> 's \<Rightarrow> problem_repository_error + problem option"
  find_for_judging_op :: "'e \<Rightarrow> string \<Rightarrow> 's \<Rightarrow> problem_repository_error + problem option"
  list_all_problems_op :: "'e \<Rightarrow> 's \<Rightarrow> problem_repository_error + problem list"
  find_any_op :: "'e \<Rightarrow> string \<Rightarrow> 's \<Rightarrow> problem_repository_error + problem option"
  create_problem_op :: "'e \<Rightarrow> problem \<Rightarrow> 's \<Rightarrow> (problem_repository_error + problem) \<times> 's"
  update_problem_op :: "'e \<Rightarrow> problem \<Rightarrow> 's \<Rightarrow> (problem_repository_error + problem) \<times> 's"
  remove_problem_op :: "'e \<Rightarrow> string \<Rightarrow> 's \<Rightarrow> (problem_repository_error + bool) \<times> 's"
  create_test_op :: "'e \<Rightarrow> string \<Rightarrow> problem_test_case \<Rightarrow> 's
      \<Rightarrow> (problem_repository_error + problem_test_case) \<times> 's"
  update_test_op :: "'e \<Rightarrow> string \<Rightarrow> problem_test_case \<Rightarrow> 's
      \<Rightarrow> (problem_repository_error + problem_test_case) \<times> 's"
  remove_test_op :: "'e \<Rightarrow> string \<Rightarrow> int64 \<Rightarrow> 's \<Rightarrow> (problem_repository_error + bool) \<times> 's"

section \<open>The specification\<close>

text \<open>What the readers show of a stored problem.\<close>

definition without_tests :: "problem \<Rightarrow> problem" where
  "without_tests p = p\<lparr>pb_hidden_tests := []\<rparr>"

definition judging_view :: "problem \<Rightarrow> problem" where
  "judging_view p = p\<lparr>pb_hidden_tests := filter tc_enabled (pb_hidden_tests p)\<rparr>"

text \<open>Texts travel to or from the database as C strings.\<close>

definition cut_problem :: "problem \<Rightarrow> problem" where
  "cut_problem p = p\<lparr>pb_title := c_str (pb_title p), pb_description := c_str (pb_description p),
     pb_input_format := c_str (pb_input_format p), pb_output_format := c_str (pb_output_format p)\<rparr>"

definition cut_test :: "problem_test_case \<Rightarrow> problem_test_case" where
  "cut_test t = t\<lparr>tc_input := c_str (tc_input t), tc_expected_output := c_str (tc_expected_output t)\<rparr>"

text \<open>Hidden tests are kept in the order of their position.\<close>

definition in_order :: "problem_test_case list \<Rightarrow> problem_test_case list" where
  "in_order ts = sort_key (\<lambda>t. (tc_position t, tc_id t)) ts"

type_synonym catalogue = "string \<Rightarrow> problem option"

definition spec_create :: "problem \<Rightarrow> catalogue \<Rightarrow> catalogue" where
  "spec_create p c = c(pb_id p \<mapsto> (cut_problem p)\<lparr>pb_revision := 1, pb_hidden_tests := []\<rparr>)"

definition spec_update :: "problem \<Rightarrow> problem \<Rightarrow> catalogue \<Rightarrow> catalogue" where
  "spec_update old p c = c(pb_id p \<mapsto> (cut_problem p)\<lparr>pb_revision := pb_revision p + 1,
     pb_hidden_tests := pb_hidden_tests old\<rparr>)"

definition spec_tests :: "string \<Rightarrow> (problem_test_case list \<Rightarrow> problem_test_case list) \<Rightarrow> catalogue \<Rightarrow> catalogue" where
  "spec_tests i f c = c(i := map_option (\<lambda>p. p\<lparr>pb_hidden_tests := f (pb_hidden_tests p)\<rparr>) (c i))"

definition replace_test :: "problem_test_case \<Rightarrow> problem_test_case list \<Rightarrow> problem_test_case list" where
  "replace_test t ts = in_order (map (\<lambda>u. if tc_id u = tc_id t then t else u) ts)"

locale problem_store =
  fixes repo :: "('e, 's) problem_repository"
    and ok :: "'s \<Rightarrow> bool"
    and catalogue :: "'s \<Rightarrow> catalogue"
    and storable :: "'e \<Rightarrow> problem \<Rightarrow> bool"
    and isolated :: "'e \<Rightarrow> 's \<Rightarrow> bool"
  assumes find_any_finds:
      "ok s \<Longrightarrow> isolated e s \<Longrightarrow> nul \<notin> set i \<Longrightarrow> find_any_op repo e i s = Inr found \<Longrightarrow> found = catalogue s i"
    and find_for_judging_finds:
      "ok s \<Longrightarrow> isolated e s \<Longrightarrow> nul \<notin> set i \<Longrightarrow> find_for_judging_op repo e i s = Inr found \<Longrightarrow>
         found = map_option judging_view (catalogue s i)"
    and find_enabled_finds:
      "ok s \<Longrightarrow> nul \<notin> set i \<Longrightarrow> find_enabled_op repo e i s = Inr found \<Longrightarrow>
         found = (case catalogue s i of Some p \<Rightarrow> if pb_enabled p then Some (without_tests p) else None
                  | None \<Rightarrow> None)"
    and list_all_lists:
      "ok s \<Longrightarrow> list_all_problems_op repo e s = Inr ps \<Longrightarrow>
         distinct (map pb_id ps) \<and> set ps = without_tests ` ran (catalogue s)"
    and list_enabled_lists:
      "ok s \<Longrightarrow> list_enabled_op repo e s = Inr ps \<Longrightarrow>
         distinct (map pb_id ps) \<and> set ps = without_tests ` {p \<in> ran (catalogue s). pb_enabled p}"
    and create_refines:
      "ok s \<Longrightarrow> nul \<notin> set (pb_id p) \<Longrightarrow> create_problem_op repo e p s = (res, s') \<Longrightarrow> ok s' \<and>
         (case res of
            Inl err \<Rightarrow> s' = s
          | Inr created \<Rightarrow> catalogue s (pb_id p) = None \<and> pb_id created = pb_id p
              \<and> (storable e p \<longrightarrow> catalogue s' = spec_create p (catalogue s)))"
    and update_refines:
      "ok s \<Longrightarrow> nul \<notin> set (pb_id p) \<Longrightarrow> update_problem_op repo e p s = (res, s') \<Longrightarrow> ok s' \<and>
         (case res of
            Inl err \<Rightarrow> s' = s
          | Inr updated \<Rightarrow> (\<exists>old. catalogue s (pb_id p) = Some old \<and> pb_revision old = pb_revision p
              \<and> updated = p\<lparr>pb_revision := pb_revision p + 1\<rparr>
              \<and> (\<exists>new. catalogue s' = (catalogue s)(pb_id p \<mapsto> new) \<and> pb_revision new = pb_revision p + 1)
              \<and> (storable e p \<longrightarrow> catalogue s' = spec_update old p (catalogue s))))"
    and remove_refines:
      "ok s \<Longrightarrow> nul \<notin> set i \<Longrightarrow> remove_problem_op repo e i s = (gone, s') \<Longrightarrow> ok s' \<and>
         (case gone of
            Inl err \<Rightarrow> s' = s
          | Inr b \<Rightarrow> b = (catalogue s i \<noteq> None) \<and> catalogue s' = (catalogue s)(i := None))"
    and create_test_refines:
      "ok s \<Longrightarrow> nul \<notin> set i \<Longrightarrow> int64_range (tc_position t) \<Longrightarrow>
         create_test_op repo e i t s = (tres, s') \<Longrightarrow> ok s' \<and>
         (case tres of
            Inl err \<Rightarrow> s' = s
          | Inr created \<Rightarrow> catalogue s i \<noteq> None
              \<and> catalogue s' = spec_tests i (\<lambda>ts. in_order (ts @ [cut_test (t\<lparr>tc_id := tc_id created,
                  tc_revision := 1\<rparr>)])) (catalogue s))"
    and update_test_refines:
      "ok s \<Longrightarrow> nul \<notin> set i \<Longrightarrow> int64_range (tc_position t) \<Longrightarrow>
         update_test_op repo e i t s = (tres, s') \<Longrightarrow> ok s' \<and>
         (case tres of
            Inl err \<Rightarrow> s' = s
          | Inr updated \<Rightarrow> updated = t\<lparr>tc_revision := tc_revision t + 1\<rparr>
              \<and> (\<exists>p. catalogue s i = Some p
                   \<and> (\<exists>u \<in> set (pb_hidden_tests p). tc_id u = tc_id t \<and> tc_revision u = tc_revision t))
              \<and> catalogue s' = spec_tests i (replace_test (cut_test updated)) (catalogue s))"
    and remove_test_refines:
      "ok s \<Longrightarrow> nul \<notin> set i \<Longrightarrow> remove_test_op repo e i n s = (gone, s') \<Longrightarrow> ok s' \<and>
         (case gone of
            Inl err \<Rightarrow> s' = s
          | Inr b \<Rightarrow> (b \<longleftrightarrow> (\<exists>p. catalogue s i = Some p \<and> n \<in> tc_id ` set (pb_hidden_tests p)))
              \<and> catalogue s' = spec_tests i (filter (\<lambda>u. tc_id u \<noteq> n)) (catalogue s))"

section \<open>Clients of the contract\<close>

definition service_list :: "('e, 's) problem_repository \<Rightarrow> 'e \<Rightarrow> 's \<Rightarrow> problem_repository_error + problem list" where
  "service_list repo e s = list_enabled_op repo e s"

definition service_find_problem ::
    "('e, 's) problem_repository \<Rightarrow> 'e \<Rightarrow> string \<Rightarrow> 's \<Rightarrow> problem_repository_error + problem option" where
  "service_find_problem repo e i s = find_enabled_op repo e i s"

definition service_find_for_judging ::
    "('e, 's) problem_repository \<Rightarrow> 'e \<Rightarrow> string \<Rightarrow> 's \<Rightarrow> problem_repository_error + problem option" where
  "service_find_for_judging repo e i s = find_for_judging_op repo e i s"

text \<open>
  The writes an administrator makes, as data: a command, its outcome, and the abstract effect of a
  command with a given outcome on a catalogue (None when the outcome is impossible there).
\<close>

datatype problem_command =
    Create_problem problem
  | Update_problem problem
  | Remove_problem string
  | Create_test string problem_test_case
  | Update_test string problem_test_case
  | Remove_test string int64

datatype command_outcome =
    Refused problem_repository_error
  | Wrote problem
  | Wrote_test problem_test_case
  | Removed bool

definition outcome :: "('a \<Rightarrow> command_outcome) \<Rightarrow> (problem_repository_error + 'a) \<times> 's \<Rightarrow> command_outcome \<times> 's" where
  "outcome f r = (case r of (Inl err, s) \<Rightarrow> (Refused err, s) | (Inr a, s) \<Rightarrow> (f a, s))"

fun run_command ::
    "('e, 's) problem_repository \<Rightarrow> 'e \<Rightarrow> problem_command \<Rightarrow> 's \<Rightarrow> command_outcome \<times> 's" where
  "run_command repo e (Create_problem p) s = outcome Wrote (create_problem_op repo e p s)"
| "run_command repo e (Update_problem p) s = outcome Wrote (update_problem_op repo e p s)"
| "run_command repo e (Remove_problem i) s = outcome Removed (remove_problem_op repo e i s)"
| "run_command repo e (Create_test i t) s = outcome Wrote_test (create_test_op repo e i t s)"
| "run_command repo e (Update_test i t) s = outcome Wrote_test (update_test_op repo e i t s)"
| "run_command repo e (Remove_test i n) s = outcome Removed (remove_test_op repo e i n s)"

fun run_commands ::
    "('e, 's) problem_repository \<Rightarrow> ('e \<times> problem_command) list \<Rightarrow> 's \<Rightarrow> command_outcome list \<times> 's" where
  "run_commands repo [] s = ([], s)"
| "run_commands repo ((e, c) # cs) s =
     (let (out, s1) = run_command repo e c s; (outs, s2) = run_commands repo cs s1 in (out # outs, s2))"

fun spec_command :: "problem_command \<Rightarrow> command_outcome \<Rightarrow> catalogue \<Rightarrow> catalogue option" where
  "spec_command c (Refused err) cat = Some cat"
| "spec_command (Create_problem p) (Wrote q) cat =
     (if cat (pb_id p) = None \<and> pb_id q = pb_id p then Some (spec_create p cat) else None)"
| "spec_command (Update_problem p) (Wrote q) cat =
     (case cat (pb_id p) of None \<Rightarrow> None
      | Some old \<Rightarrow> if pb_revision old = pb_revision p \<and> q = p\<lparr>pb_revision := pb_revision p + 1\<rparr>
          then Some (spec_update old p cat) else None)"
| "spec_command (Remove_problem i) (Removed b) cat =
     (if b = (cat i \<noteq> None) then Some (cat(i := None)) else None)"
| "spec_command (Create_test i t) (Wrote_test u) cat =
     (if cat i \<noteq> None then Some (spec_tests i (\<lambda>ts. in_order (ts @
        [cut_test (t\<lparr>tc_id := tc_id u, tc_revision := 1\<rparr>)])) cat) else None)"
| "spec_command (Update_test i t) (Wrote_test u) cat =
     (case cat i of None \<Rightarrow> None
      | Some p \<Rightarrow> if u = t\<lparr>tc_revision := tc_revision t + 1\<rparr>
            \<and> list_ex (\<lambda>v. tc_id v = tc_id t \<and> tc_revision v = tc_revision t) (pb_hidden_tests p)
          then Some (spec_tests i (replace_test (cut_test u)) cat) else None)"
| "spec_command (Remove_test i n) (Removed b) cat =
     (if b = (case cat i of None \<Rightarrow> False | Some p \<Rightarrow> n \<in> tc_id ` set (pb_hidden_tests p))
      then Some (spec_tests i (filter (\<lambda>u. tc_id u \<noteq> n)) cat) else None)"
| "spec_command c out cat = None"

fun spec_commands :: "problem_command list \<Rightarrow> command_outcome list \<Rightarrow> catalogue \<Rightarrow> catalogue option" where
  "spec_commands [] [] cat = Some cat"
| "spec_commands (c # cs) (out # outs) cat = Option.bind (spec_command c out cat) (spec_commands cs outs)"
| "spec_commands cs outs cat = None"

text \<open>Identifiers have no NUL byte, positions are 64-bit, and JSON columns read back.\<close>

fun proper_command :: "(problem \<Rightarrow> bool) \<Rightarrow> problem_command \<Rightarrow> bool" where
  "proper_command stored (Create_problem p) \<longleftrightarrow> nul \<notin> set (pb_id p) \<and> stored p"
| "proper_command stored (Update_problem p) \<longleftrightarrow> nul \<notin> set (pb_id p) \<and> stored p"
| "proper_command stored (Remove_problem i) \<longleftrightarrow> nul \<notin> set i"
| "proper_command stored (Create_test i t) \<longleftrightarrow> nul \<notin> set i \<and> int64_range (tc_position t)"
| "proper_command stored (Update_test i t) \<longleftrightarrow> nul \<notin> set i \<and> int64_range (tc_position t)"
| "proper_command stored (Remove_test i n) \<longleftrightarrow> nul \<notin> set i"

lemma outcome_cases:
  assumes "outcome f r = (out, s')"
  obtains (err) err where "r = (Inl err, s')" "out = Refused err"
  | (val) a where "r = (Inr a, s')" "out = f a"
  using assms by (cases r; cases "fst r") (auto simp: outcome_def)

context problem_store
begin

text \<open>
  Optimistic concurrency: of two administrators who edit the same revision, the second one's update
  is refused and changes nothing.
\<close>

lemma stale_update_refused:
  assumes ok: "ok s" and p: "nul \<notin> set (pb_id p)" and q: "pb_id q = pb_id p" "pb_revision q = pb_revision p"
    and first: "update_problem_op repo e p s = (Inr p', s')"
    and second: "update_problem_op repo e' q s' = (res, s'')"
  shows "(\<exists>err. res = Inl err) \<and> s'' = s'"
proof -
  obtain new where new: "catalogue s' = (catalogue s)(pb_id p \<mapsto> new)" "pb_revision new = pb_revision p + 1"
    and ok': "ok s'"
    using update_refines [OF ok p first] by auto
  show ?thesis
  proof (cases res)
    case (Inl err)
    then show ?thesis using update_refines [OF ok' _ second] p q by simp
  next
    case (Inr q')
    then have "pb_revision new = pb_revision q"
      using update_refines [OF ok' _ second] p q new(1) by auto
    then show ?thesis using new(2) q(2) by simp
  qed
qed

text \<open>
  Refinement: whatever a sequence of commands did, the catalogue afterwards is the abstract effect of
  the commands with their outcomes.
\<close>

lemma run_command_refines:
  assumes ok: "ok s" and proper: "proper_command (storable e) c" and run: "run_command repo e c s = (out, s')"
  shows "ok s' \<and> spec_command c out (catalogue s) = Some (catalogue s')"
proof (cases c)
  case (Create_problem p)
  from run [unfolded Create_problem run_command.simps] show ?thesis
    using create_refines [OF ok] proper by (cases rule: outcome_cases) (fastforce simp: Create_problem)+
next
  case (Update_problem p)
  from run [unfolded Update_problem run_command.simps] show ?thesis
    using update_refines [OF ok] proper by (cases rule: outcome_cases) (fastforce simp: Update_problem)+
next
  case (Remove_problem i)
  from run [unfolded Remove_problem run_command.simps] show ?thesis
    using remove_refines [OF ok] proper by (cases rule: outcome_cases) (fastforce simp: Remove_problem)+
next
  case (Create_test i t)
  from run [unfolded Create_test run_command.simps] show ?thesis
    using create_test_refines [OF ok] proper by (cases rule: outcome_cases) (fastforce simp: Create_test)+
next
  case (Update_test i t)
  from run [unfolded Update_test run_command.simps] show ?thesis
  proof (cases rule: outcome_cases)
    case (err m)
    then show ?thesis using update_test_refines [OF ok _ _ err(1)] proper by (auto simp: Update_test)
  next
    case (val u)
    then show ?thesis
      using update_test_refines [OF ok _ _ val(1)] proper by (auto simp: Update_test list_ex_iff)
  qed
next
  case (Remove_test i n)
  from run [unfolded Remove_test run_command.simps] show ?thesis
  proof (cases rule: outcome_cases)
    case (err m)
    then show ?thesis using remove_test_refines [OF ok _ err(1)] proper by (auto simp: Remove_test)
  next
    case (val b)
    then have "b = (case catalogue s i of None \<Rightarrow> False | Some p \<Rightarrow> n \<in> tc_id ` set (pb_hidden_tests p))"
      using remove_test_refines [OF ok _ val(1)] proper by (auto simp: Remove_test split: option.splits)
    then show ?thesis using remove_test_refines [OF ok _ val(1)] val(2) proper by (simp add: Remove_test)
  qed
qed

lemma run_commands_refine:
  assumes "ok s" "\<forall>(e, c) \<in> set cs. proper_command (storable e) c" "run_commands repo cs s = (outs, s')"
  shows "ok s' \<and> spec_commands (map snd cs) outs (catalogue s) = Some (catalogue s')"
  using assms
proof (induction cs arbitrary: s outs)
  case (Cons ec cs)
  obtain e c where ec: "ec = (e, c)" by (cases ec)
  obtain out s1 where one: "run_command repo e c s = (out, s1)" by (cases "run_command repo e c s")
  obtain outs2 where rest: "run_commands repo cs s1 = (outs2, s')" and outs: "outs = out # outs2"
    using Cons.prems(3) by (auto simp: ec one split: prod.splits)
  have "ok s1 \<and> spec_command c out (catalogue s) = Some (catalogue s1)"
    using Cons.prems(2) by (intro run_command_refines [OF Cons.prems(1) _ one]) (simp add: ec)
  then show ?case using Cons.IH [OF _ _ rest] Cons.prems(2) by (simp add: ec outs)
qed simp

text \<open>A problem that is shown to the public is the stored one, enabled, without its hidden tests.\<close>

lemma service_find_hides_tests:
  assumes "ok s" "nul \<notin> set i" "service_find_problem repo e i s = Inr (Some p)"
  shows "pb_enabled p \<and> pb_hidden_tests p = [] \<and> (\<exists>q. catalogue s i = Some q \<and> p = without_tests q)"
  using find_enabled_finds [OF assms(1,2), of e "Some p"] assms(3)
  by (auto simp: service_find_problem_def without_tests_def split: option.splits if_splits)

end

end
