(* ===== verification/Problem_Queries.thy ===== *)
theory Problem_Queries
  imports Schema Problem_Repository Json_Api
begin

text \<open>
  The tables \<^verbatim>\<open>problems\<close> and \<^verbatim>\<open>problem_tests\<close>: the statements both problem
  repositories execute, with the constraints of the schema, and their effect on the catalogue of
  stored problems. The JSON columns are written and read by JsonCpp: \<open>json_text_lib\<close> is its
  writer and reader, an argument of the model.

  A revision counts the updates of one row; an update whose revision would leave the 64-bit range
  fails.
\<close>

section \<open>The JSON columns\<close>

record 'j json_text_lib =
  writeString :: "'j \<Rightarrow> string"
  parseText :: "string \<Rightarrow> 'j option"

definition strings_json :: "'j json_lib \<Rightarrow> string list \<Rightarrow> 'j" where
  "strings_json J vs = json_array J (map (stringValue J) vs)"

definition examples_json :: "'j json_lib \<Rightarrow> problem_example list \<Rightarrow> 'j" where
  "examples_json J xs = json_array J (map (example_to_json J) xs)"

definition json_text :: "'j json_text_lib \<Rightarrow> 'j \<Rightarrow> string" where
  "json_text W v = writeString W v"

definition parse_json :: "'j json_text_lib \<Rightarrow> string \<Rightarrow> 'j option" where
  "parse_json W t = parseText W t"

text \<open>
  \<^verbatim>\<open>read_problem\<close> without the hidden tests: the problem a row stands for, or the error for
  columns that cannot be read. A tag or language is read with \<^verbatim>\<open>asString\<close> whatever it is.
\<close>

definition read_metadata ::
    "'j json_lib \<Rightarrow> 'j json_text_lib \<Rightarrow> 't problem_row \<Rightarrow> problem_repository_error + problem" where
  "read_metadata J W r =
     (case (parse_difficulty (prb_difficulty r), parse_json W (prb_tags_json r),
            parse_json W (prb_languages_json r), parse_json W (prb_examples_json r)) of
        (Some difficulty, Some tags, Some languages, Some examples) \<Rightarrow>
          if \<not> isArray J tags \<or> \<not> isArray J languages \<or> \<not> isArray J examples
          then Inl (ProblemRepositoryError ''Database contains invalid problem metadata'')
          else (case parse_examples J (elements J examples) of
              None \<Rightarrow> Inl (ProblemRepositoryError ''Database contains invalid problem examples'')
            | Some xs \<Rightarrow> Inr \<lparr>pb_id = prb_id r, pb_title = prb_title r,
                pb_description = prb_description r, pb_input_format = prb_input_format r,
                pb_output_format = prb_output_format r, pb_difficulty = difficulty,
                pb_tags = map (asString J) (elements J tags),
                pb_languages = map (asString J) (elements J languages), pb_examples = xs,
                pb_enabled = prb_enabled r, pb_revision = prb_revision r, pb_hidden_tests = []\<rparr>)
      | _ \<Rightarrow> Inl (ProblemRepositoryError ''Database contains invalid problem metadata''))"

section \<open>Statements\<close>

definition problem_check :: "'t problem_row \<Rightarrow> bool" where
  "problem_check r \<longleftrightarrow> prb_difficulty r \<in> {''Easy'', ''Medium'', ''Hard''} \<and> 0 < prb_revision r
     \<and> int64_range (prb_revision r)"

definition problem_columns ::
    "'t \<Rightarrow> problem \<Rightarrow> string \<Rightarrow> string \<Rightarrow> string \<Rightarrow> 't problem_row" where
  "problem_columns t p tags languages examples =
     \<lparr>prb_id = pb_id p, prb_title = pb_title p, prb_description = pb_description p,
      prb_input_format = pb_input_format p, prb_output_format = pb_output_format p,
      prb_difficulty = difficulty_name (pb_difficulty p), prb_tags_json = tags,
      prb_languages_json = languages, prb_examples_json = examples, prb_enabled = pb_enabled p,
      prb_created_at = t, prb_updated_at = t, prb_revision = 1\<rparr>"

definition insert_problem :: "'t problem_row \<Rightarrow> 't database \<Rightarrow> 't database option" where
  "insert_problem r db = (if problem_check r \<and> prb_id r \<notin> prb_id ` set (problems db)
     then Some (db\<lparr>problems := problems db @ [r]\<rparr>) else None)"

text \<open>
  \<^verbatim>\<open>UPDATE problems SET \<dots>, revision = revision + 1 WHERE id = ? AND revision = ?\<close>; the
  result tells whether a row was changed.
\<close>

definition revised_problem :: "'t problem_row \<Rightarrow> 't problem_row \<Rightarrow> 't problem_row" where
  "revised_problem new r = new\<lparr>prb_id := prb_id r, prb_created_at := prb_created_at r,
     prb_revision := prb_revision r + 1\<rparr>"

definition this_revision :: "string \<Rightarrow> int64 \<Rightarrow> 't problem_row \<Rightarrow> bool" where
  "this_revision i n r \<longleftrightarrow> prb_id r = i \<and> prb_revision r = n"

definition update_problem ::
    "'t problem_row \<Rightarrow> int64 \<Rightarrow> 't database \<Rightarrow> ('t problem_row option \<times> 't database) option" where
  "update_problem new n db =
     (case List.find (this_revision (prb_id new) n) (problems db) of
        None \<Rightarrow> Some (None, db)
      | Some r \<Rightarrow> if problem_check (revised_problem new r)
          then Some (Some (revised_problem new r), db\<lparr>problems :=
            update_where (this_revision (prb_id new) n) (revised_problem new) (problems db)\<rparr>)
          else None)"

text \<open>Deleting a problem deletes its hidden tests (\<^verbatim>\<open>ON DELETE CASCADE\<close>).\<close>

definition delete_problem :: "string \<Rightarrow> 't database \<Rightarrow> bool \<times> 't database" where
  "delete_problem i db = (i \<in> prb_id ` set (problems db),
     db\<lparr>problems := filter (\<lambda>r. prb_id r \<noteq> i) (problems db),
        problem_tests := filter (\<lambda>t. tst_problem_id t \<noteq> i) (problem_tests db)\<rparr>)"

text \<open>The position is free when no other test of the problem has it.\<close>

definition position_free :: "test_row \<Rightarrow> 't database \<Rightarrow> bool" where
  "position_free r db \<longleftrightarrow> list_all (\<lambda>t. tst_id t = tst_id r
     \<or> (tst_problem_id t, tst_position t) \<noteq> (tst_problem_id r, tst_position r)) (problem_tests db)"

definition test_columns :: "string \<Rightarrow> problem_test_case \<Rightarrow> test_row" where
  "test_columns i t = \<lparr>tst_id = tc_id t, tst_problem_id = i, tst_input = tc_input t,
     tst_expected_output = tc_expected_output t, tst_position = tc_position t,
     tst_enabled = tc_enabled t, tst_revision = 1\<rparr>"

definition insert_test :: "nat \<Rightarrow> test_row \<Rightarrow> 't database \<Rightarrow> (test_row \<times> 't database) option" where
  "insert_test gap r db =
     (let i = problem_tests_seq db + 1 + int gap; r' = r\<lparr>tst_id := i\<rparr>
      in if int64_range i \<and> tst_problem_id r \<in> prb_id ` set (problems db) \<and> position_free r' db
            \<and> int64_range (tst_position r)
         then Some (r', db\<lparr>problem_tests := problem_tests db @ [r'], problem_tests_seq := i\<rparr>)
         else None)"

definition this_test :: "int64 \<Rightarrow> string \<Rightarrow> int64 \<Rightarrow> test_row \<Rightarrow> bool" where
  "this_test i problem n t \<longleftrightarrow> tst_id t = i \<and> tst_problem_id t = problem \<and> tst_revision t = n"

definition revised_test :: "test_row \<Rightarrow> test_row \<Rightarrow> test_row" where
  "revised_test new t = new\<lparr>tst_id := tst_id t, tst_problem_id := tst_problem_id t,
     tst_revision := tst_revision t + 1\<rparr>"

definition update_test ::
    "test_row \<Rightarrow> int64 \<Rightarrow> 't database \<Rightarrow> (test_row option \<times> 't database) option" where
  "update_test new n db =
     (case List.find (this_test (tst_id new) (tst_problem_id new) n) (problem_tests db) of
        None \<Rightarrow> Some (None, db)
      | Some t \<Rightarrow> if position_free (revised_test new t) db \<and> int64_range (tst_revision t + 1)
             \<and> int64_range (tst_position new)
          then Some (Some (revised_test new t), db\<lparr>problem_tests :=
            update_where (this_test (tst_id new) (tst_problem_id new) n) (revised_test new)
              (problem_tests db)\<rparr>)
          else None)"

definition delete_test :: "int64 \<Rightarrow> string \<Rightarrow> 't database \<Rightarrow> bool \<times> 't database" where
  "delete_test i problem db =
     (list_ex (\<lambda>t. tst_id t = i \<and> tst_problem_id t = problem) (problem_tests db),
      db\<lparr>problem_tests := filter (\<lambda>t. \<not> (tst_id t = i \<and> tst_problem_id t = problem)) (problem_tests db)\<rparr>)"

text \<open>\<^verbatim>\<open>SELECT \<dots> FROM problem_tests WHERE problem_id = ? \<dots> ORDER BY position, id\<close>\<close>

definition select_tests :: "string \<Rightarrow> bool \<Rightarrow> 't database \<Rightarrow> test_row list" where
  "select_tests problem disabled db =
     sort_key (\<lambda>t. (tst_position t, tst_id t))
       (filter (\<lambda>t. tst_problem_id t = problem \<and> (disabled \<or> tst_enabled t)) (problem_tests db))"

section \<open>What the constraints maintain\<close>

definition wf_problems :: "'t database \<Rightarrow> bool" where
  "wf_problems db \<longleftrightarrow>
     distinct (map prb_id (problems db)) \<and> (\<forall>r \<in> set (problems db). problem_check r) \<and>
     ascending tst_id (problem_tests db) \<and>
     (\<forall>t \<in> set (problem_tests db). 0 < tst_id t \<and> tst_id t \<le> problem_tests_seq db
        \<and> tst_problem_id t \<in> prb_id ` set (problems db)
        \<and> int64_range (tst_position t) \<and> int64_range (tst_revision t)) \<and>
     distinct (map (\<lambda>t. (tst_problem_id t, tst_position t)) (problem_tests db)) \<and>
     0 \<le> problem_tests_seq db \<and> int64_range (problem_tests_seq db)"

lemma wf_problems_empty [simp]: "wf_problems empty_database"
  by (simp add: wf_problems_def empty_database_def int64_range_def)

lemma wf_problems_tests:
  assumes "wf_problems db" "t \<in> set (problem_tests db)"
  shows "int64_range (tst_id t)" "int64_range (tst_position t)" "int64_range (tst_revision t)"
  using assms by (fastforce simp: wf_problems_def int64_range_def)+

lemma wf_problems_revision: "wf_problems db \<Longrightarrow> r \<in> set (problems db) \<Longrightarrow> int64_range (prb_revision r)"
  by (simp add: wf_problems_def problem_check_def)

lemma wf_tests_reference:
  "wf_problems db \<Longrightarrow> t \<in> set (problem_tests db) \<Longrightarrow> tst_problem_id t \<in> prb_id ` set (problems db)"
  by (simp add: wf_problems_def)

lemma wf_insert_problem:
  "wf_problems db \<Longrightarrow> insert_problem r db = Some db' \<Longrightarrow> wf_problems db'"
  by (auto simp: wf_problems_def insert_problem_def split: if_splits)

lemma revised_problem_fields [simp]:
  "prb_id (revised_problem new r) = prb_id r" "prb_revision (revised_problem new r) = prb_revision r + 1"
  by (simp_all add: revised_problem_def)

lemma map_prb_id_update [simp]:
  "map prb_id (update_where P (revised_problem new) rs) = map prb_id rs"
  by (rule map_update_where) simp

lemma image_prb_id_update [simp]:
  "prb_id ` set (update_where P (revised_problem new) rs) = prb_id ` set rs"
  by (metis list.set_map map_prb_id_update)

lemma this_revision_unique:
  assumes "wf_problems db" "r \<in> set (problems db)" "this_revision i n r"
    "r' \<in> set (problems db)" "this_revision i n r'"
  shows "r' = r"
  using assms distinct_keys_eq [of prb_id "problems db" r' r] by (simp add: wf_problems_def this_revision_def)

lemma wf_update_problem:
  assumes wf: "wf_problems db" and up: "update_problem new n db = Some (found, db')"
  shows "wf_problems db'"
proof (cases "List.find (this_revision (prb_id new) n) (problems db)")
  case None
  then show ?thesis using wf up by (simp add: update_problem_def)
next
  case (Some r)
  then have r: "r \<in> set (problems db)" "this_revision (prb_id new) n r"
    using find_Some_iff_in by fastforce+
  have db': "db' = db\<lparr>problems := update_where (this_revision (prb_id new) n) (revised_problem new) (problems db)\<rparr>"
    and check: "problem_check (revised_problem new r)"
    using up Some by (auto simp: update_problem_def split: if_splits)
  have "problem_check x" if "x \<in> set (problems db')" for x
    using that wf check this_revision_unique [OF wf r]
    by (auto simp: db' set_update_where wf_problems_def split: if_splits)
  then show ?thesis using wf by (simp add: wf_problems_def db')
qed

lemma wf_delete_problem: "wf_problems db \<Longrightarrow> wf_problems (snd (delete_problem i db))"
  by (auto simp: wf_problems_def delete_problem_def distinct_map_filter ascending_filter)

lemma insert_test_Some:
  assumes "insert_test gap r db = Some (r', db')"
  shows "r' = r\<lparr>tst_id := problem_tests_seq db + 1 + int gap\<rparr>"
    and "db' = db\<lparr>problem_tests := problem_tests db @ [r'], problem_tests_seq := tst_id r'\<rparr>"
    and "tst_problem_id r' \<in> prb_id ` set (problems db)" "position_free r' db"
    and "int64_range (tst_id r')" "int64_range (tst_position r')"
  using assms by (auto simp: insert_test_def Let_def split: if_splits)

lemma wf_insert_test:
  assumes wf: "wf_problems db" and ins: "insert_test gap r db = Some (r', db')" and "int64_range (tst_revision r)"
  shows "wf_problems db'"
proof -
  note new = insert_test_Some [OF ins]
  have above: "tst_id t < tst_id r'" if "t \<in> set (problem_tests db)" for t
    using wf that by (fastforce simp: wf_problems_def new(1))
  then have "(tst_problem_id r', tst_position r') \<notin> (\<lambda>t. (tst_problem_id t, tst_position t)) ` set (problem_tests db)"
    using new(4) by (fastforce simp: position_free_def list_all_iff)
  moreover have "0 < tst_id r'" "problem_tests_seq db \<le> tst_id r'" "int64_range (tst_revision r')"
    using wf assms(3) by (simp_all add: wf_problems_def new(1))
  ultimately show ?thesis
    using wf above new(3,5,6) unfolding wf_problems_def new(2)
    by (auto simp: sorted_wrt_append image_iff)
qed

lemma test_columns_fields [simp]:
  "tst_problem_id (test_columns i t) = i" "tst_id (test_columns i t) = tc_id t"
  "tst_position (test_columns i t) = tc_position t" "tst_revision (test_columns i t) = 1"
  by (simp_all add: test_columns_def)

lemma revised_test_fields [simp]:
  "tst_id (revised_test new t) = tst_id t" "tst_problem_id (revised_test new t) = tst_problem_id t"
  "tst_revision (revised_test new t) = tst_revision t + 1" "tst_position (revised_test new t) = tst_position new"
  by (simp_all add: revised_test_def)

lemma test_id_eq:
  "wf_problems db \<Longrightarrow> t \<in> set (problem_tests db) \<Longrightarrow> u \<in> set (problem_tests db) \<Longrightarrow>
     tst_id u = tst_id t \<longleftrightarrow> u = t"
  using distinct_keys_eq [OF ascending_distinct, of tst_id "problem_tests db" u t]
  by (auto simp: wf_problems_def)

text \<open>An update of a hidden test: either nothing matched, or one row was revised.\<close>

lemma update_test_cases:
  assumes wf: "wf_problems db" and up: "update_test new n db = Some (found, db')"
  obtains (unmatched) "found = None" "db' = db"
    "\<forall>t \<in> set (problem_tests db). \<not> this_test (tst_id new) (tst_problem_id new) n t"
  | (revised) t where "t \<in> set (problem_tests db)" "this_test (tst_id new) (tst_problem_id new) n t"
      "found = Some (revised_test new t)" "position_free (revised_test new t) db"
      "int64_range (tst_revision t + 1)" "int64_range (tst_position new)"
      "db' = db\<lparr>problem_tests := map (\<lambda>u. if tst_id u = tst_id t then revised_test new t else u) (problem_tests db)\<rparr>"
proof (cases "List.find (this_test (tst_id new) (tst_problem_id new) n) (problem_tests db)")
  case None
  then have "\<forall>t \<in> set (problem_tests db). \<not> this_test (tst_id new) (tst_problem_id new) n t"
    by (simp add: find_None_iff)
  then show ?thesis using up None by (intro unmatched) (simp_all add: update_test_def)
next
  case (Some t)
  then have t: "t \<in> set (problem_tests db)" "this_test (tst_id new) (tst_problem_id new) n t"
    using find_Some_iff_in by fastforce+
  have "update_where (this_test (tst_id new) (tst_problem_id new) n) (revised_test new) (problem_tests db)
      = map (\<lambda>u. if tst_id u = tst_id t then revised_test new t else u) (problem_tests db)"
    unfolding update_where_def
  proof (rule map_cong [OF refl])
    fix u
    assume u: "u \<in> set (problem_tests db)"
    have "this_test (tst_id new) (tst_problem_id new) n u \<longleftrightarrow> u = t"
      using t(2) test_id_eq [OF wf t(1) u] by (auto simp: this_test_def)
    then show "(if this_test (tst_id new) (tst_problem_id new) n u then revised_test new u else u)
        = (if tst_id u = tst_id t then revised_test new t else u)"
      by (simp add: test_id_eq [OF wf t(1) u])
  qed
  then show ?thesis
    using up Some t by (intro revised [OF t]) (auto simp: update_test_def split: if_splits)
qed

lemma wf_update_test:
  assumes wf: "wf_problems db" and up: "update_test new n db = Some (found, db')"
  shows "wf_problems db'"
  using wf up
proof (cases rule: update_test_cases)
  case (revised t)
  define f where "f = (\<lambda>u. if tst_id u = tst_id t then revised_test new t else u)"
  let ?g = "\<lambda>t. (tst_problem_id t, tst_position t)"
  have fields: "tst_id (f u) = tst_id u" for u by (simp add: f_def)
  then have ids: "map tst_id (map f (problem_tests db)) = map tst_id (problem_tests db)" by simp
  have pids: "tst_problem_id (f u) = tst_problem_id u" if "u \<in> set (problem_tests db)" for u
    using test_id_eq [OF wf revised(1) that] by (simp add: f_def)
  have other: "?g u \<noteq> ?g (revised_test new t)" if "u \<in> set (problem_tests db)" "tst_id u \<noteq> tst_id t" for u
    using revised(4) that by (auto simp: position_free_def list_all_iff)
  have "inj_on ?g (set (problem_tests db))" using wf by (simp add: wf_problems_def distinct_map)
  then have "inj_on ?g (f ` set (problem_tests db))"
    unfolding f_def using other by (fastforce simp: inj_on_def split: if_splits)
  moreover have "distinct (map tst_id (map f (problem_tests db)))"
    unfolding ids using wf by (intro ascending_distinct) (simp add: wf_problems_def)
  then have "distinct (map f (problem_tests db))" by (rule distinct_map [THEN iffD1, THEN conjunct1])
  ultimately have "distinct (map ?g (map f (problem_tests db)))"
    unfolding distinct_map [of ?g] set_map by blast
  moreover have "int64_range (tst_position (f u)) \<and> int64_range (tst_revision (f u))"
    if "u \<in> set (problem_tests db)" for u
    using wf revised(5,6) that by (simp add: wf_problems_def f_def)
  moreover have "ascending tst_id (map f (problem_tests db))" unfolding ids using wf by (simp add: wf_problems_def)
  moreover have "db' = db\<lparr>problem_tests := map f (problem_tests db)\<rparr>"
    using revised(7) by (simp add: f_def)
  ultimately show ?thesis
    using wf pids unfolding wf_problems_def by (simp add: fields)
qed (simp add: wf)

lemma wf_delete_test: "wf_problems db \<Longrightarrow> wf_problems (snd (delete_test i problem db))"
  by (auto simp: wf_problems_def delete_test_def distinct_map_filter ascending_filter)

lemma update_problem_none:
  assumes "update_problem new n db = Some (None, db')"
  shows "db' = db"
  using assms by (auto simp: update_problem_def split: option.splits if_splits)

lemma update_test_none: "update_test new n db = Some (None, db') \<Longrightarrow> db' = db"
  by (auto simp: update_test_def split: option.splits if_splits)

section \<open>The catalogue of a database\<close>

text \<open>
  \<open>show_problem\<close> and \<open>show_test\<close> are what a repository reads from a row. The locale has
  the effect of each statement on the catalogue.
\<close>

definition catalogue_of ::
    "('t problem_row \<Rightarrow> problem) \<Rightarrow> (test_row \<Rightarrow> problem_test_case) \<Rightarrow> 't database \<Rightarrow> catalogue" where
  "catalogue_of show_problem show_test db i =
     map_option (\<lambda>r. (show_problem r)\<lparr>pb_hidden_tests := map show_test (select_tests i True db)\<rparr>)
       (List.find (\<lambda>r. prb_id r = i) (problems db))"

locale row_view =
  fixes show_problem :: "'t problem_row \<Rightarrow> problem" and show_test :: "test_row \<Rightarrow> problem_test_case"
  assumes show_id: "pb_id (show_problem r) = prb_id r"
    and show_revision: "pb_revision (show_problem r) = prb_revision r"
    and show_enabled: "pb_enabled (show_problem r) = prb_enabled r"
    and show_test_key: "tc_id (show_test t) = tst_id t" "tc_position (show_test t) = tst_position t"
      "tc_revision (show_test t) = tst_revision t" "tc_enabled (show_test t) = tst_enabled t"
begin

abbreviation cat :: "'t database \<Rightarrow> catalogue" where
  "cat \<equiv> catalogue_of show_problem show_test"

lemma cat_Some_iff:
  assumes "wf_problems db"
  shows "cat db i = Some p \<longleftrightarrow> (\<exists>r \<in> set (problems db). prb_id r = i
    \<and> p = (show_problem r)\<lparr>pb_hidden_tests := map show_test (select_tests i True db)\<rparr>)"
proof -
  have "distinct (map prb_id (problems db))" using assms by (simp add: wf_problems_def)
  from find_key_iff [OF this] show ?thesis by (auto simp: catalogue_of_def)
qed

lemma cat_None_iff: "cat db i = None \<longleftrightarrow> i \<notin> prb_id ` set (problems db)"
  by (auto simp: catalogue_of_def find_None_iff image_iff)

lemma cat_insert_problem:
  assumes wf: "wf_problems db" and ins: "insert_problem r db = Some db'"
  shows "cat db (prb_id r) = None"
    and "cat db' = (cat db)(prb_id r \<mapsto> (show_problem r)\<lparr>pb_hidden_tests := []\<rparr>)"
proof -
  have fresh: "prb_id r \<notin> prb_id ` set (problems db)" and db': "db' = db\<lparr>problems := problems db @ [r]\<rparr>"
    using ins by (auto simp: insert_problem_def split: if_splits)
  then show none: "cat db (prb_id r) = None" by (simp add: cat_None_iff)
  have "filter (\<lambda>t. tst_problem_id t = prb_id r) (problem_tests db) = []"
    using wf_tests_reference [OF wf] fresh by (metis (mono_tags) filter_False)
  then have "select_tests (prb_id r) True db = []" by (simp add: select_tests_def)
  then have "cat db' i = ((cat db)(prb_id r \<mapsto> (show_problem r)\<lparr>pb_hidden_tests := []\<rparr>)) i" for i
    using fresh by (auto simp: catalogue_of_def db' select_tests_def find_append_iff image_iff
        dest!: find_Some_iff_in split: option.splits)
  then show "cat db' = (cat db)(prb_id r \<mapsto> (show_problem r)\<lparr>pb_hidden_tests := []\<rparr>)" by (rule ext)
qed

lemma cat_update_problem:
  assumes wf: "wf_problems db" and up: "update_problem new n db = Some (Some r', db')"
  shows "\<exists>old. cat db (prb_id new) = Some old \<and> pb_revision old = n \<and> prb_revision r' = n + 1
    \<and> prb_id r' = prb_id new
    \<and> cat db' = (cat db)(prb_id new \<mapsto> (show_problem r')\<lparr>pb_hidden_tests := pb_hidden_tests old\<rparr>)"
proof -
  obtain r where found: "List.find (this_revision (prb_id new) n) (problems db) = Some r"
    and r': "r' = revised_problem new r"
    and db': "db' = db\<lparr>problems := update_where (this_revision (prb_id new) n) (revised_problem new) (problems db)\<rparr>"
    using up by (auto simp: update_problem_def split: option.splits if_splits)
  have r: "r \<in> set (problems db)" "prb_id r = prb_id new" "prb_revision r = n"
    using find_Some_iff_in [OF found] by (simp_all add: this_revision_def)
  let ?old = "(show_problem r)\<lparr>pb_hidden_tests := map show_test (select_tests (prb_id new) True db)\<rparr>"
  have old: "cat db (prb_id new) = Some ?old" using cat_Some_iff [OF wf] r by blast
  have wf': "wf_problems db'" by (rule wf_update_problem [OF wf up])
  have "r' \<in> set (problems db')"
    using r r' by (auto simp: db' set_update_where this_revision_def)
  moreover have "select_tests i True db' = select_tests i True db" for i by (simp add: db' select_tests_def)
  ultimately have new: "cat db' (prb_id new) = Some ((show_problem r')\<lparr>pb_hidden_tests := pb_hidden_tests ?old\<rparr>)"
    unfolding cat_Some_iff [OF wf'] using r r' by (intro bexI [of _ r']) simp_all
  have "cat db' i = cat db i" if "i \<noteq> prb_id new" for i
  proof -
    have "List.find (\<lambda>r. prb_id r = i) (update_where (this_revision (prb_id new) n) (revised_problem new) rs)
        = List.find (\<lambda>r. prb_id r = i) rs" for rs
      using that by (induction rs) (auto simp: this_revision_def)
    then show ?thesis by (simp add: catalogue_of_def db' select_tests_def)
  qed
  then have "cat db' = (cat db)(prb_id new \<mapsto> (show_problem r')\<lparr>pb_hidden_tests := pb_hidden_tests ?old\<rparr>)"
    using new by (intro ext) simp
  then show ?thesis using old r r' by (intro exI [of _ ?old]) (simp add: show_revision)
qed

lemma cat_delete_problem:
  "fst (delete_problem i db) = (cat db i \<noteq> None)"
  "cat (snd (delete_problem i db)) = (cat db)(i := None)"
proof -
  show "fst (delete_problem i db) = (cat db i \<noteq> None)" by (simp add: delete_problem_def cat_None_iff)
  have rows: "List.find (\<lambda>r. prb_id r = j) (filter (\<lambda>r. prb_id r \<noteq> i) rs) = List.find (\<lambda>r. prb_id r = j) rs"
    if "j \<noteq> i" for j and rs :: "'t problem_row list"
    using that by (induction rs) auto
  have tests: "select_tests j True (snd (delete_problem i db)) = select_tests j True db" if "j \<noteq> i" for j
    unfolding select_tests_def delete_problem_def
    using that by (simp, intro arg_cong [where f = "sort_key _"] filter_cong) auto
  have "cat (snd (delete_problem i db)) j = ((cat db)(i := None)) j" for j
  proof (cases "j = i")
    case False
    then show ?thesis by (simp add: catalogue_of_def tests) (simp add: delete_problem_def rows)
  qed (auto simp: catalogue_of_def delete_problem_def find_None_iff)
  then show "cat (snd (delete_problem i db)) = (cat db)(i := None)" by (rule ext)
qed

lemma in_order_show:
  "in_order (map show_test ts) = map show_test (sort_key (\<lambda>t. (tst_position t, tst_id t)) ts)"
  by (simp add: in_order_def sort_key_map comp_def show_test_key)

lemma cat_tests_update:
  assumes "problems db' = problems db"
    and "\<And>j. j \<noteq> i \<Longrightarrow> select_tests j True db' = select_tests j True db"
    and "map show_test (select_tests i True db') = f (map show_test (select_tests i True db))"
  shows "cat db' = spec_tests i f (cat db)"
proof
  fix j
  show "cat db' j = spec_tests i f (cat db) j"
    using assms by (cases "j = i") (simp_all add: catalogue_of_def spec_tests_def option.map_comp comp_def)
qed

lemma cat_insert_test:
  assumes wf: "wf_problems db" and ins: "insert_test gap r db = Some (r', db')"
  shows "cat db (tst_problem_id r') \<noteq> None"
    and "cat db' = spec_tests (tst_problem_id r') (\<lambda>ts. in_order (ts @ [show_test r'])) (cat db)"
proof -
  note new = insert_test_Some [OF ins]
  show "cat db (tst_problem_id r') \<noteq> None" using new(3) cat_None_iff by blast
  let ?k = "\<lambda>t. (tst_position t, tst_id t)"
  let ?rows = "filter (\<lambda>t. tst_problem_id t = tst_problem_id r') (problem_tests db)"
  have "distinct (map tst_id (problem_tests db @ [r']))"
    using wf new(1) by (intro ascending_distinct) (fastforce simp: wf_problems_def sorted_wrt_append)
  then have keys: "distinct (map ?k (?rows @ [r']))" "distinct (map ?k (sort_key ?k ?rows @ [r']))"
    by (auto simp: distinct_map inj_on_def)
  show "cat db' = spec_tests (tst_problem_id r') (\<lambda>ts. in_order (ts @ [show_test r'])) (cat db)"
  proof (rule cat_tests_update)
    have "in_order (map show_test (select_tests (tst_problem_id r') True db) @ [show_test r'])
        = in_order (map show_test (select_tests (tst_problem_id r') True db @ [r']))" by simp
    also have "\<dots> = map show_test (sort_key ?k (?rows @ [r']))"
      unfolding in_order_show select_tests_def
      using sort_key_unique [OF _ keys(2,1)] by simp
    finally show "map show_test (select_tests (tst_problem_id r') True db')
        = in_order (map show_test (select_tests (tst_problem_id r') True db) @ [show_test r'])"
      by (simp add: new(2) select_tests_def)
  qed (simp_all add: new(2) select_tests_def)
qed

lemma cat_update_test:
  assumes wf: "wf_problems db" and up: "update_test new n db = Some (Some r', db')"
  shows "(\<exists>p. cat db (tst_problem_id new) = Some p
      \<and> (\<exists>u \<in> set (pb_hidden_tests p). tc_id u = tst_id new \<and> tc_revision u = n))
    \<and> tst_revision r' = n + 1 \<and> tst_id r' = tst_id new \<and> tst_problem_id r' = tst_problem_id new
    \<and> cat db' = spec_tests (tst_problem_id new) (replace_test (show_test r')) (cat db)"
  using wf up
proof (cases rule: update_test_cases)
  case (revised t)
  let ?k = "\<lambda>t. (tst_position t, tst_id t)" and ?p = "tst_problem_id new"
  define f where "f = (\<lambda>u. if tst_id u = tst_id t then revised_test new t else u)"
  have t: "tst_id t = tst_id new" "tst_problem_id t = ?p" "tst_revision t = n"
    using revised(2) by (simp_all add: this_test_def)
  have r': "r' = revised_test new t" using revised(3) by simp
  have ids: "tst_id (f u) = tst_id u" for u by (simp add: f_def)
  have pids: "tst_problem_id (f u) = tst_problem_id u" if "u \<in> set (problem_tests db)" for u
    using test_id_eq [OF wf revised(1) that] by (simp add: f_def)
  have db': "db' = db\<lparr>problem_tests := map f (problem_tests db)\<rparr>" using revised(7) by (simp add: f_def)
  have rows: "filter (\<lambda>t. tst_problem_id t = j) (map f (problem_tests db))
      = map f (filter (\<lambda>t. tst_problem_id t = j) (problem_tests db))" for j
    unfolding filter_map comp_def using pids by (intro arg_cong [where f = "map f"] filter_cong) auto
  have same: "map f (filter (\<lambda>t. tst_problem_id t = j) (problem_tests db))
      = filter (\<lambda>t. tst_problem_id t = j) (problem_tests db)" if "j \<noteq> ?p" for j
    using that t(2) test_id_eq [OF wf revised(1)] by (intro map_idI) (auto simp: f_def)
  have "distinct (map tst_id (problem_tests db))"
    using wf by (intro ascending_distinct) (simp add: wf_problems_def)
  then have keys: "distinct (map ?k (map f (filter P (problem_tests db))))"
    "distinct (map ?k (map f (sort_key ?k (filter P (problem_tests db)))))" for P
    by (auto simp: distinct_map inj_on_def ids)
  have "cat db' = spec_tests ?p (replace_test (show_test r')) (cat db)"
  proof (rule cat_tests_update)
    have "map (\<lambda>u. if tc_id u = tc_id (show_test r') then show_test r' else u) (map show_test xs)
        = map show_test (map f xs)" for xs
      by (simp add: f_def r' show_test_key)
    then have "replace_test (show_test r') (map show_test xs) = map show_test (sort_key ?k (map f xs))" for xs
      by (simp only: replace_test_def in_order_show)
    moreover have "sort_key ?k (map f (sort_key ?k (filter (\<lambda>t. tst_problem_id t = ?p) (problem_tests db))))
        = sort_key ?k (map f (filter (\<lambda>t. tst_problem_id t = ?p) (problem_tests db)))"
      by (rule sort_key_unique [OF _ keys(2,1)]) simp
    ultimately show "map show_test (select_tests ?p True db')
        = replace_test (show_test r') (map show_test (select_tests ?p True db))"
      by (simp add: db' select_tests_def rows)
  qed (simp_all add: db' select_tests_def rows same)
  moreover obtain p where p: "cat db ?p = Some p"
    using wf_tests_reference [OF wf revised(1)] cat_None_iff [of db ?p] t(2) by auto
  moreover from p have "pb_hidden_tests p = map show_test (select_tests ?p True db)"
    by (auto simp: catalogue_of_def)
  then have "show_test t \<in> set (pb_hidden_tests p)"
    using revised(1) t(2) by (simp add: select_tests_def)
  then have "\<exists>u \<in> set (pb_hidden_tests p). tc_id u = tst_id new \<and> tc_revision u = n"
    using t by (intro bexI [of _ "show_test t"]) (simp_all add: show_test_key)
  ultimately show ?thesis using t r' by simp
qed simp

lemma cat_delete_test:
  assumes wf: "wf_problems db"
  shows "fst (delete_test n i db) \<longleftrightarrow> (\<exists>p. cat db i = Some p \<and> n \<in> tc_id ` set (pb_hidden_tests p))"
    and "cat (snd (delete_test n i db)) = spec_tests i (filter (\<lambda>u. tc_id u \<noteq> n)) (cat db)"
proof -
  have "tc_id ` set (map show_test (select_tests i True db))
      = tst_id ` {t \<in> set (problem_tests db). tst_problem_id t = i}"
    by (simp add: select_tests_def image_image show_test_key)
  then have "n \<in> tc_id ` set (map show_test (select_tests i True db)) \<longleftrightarrow> fst (delete_test n i db)"
    by (auto simp: delete_test_def list_ex_iff)
  moreover have "cat db i \<noteq> None" if "fst (delete_test n i db)"
    using that wf_tests_reference [OF wf] by (auto simp: delete_test_def list_ex_iff cat_None_iff)
  ultimately show "fst (delete_test n i db) \<longleftrightarrow> (\<exists>p. cat db i = Some p \<and> n \<in> tc_id ` set (pb_hidden_tests p))"
    by (auto simp: catalogue_of_def)
  show "cat (snd (delete_test n i db)) = spec_tests i (filter (\<lambda>u. tc_id u \<noteq> n)) (cat db)"
  proof (rule cat_tests_update)
    fix j
    assume "j \<noteq> i"
    then show "select_tests j True (snd (delete_test n i db)) = select_tests j True db"
      unfolding select_tests_def delete_test_def
      by (simp, intro arg_cong [where f = "sort_key _"] filter_cong) auto
  next
    have "filter (\<lambda>u. tc_id u \<noteq> n) (map show_test xs) = map show_test (filter (\<lambda>t. tst_id t \<noteq> n) xs)" for xs
      by (simp add: filter_map comp_def show_test_key)
    moreover have "select_tests i True (snd (delete_test n i db)) = filter (\<lambda>t. tst_id t \<noteq> n) (select_tests i True db)"
      unfolding select_tests_def delete_test_def filter_sort
      by (simp, intro arg_cong [where f = "sort_key _"] filter_cong) auto
    ultimately show "map show_test (select_tests i True (snd (delete_test n i db)))
        = filter (\<lambda>u. tc_id u \<noteq> n) (map show_test (select_tests i True db))" by simp
  qed (simp add: delete_test_def)
qed

lemma judging_tests:
  "map show_test (select_tests i False db) = filter tc_enabled (map show_test (select_tests i True db))"
proof -
  have "filter tst_enabled (select_tests i True db) = select_tests i False db"
    unfolding select_tests_def filter_sort
    by simp
  then show ?thesis by (simp add: filter_map comp_def show_test_key)
qed

lemma ran_cat:
  assumes "wf_problems db"
  shows "without_tests ` {p \<in> ran (cat db). P (pb_enabled p)}
    = (\<lambda>r. (show_problem r)\<lparr>pb_hidden_tests := []\<rparr>) ` {r \<in> set (problems db). P (prb_enabled r)}"
  unfolding ran_def cat_Some_iff [OF assms]
  by (fastforce simp: without_tests_def show_enabled image_iff)

end

section \<open>Reading a row back\<close>

definition test_of :: "test_row \<Rightarrow> problem_test_case" where
  "test_of t = \<lparr>tc_input = tst_input t, tc_expected_output = tst_expected_output t, tc_id = tst_id t,
     tc_position = tst_position t, tc_enabled = tst_enabled t, tc_revision = tst_revision t\<rparr>"

text \<open>A row whose columns cannot be read has no problem; the catalogue shows its keys only.\<close>

definition show_row :: "'j json_lib \<Rightarrow> 'j json_text_lib \<Rightarrow> 't problem_row \<Rightarrow> problem" where
  "show_row J W r = (case read_metadata J W r of Inr p \<Rightarrow> p
     | Inl _ \<Rightarrow> \<lparr>pb_id = prb_id r, pb_title = [], pb_description = [], pb_input_format = [],
         pb_output_format = [], pb_difficulty = easy, pb_tags = [], pb_languages = [],
         pb_examples = [], pb_enabled = prb_enabled r, pb_revision = prb_revision r,
         pb_hidden_tests = []\<rparr>)"

lemma read_metadata_fields:
  assumes "read_metadata J W r = Inr p"
  shows "pb_id p = prb_id r" "pb_revision p = prb_revision r" "pb_enabled p = prb_enabled r"
    "pb_hidden_tests p = []"
  using assms by (auto simp: read_metadata_def split: option.splits if_splits)

lemma show_row_fields [simp]:
  "pb_id (show_row J W r) = prb_id r" "pb_revision (show_row J W r) = prb_revision r"
  "pb_enabled (show_row J W r) = prb_enabled r"
  by (auto simp: show_row_def read_metadata_fields split: sum.splits)

lemma show_row_read: "read_metadata J W r = Inr p \<Longrightarrow> show_row J W r = p"
  by (simp add: show_row_def)

text \<open>The JSON columns of a problem, as texts that are stored and read back.\<close>

definition json_readable :: "'j json_lib \<Rightarrow> 'j json_text_lib \<Rightarrow> (string \<Rightarrow> string option) \<Rightarrow> problem \<Rightarrow> bool" where
  "json_readable J W stored p \<longleftrightarrow> json_laws J \<and>
     Option.bind (stored (json_text W (strings_json J (pb_tags p)))) (parse_json W)
       = Some (strings_json J (pb_tags p)) \<and>
     Option.bind (stored (json_text W (strings_json J (pb_languages p)))) (parse_json W)
       = Some (strings_json J (pb_languages p)) \<and>
     Option.bind (stored (json_text W (examples_json J (pb_examples p)))) (parse_json W)
       = Some (examples_json J (pb_examples p))"

lemma read_metadata_columns:
  assumes laws: "json_laws J" and row: "prb_difficulty r = difficulty_name (pb_difficulty p)"
    "parse_json W (prb_tags_json r) = Some (strings_json J (pb_tags p))"
    "parse_json W (prb_languages_json r) = Some (strings_json J (pb_languages p))"
    "parse_json W (prb_examples_json r) = Some (examples_json J (pb_examples p))"
  shows "read_metadata J W r = Inr (p\<lparr>pb_id := prb_id r, pb_title := prb_title r,
     pb_description := prb_description r, pb_input_format := prb_input_format r,
     pb_output_format := prb_output_format r, pb_enabled := prb_enabled r,
     pb_revision := prb_revision r, pb_hidden_tests := []\<rparr>)"
proof -
  have strings: "map (asString J) (map (stringValue J) ss) = ss" for ss
    by (induction ss) (simp_all add: json_scalars [OF laws])
  show ?thesis
    using strings
    by (simp add: read_metadata_def row strings_json_def examples_json_def json_array_elements [OF laws]
        parse_examples_map [OF laws])
qed

lemma distinct_map_show: "distinct (map prb_id rs) \<Longrightarrow> (\<And>r. pb_id (f r) = prb_id r) \<Longrightarrow> distinct (map pb_id (map f rs))"
  by (simp add: comp_def)

section \<open>Seeding\<close>

text \<open>
  What the start-up of either repository does to the tables: each built-in problem that is missing
  is inserted and then its hidden tests; one that is present is left alone.
\<close>

definition seed_test_row :: "string \<Rightarrow> nat \<Rightarrow> problem_test_case \<Rightarrow> test_row" where
  "seed_test_row i index t = \<lparr>tst_id = 0, tst_problem_id = i, tst_input = tc_input t,
     tst_expected_output = tc_expected_output t, tst_position = int index, tst_enabled = True,
     tst_revision = 1\<rparr>"

inductive tests_added :: "string \<Rightarrow> 't database \<Rightarrow> 't database \<Rightarrow> bool" for i where
  No_test: "tests_added i db db"
| Add_test: "insert_test gap r db = Some (r', db1) \<Longrightarrow> tst_problem_id r = i \<Longrightarrow> tst_revision r = 1 \<Longrightarrow>
     tests_added i db1 db' \<Longrightarrow> tests_added i db db'"

inductive seeded :: "problem list \<Rightarrow> 't database \<Rightarrow> 't database \<Rightarrow> bool" where
  No_problem: "seeded [] db db"
| Present: "pb_id p \<in> prb_id ` set (problems db) \<Longrightarrow> seeded ps db db' \<Longrightarrow> seeded (p # ps) db db'"
| Missing: "insert_problem r db = Some db1 \<Longrightarrow> prb_id r = pb_id p \<Longrightarrow> tests_added (pb_id p) db1 db2 \<Longrightarrow>
     seeded ps db2 db' \<Longrightarrow> seeded (p # ps) db db'"

lemma tests_added_keeps:
  assumes "tests_added i db db'" "wf_problems db"
  shows "wf_problems db' \<and> problems db' = problems db
    \<and> (\<forall>j. j \<noteq> i \<longrightarrow> select_tests j True db' = select_tests j True db)"
  using assms
proof induction
  case (Add_test gap r db r' db1 db')
  note new = insert_test_Some [OF Add_test.hyps(1)]
  have "wf_problems db1"
    by (rule wf_insert_test [OF Add_test.prems Add_test.hyps(1)]) (simp add: Add_test.hyps int64_range_def)
  moreover have "select_tests j True db1 = select_tests j True db" if "j \<noteq> i" for j
    using that Add_test.hyps(2) by (simp add: new(1,2) select_tests_def)
  ultimately show ?case using Add_test.IH new(2) by simp
qed simp

lemma seeded_keeps:
  assumes "seeded ps db db'" "wf_problems db"
  shows "wf_problems db' \<and> (\<exists>rs. problems db' = problems db @ rs)
    \<and> prb_id ` set (problems db') = prb_id ` set (problems db) \<union> pb_id ` set ps
    \<and> (\<forall>i \<in> prb_id ` set (problems db). select_tests i True db' = select_tests i True db)"
  using assms
proof induction
  case (Missing r db db1 p db2 ps db')
  have rows: "problems db1 = problems db @ [r]" and fresh: "prb_id r \<notin> prb_id ` set (problems db)"
    and tests: "problem_tests db1 = problem_tests db"
    using Missing.hyps(1) by (auto simp: insert_problem_def split: if_splits)
  note added = tests_added_keeps [OF Missing.hyps(3) wf_insert_problem [OF Missing.prems Missing.hyps(1)]]
  have "select_tests i True db2 = select_tests i True db" if "i \<in> prb_id ` set (problems db)" for i
  proof -
    have "i \<noteq> pb_id p" using that fresh Missing.hyps(2) by metis
    then show ?thesis using added tests by (simp add: select_tests_def)
  qed
  then show ?case using Missing.IH added rows Missing.hyps(2) by auto
qed auto

context row_view
begin

lemma cat_seeded:
  assumes "seeded ps db db'" "wf_problems db"
  shows "wf_problems db' \<and> dom (cat db') = dom (cat db) \<union> pb_id ` set ps
    \<and> (\<forall>i \<in> dom (cat db). cat db' i = cat db i)"
proof -
  note kept = seeded_keeps [OF assms]
  have dom: "dom (cat d) = prb_id ` set (problems d)" for d
    using cat_None_iff [of d] by (auto simp: dom_def)
  have "cat db' i = cat db i" if "i \<in> dom (cat db)" for i
  proof -
    obtain rs where "problems db' = problems db @ rs" using kept by blast
    moreover have "List.find (\<lambda>r. prb_id r = i) (problems db) \<noteq> None"
      using that by (auto simp: dom find_None_iff)
    ultimately have "List.find (\<lambda>r. prb_id r = i) (problems db') = List.find (\<lambda>r. prb_id r = i) (problems db)"
      by (auto simp: find_append_iff)
    moreover have "select_tests i True db' = select_tests i True db" using kept that unfolding dom by blast
    ultimately show ?thesis by (simp add: catalogue_of_def)
  qed
  then show ?thesis using kept by (simp add: dom)
qed

end

section \<open>An example\<close>

text \<open>A writer and reader of the empty array, and a problem without tags, languages and examples.\<close>

definition bare_text :: "json json_text_lib" where
  "bare_text = \<lparr>writeString = \<lambda>_. ''[]'', parseText = \<lambda>_. Some (JArray [])\<rparr>"

definition bare_problem :: problem where
  "bare_problem = sample_problem\<lparr>pb_tags := [], pb_languages := [], pb_examples := [], pb_revision := 1\<rparr>"

lemma bare_readable:
  assumes "stored ''[]'' \<noteq> None" "pb_tags p = []" "pb_languages p = []" "pb_examples p = []"
  shows "json_readable plain_json bare_text stored p"
proof -
  have "json_array plain_json [] = JArray []" by (simp add: json_array_def plain_json_def)
  then show ?thesis
    using assms json_laws_plain
    by (auto simp: json_readable_def bare_text_def json_text_def parse_json_def strings_json_def examples_json_def)
qed

end
