(* ===== verification/Pg_Problems.thy ===== *)
theory Pg_Problems
  imports Problem_Queries Pg_Client Catalog
begin

text \<open>
  \<^verbatim>\<open>PostgreSQLProblemRepository\<close>
  (\<^verbatim>\<open>backend/src/postgresql-problem-repository.cpp\<close>): opening with the seeding of the
  built-in problems, every member function with each of its error returns, and the interpretation of
  \<open>problem_store\<close>.

  Texts are sent as C strings. The JSON columns are converted by the server (\<open>jsonb\<close>, which
  rejects what is not JSON). A lookup with hidden tests is two statements: the second sees
  \<open>pg_view e 1\<close> of the state, since other connections may have written in between. Inside the
  transaction of \<^verbatim>\<open>open\<close> statements are numbered by a counter.
\<close>

section \<open>Reading\<close>

definition boolean_text :: "bool \<Rightarrow> string" where
  "boolean_text b = (if b then ''t'' else ''f'')"

text \<open>The columns of a row as the server sends them, and what the program reads back.\<close>

definition problem_tuple :: "'t problem_row \<Rightarrow> string option list" where
  "problem_tuple r = map Some [prb_id r, prb_title r, prb_description r, prb_input_format r,
     prb_output_format r, prb_difficulty r, prb_tags_json r, prb_languages_json r,
     prb_examples_json r, boolean_text (prb_enabled r), to_string (prb_revision r)]"

definition pg_problem_row :: "pg_result \<Rightarrow> nat \<Rightarrow> unit problem_row" where
  "pg_problem_row res i = \<lparr>prb_id = pg_value res i 0, prb_title = pg_value res i 1,
     prb_description = pg_value res i 2, prb_input_format = pg_value res i 3,
     prb_output_format = pg_value res i 4, prb_difficulty = pg_value res i 5,
     prb_tags_json = pg_value res i 6, prb_languages_json = pg_value res i 7,
     prb_examples_json = pg_value res i 8, prb_enabled = (pg_value res i 9 = ''t''),
     prb_created_at = (), prb_updated_at = (), prb_revision = pg_integer (pg_value res i 10)\<rparr>"

definition test_tuple :: "test_row \<Rightarrow> string option list" where
  "test_tuple t = map Some [tst_input t, tst_expected_output t, to_string (tst_id t),
     to_string (tst_position t), boolean_text (tst_enabled t), to_string (tst_revision t)]"

definition pg_test :: "pg_result \<Rightarrow> nat \<Rightarrow> problem_test_case" where
  "pg_test res i = \<lparr>tc_input = pg_value res i 0, tc_expected_output = pg_value res i 1,
     tc_id = pg_integer (pg_value res i 2), tc_position = pg_integer (pg_value res i 3),
     tc_enabled = (pg_value res i 4 = ''t''), tc_revision = pg_integer (pg_value res i 5)\<rparr>"

definition pg_read_problem ::
    "'j json_lib \<Rightarrow> 'j json_text_lib \<Rightarrow> pg_env \<Rightarrow> int database \<Rightarrow> pg_result \<Rightarrow> nat \<Rightarrow> bool \<Rightarrow> bool
       \<Rightarrow> problem_repository_error + problem" where
  "pg_read_problem J W e db row index include_tests include_disabled =
     (case read_metadata J W (pg_problem_row row index) of Inl err \<Rightarrow> Inl err
      | Inr problem \<Rightarrow>
        if \<not> include_tests then Inr problem
        else let tests = fst (pg_execute e 1 (Some (Tuples_ok (map test_tuple
                   (select_tests (c_str (pb_id problem)) include_disabled (pg_view e 1 db))), db)) db)
             in if \<not> pg_tuples_ok tests
                then Inl (ProblemRepositoryError ''Could not retrieve hidden tests'')
                else Inr (problem\<lparr>pb_hidden_tests := map (pg_test tests) [0..<pg_rows tests]\<rparr>))"

fun pg_collect_problems ::
    "'j json_lib \<Rightarrow> 'j json_text_lib \<Rightarrow> pg_env \<Rightarrow> int database \<Rightarrow> pg_result \<Rightarrow> nat list
       \<Rightarrow> problem_repository_error + problem list" where
  "pg_collect_problems J W e db res [] = Inr []"
| "pg_collect_problems J W e db res (row # rows) =
     (case pg_read_problem J W e db res row False False of Inl err \<Rightarrow> Inl err
      | Inr p \<Rightarrow> (case pg_collect_problems J W e db res rows of Inl err \<Rightarrow> Inl err
          | Inr ps \<Rightarrow> Inr (p # ps)))"

definition pg_list ::
    "'j json_lib \<Rightarrow> 'j json_text_lib \<Rightarrow> (int problem_row \<Rightarrow> bool) \<Rightarrow> pg_env \<Rightarrow> int database
       \<Rightarrow> problem_repository_error + problem list" where
  "pg_list J W condition e db =
     (let result = fst (pg_execute e 0 (Some (Tuples_ok (map problem_tuple
            (sort_key (\<lambda>r. (prb_created_at r, prb_id r)) (filter condition (problems db)))), db)) db)
      in if \<not> pg_tuples_ok result
         then Inl (ProblemRepositoryError ''Could not retrieve problem list'')
         else pg_collect_problems J W e db result [0..<pg_rows result])"

definition pg_lookup ::
    "'j json_lib \<Rightarrow> 'j json_text_lib \<Rightarrow> (int problem_row \<Rightarrow> bool) \<Rightarrow> bool \<Rightarrow> bool \<Rightarrow> pg_env \<Rightarrow> string
       \<Rightarrow> int database \<Rightarrow> problem_repository_error + problem option" where
  "pg_lookup J W condition tests disabled_tests e i db =
     (let result = fst (pg_execute e 0 (Some (Tuples_ok (map problem_tuple
            (filter (\<lambda>r. prb_id r = c_str i \<and> condition r) (problems db))), db)) db)
      in if \<not> pg_tuples_ok result then Inl (ProblemRepositoryError ''Could not retrieve problem'')
         else if pg_rows result = 0 then Inr None
         else case pg_read_problem J W e db result 0 tests disabled_tests of Inl err \<Rightarrow> Inl err
           | Inr p \<Rightarrow> Inr (Some p))"

definition pg_list_enabled where
  "pg_list_enabled J W e db = pg_list J W prb_enabled e db"

definition pg_list_all_problems where
  "pg_list_all_problems J W e db = pg_list J W (\<lambda>_. True) e db"

definition pg_find_enabled where
  "pg_find_enabled J W e i db = pg_lookup J W prb_enabled False False e i db"

definition pg_find_for_judging where
  "pg_find_for_judging J W e i db = pg_lookup J W (\<lambda>_. True) True False e i db"

definition pg_find_any where
  "pg_find_any J W e i db = pg_lookup J W (\<lambda>_. True) True True e i db"

section \<open>Writing\<close>

text \<open>The row a statement writes; None when the server rejects one of the JSON texts.\<close>

definition pg_columns_of ::
    "'j json_lib \<Rightarrow> 'j json_text_lib \<Rightarrow> pg_env \<Rightarrow> problem \<Rightarrow> int problem_row option" where
  "pg_columns_of J W e p =
     (case (jsonb e (c_str (json_text W (strings_json J (pb_tags p)))),
            jsonb e (c_str (json_text W (strings_json J (pb_languages p)))),
            jsonb e (c_str (json_text W (examples_json J (pb_examples p))))) of
        (Some tags, Some languages, Some examples) \<Rightarrow>
          Some (problem_columns (clock e) ((cut_problem p)\<lparr>pb_id := c_str (pb_id p)\<rparr>)
            tags languages examples)
      | _ \<Rightarrow> None)"

definition pg_create_problem ::
    "'j json_lib \<Rightarrow> 'j json_text_lib \<Rightarrow> pg_env \<Rightarrow> problem \<Rightarrow> int database
       \<Rightarrow> (problem_repository_error + problem) \<times> int database" where
  "pg_create_problem J W e p db =
     (let (result, db') = pg_execute e 0 (Option.bind (pg_columns_of J W e p) (\<lambda>r.
            map_option (Pair (Tuples_ok [[Some (to_string (prb_revision r))]])) (insert_problem r db))) db
      in if \<not> pg_tuples_ok result \<or> pg_rows result \<noteq> 1
         then (Inl (ProblemRepositoryError ''Problem could not be created''), db')
         else (Inr (p\<lparr>pb_revision := pg_integer (pg_value result 0 0)\<rparr>), db'))"

definition revision_tuples :: "int64 option \<Rightarrow> pg_result" where
  "revision_tuples n = Tuples_ok (case n of None \<Rightarrow> [] | Some i \<Rightarrow> [[Some (to_string i)]])"

definition pg_update_problem ::
    "'j json_lib \<Rightarrow> 'j json_text_lib \<Rightarrow> pg_env \<Rightarrow> problem \<Rightarrow> int database
       \<Rightarrow> (problem_repository_error + problem) \<times> int database" where
  "pg_update_problem J W e p db =
     (let (result, db') = pg_execute e 0 (Option.bind (pg_columns_of J W e p) (\<lambda>new.
            map_option (\<lambda>(found, d). (revision_tuples (map_option prb_revision found), d))
              (update_problem new (pb_revision p) db))) db
      in if \<not> pg_tuples_ok result then (Inl (ProblemRepositoryError ''Problem could not be updated''), db')
         else if pg_rows result = 0
         then (Inl (ProblemRepositoryError ''Problem was changed by another administrator''), db')
         else (Inr (p\<lparr>pb_revision := pg_integer (pg_value result 0 0)\<rparr>), db'))"

text \<open>\<^verbatim>\<open>DELETE \<dots> RETURNING id\<close> returns one row when there was one to delete.\<close>

definition deleted_tuples :: "bool \<Rightarrow> string \<Rightarrow> pg_result" where
  "deleted_tuples gone i = Tuples_ok (if gone then [[Some i]] else [])"

definition pg_remove_problem ::
    "pg_env \<Rightarrow> string \<Rightarrow> int database \<Rightarrow> (problem_repository_error + bool) \<times> int database" where
  "pg_remove_problem e i db =
     (let (gone, after) = delete_problem (c_str i) db;
          (result, db') = pg_execute e 0 (Some (deleted_tuples gone (c_str i), after)) db
      in if \<not> pg_tuples_ok result then (Inl (ProblemRepositoryError ''Problem could not be deleted''), db')
         else (Inr (pg_rows result \<noteq> 0), db'))"

definition pg_create_test ::
    "nat \<Rightarrow> pg_env \<Rightarrow> string \<Rightarrow> problem_test_case \<Rightarrow> int database
       \<Rightarrow> (problem_repository_error + problem_test_case) \<times> int database" where
  "pg_create_test gap e i t db =
     (let (result, db') = pg_execute e 0 (map_option
            (\<lambda>(r, d). (Tuples_ok [[Some (to_string (tst_id r)), Some (to_string (tst_revision r))]], d))
            (insert_test gap (test_columns (c_str i) (cut_test t)) db)) db
      in if \<not> pg_tuples_ok result \<or> pg_rows result \<noteq> 1
         then (Inl (ProblemRepositoryError ''Hidden test could not be created''), db')
         else (Inr (t\<lparr>tc_id := pg_integer (pg_value result 0 0),
                     tc_revision := pg_integer (pg_value result 0 1)\<rparr>), db'))"

definition pg_update_test ::
    "pg_env \<Rightarrow> string \<Rightarrow> problem_test_case \<Rightarrow> int database
       \<Rightarrow> (problem_repository_error + problem_test_case) \<times> int database" where
  "pg_update_test e i t db =
     (let (result, db') = pg_execute e 0 (map_option
            (\<lambda>(found, d). (revision_tuples (map_option tst_revision found), d))
            (update_test (test_columns (c_str i) (cut_test t)) (tc_revision t) db)) db
      in if \<not> pg_tuples_ok result
         then (Inl (ProblemRepositoryError ''Hidden test could not be updated''), db')
         else if pg_rows result = 0
         then (Inl (ProblemRepositoryError ''Hidden test was changed by another administrator''), db')
         else (Inr (t\<lparr>tc_revision := pg_integer (pg_value result 0 0)\<rparr>), db'))"

definition pg_remove_test ::
    "pg_env \<Rightarrow> string \<Rightarrow> int64 \<Rightarrow> int database \<Rightarrow> (problem_repository_error + bool) \<times> int database" where
  "pg_remove_test e i n db =
     (let (gone, after) = delete_test n (c_str i) db;
          (result, db') = pg_execute e 0 (Some (deleted_tuples gone (to_string n), after)) db
      in if \<not> pg_tuples_ok result then (Inl (ProblemRepositoryError ''Hidden test could not be deleted''), db')
         else (Inr (pg_rows result \<noteq> 0), db'))"

text \<open>\<open>gap\<close> counts the test identifiers lost to failed statements before a call.\<close>

definition pg_problems ::
    "'j json_lib \<Rightarrow> 'j json_text_lib \<Rightarrow> (pg_env \<Rightarrow> nat) \<Rightarrow> (pg_env, int database) problem_repository" where
  "pg_problems J W gap = \<lparr>list_enabled_op = pg_list_enabled J W, find_enabled_op = pg_find_enabled J W,
     find_for_judging_op = pg_find_for_judging J W, list_all_problems_op = pg_list_all_problems J W,
     find_any_op = pg_find_any J W, create_problem_op = pg_create_problem J W,
     update_problem_op = pg_update_problem J W, remove_problem_op = pg_remove_problem,
     create_test_op = (\<lambda>e. pg_create_test (gap e) e), update_test_op = pg_update_test,
     remove_test_op = pg_remove_test\<rparr>"

section \<open>Opening\<close>

text \<open>
  The built-in problems are seeded in one transaction under an advisory lock, which keeps other
  instances from seeding at the same time. \<open>n\<close> numbers its \<^verbatim>\<open>INSERT\<close>
  statements; \<open>gap n\<close> counts the test identifiers lost before statement \<open>n\<close>, or by it when it
  fails. Any failure rolls the transaction back, except that identifiers once handed out stay used.
  \<open>refusal\<close> is the message of a connection that failed; \<open>answer_lost\<close>: a failed
  \<^verbatim>\<open>COMMIT\<close> had taken effect and only its answer did not arrive.
\<close>

definition numbers_lost :: "nat \<Rightarrow> int database \<Rightarrow> int database" where
  "numbers_lost k db = db\<lparr>problem_tests_seq := problem_tests_seq db + int k\<rparr>"

fun pg_seed_tests ::
    "(nat \<Rightarrow> nat) \<Rightarrow> pg_env \<Rightarrow> string \<Rightarrow> nat \<Rightarrow> nat \<Rightarrow> problem_test_case list \<Rightarrow> int database
       \<Rightarrow> (problem_repository_error + nat) \<times> int database" where
  "pg_seed_tests gap e i n index [] db = (Inr n, db)"
| "pg_seed_tests gap e i n index (t # ts) db =
     (let (test, db') = pg_execute e n (map_option (\<lambda>(_, d). (Command_ok, d))
            (insert_test (gap n) (seed_test_row (c_str i) index (cut_test t)) db)) db
      in if \<not> pg_command_ok test
         then (Inl (ProblemRepositoryError (''Could not seed PostgreSQL hidden tests: '' @ pg_error test)),
           numbers_lost (gap n) db')
         else pg_seed_tests gap e i (Suc n) (Suc index) ts db')"

text \<open>\<^verbatim>\<open>INSERT \<dots> ON CONFLICT(id) DO NOTHING RETURNING id\<close>\<close>

definition insert_problem_if_absent :: "int problem_row \<Rightarrow> int database \<Rightarrow> (pg_result \<times> int database) option" where
  "insert_problem_if_absent r db =
     (if prb_id r \<in> prb_id ` set (problems db) then Some (Tuples_ok [], db)
      else map_option (Pair (Tuples_ok [[Some (prb_id r)]])) (insert_problem r db))"

fun pg_seed_problems ::
    "'j json_lib \<Rightarrow> 'j json_text_lib \<Rightarrow> (nat \<Rightarrow> nat) \<Rightarrow> pg_env \<Rightarrow> nat \<Rightarrow> problem list \<Rightarrow> int database
       \<Rightarrow> problem_repository_error option \<times> int database" where
  "pg_seed_problems J W gap e n [] db = (None, db)"
| "pg_seed_problems J W gap e n (p # ps) db =
     (let (inserted, db1) = pg_execute e n (Option.bind (pg_columns_of J W e (p\<lparr>pb_enabled := True\<rparr>))
            (\<lambda>r. insert_problem_if_absent r db)) db
      in if \<not> pg_tuples_ok inserted
         then (Some (ProblemRepositoryError (''Could not seed PostgreSQL problems: '' @ pg_error inserted)), db1)
         else if pg_rows inserted = 0 then pg_seed_problems J W gap e (Suc n) ps db1
         else case pg_seed_tests gap e (pb_id p) (Suc n) 0 (pb_hidden_tests p) db1 of
           (Inl err, db2) \<Rightarrow> (Some err, db2)
         | (Inr n', db2) \<Rightarrow> pg_seed_problems J W gap e n' ps db2)"

text \<open>\<^verbatim>\<open>ROLLBACK\<close>: the database before, with the identifiers used that the transaction used.\<close>

definition rolled_back :: "int database \<Rightarrow> int database \<Rightarrow> int database" where
  "rolled_back before abandoned = before\<lparr>problem_tests_seq := problem_tests_seq abandoned\<rparr>"

definition pg_open_problems ::
    "'j json_lib \<Rightarrow> 'j json_text_lib \<Rightarrow> (nat \<Rightarrow> nat) \<Rightarrow> string option \<Rightarrow> bool \<Rightarrow> pg_env \<Rightarrow> int database
       \<Rightarrow> problem_repository_error option \<times> int database" where
  "pg_open_problems J W gap refusal answer_lost e db =
     (if refusal \<noteq> None
      then (Some (ProblemRepositoryError (''Could not connect to PostgreSQL: '' @ the refusal)), db)
      else if begin_fault e then (Some (ProblemRepositoryError ''Could not begin PostgreSQL problem seeding''), db)
      else if lock_fault e
      then (Some (ProblemRepositoryError ''Could not lock PostgreSQL problem seeding''), db)
      else case pg_seed_problems J W gap e 0 default_problems db of
          (Some err, db1) \<Rightarrow> (Some err, rolled_back db db1)
        | (None, db1) \<Rightarrow> if commit_fault e
            then (Some (ProblemRepositoryError ''Could not commit PostgreSQL problem seeding''),
              if answer_lost then db1 else rolled_back db db1)
            else (None, db1))"

section \<open>The wire\<close>

interpretation pg_row: row_view "show_row J W" test_of for J W
  by unfold_locales (simp_all add: test_of_def)

definition pg_catalogue :: "'j json_lib \<Rightarrow> 'j json_text_lib \<Rightarrow> int database \<Rightarrow> catalogue" where
  "pg_catalogue J W = catalogue_of (show_row J W) test_of"

definition pg_storable :: "'j json_lib \<Rightarrow> 'j json_text_lib \<Rightarrow> pg_env \<Rightarrow> problem \<Rightarrow> bool" where
  "pg_storable J W e = json_readable J W (jsonb e \<circ> c_str)"

definition pg_isolated :: "pg_env \<Rightarrow> int database \<Rightarrow> bool" where
  "pg_isolated e db \<longleftrightarrow> pg_view e 1 db = db"

lemma boolean_text_t [simp]: "boolean_text b = ''t'' \<longleftrightarrow> b"
  by (simp add: boolean_text_def)

lemma read_metadata_wire:
  assumes "k < length rs" "int64_range (prb_revision (rs ! k))"
  shows "read_metadata J W (pg_problem_row (Tuples_ok (map problem_tuple rs)) k) = read_metadata J W (rs ! k)"
  using assms by (simp add: read_metadata_def pg_problem_row_def pg_value_Tuples problem_tuple_def
      split: option.splits)

lemma pg_test_wire:
  assumes "k < length ts" "int64_range (tst_id (ts ! k))" "int64_range (tst_position (ts ! k))"
    "int64_range (tst_revision (ts ! k))"
  shows "pg_test (Tuples_ok (map test_tuple ts)) k = test_of (ts ! k)"
  using assms by (simp add: pg_test_def pg_value_Tuples test_tuple_def test_of_def)

lemma pg_tests_wire:
  assumes "wf_problems db"
  shows "map (pg_test (Tuples_ok (map test_tuple (select_tests i d db)))) [0..<length (select_tests i d db)]
    = map test_of (select_tests i d db)"
proof (rule nth_equalityI)
  fix k
  assume "k < length (map (pg_test (Tuples_ok (map test_tuple (select_tests i d db)))) [0..<length (select_tests i d db)])"
  then have k: "k < length (select_tests i d db)" by simp
  then have "select_tests i d db ! k \<in> set (problem_tests db)"
    using nth_mem [OF k] by (simp add: select_tests_def)
  from wf_problems_tests [OF assms this] k
  show "map (pg_test (Tuples_ok (map test_tuple (select_tests i d db)))) [0..<length (select_tests i d db)] ! k
      = map test_of (select_tests i d db) ! k" by (simp add: pg_test_wire)
qed simp

lemma pg_execute_select:
  assumes "fst (pg_execute e n (Some (Tuples_ok ts, s)) s) = res" "pg_tuples_ok res"
  shows "res = Tuples_ok ts"
  using assms by (auto simp: pg_execute_def split: option.splits)

lemma pg_read_problem_Inr:
  assumes wf: "wf_problems db" and iso: "tests \<longrightarrow> pg_isolated e db" and k: "k < length rs"
    and range: "int64_range (prb_revision (rs ! k))" and id: "nul \<notin> set (prb_id (rs ! k)) \<or> \<not> tests"
    and read: "pg_read_problem J W e db (Tuples_ok (map problem_tuple rs)) k tests disabled = Inr p"
  shows "p = (show_row J W (rs ! k))\<lparr>pb_hidden_tests :=
    (if tests then map test_of (select_tests (prb_id (rs ! k)) disabled db) else [])\<rparr>"
proof -
  obtain q where q: "read_metadata J W (rs ! k) = Inr q"
    using read unfolding pg_read_problem_def read_metadata_wire [OF k range] by (auto split: sum.splits)
  note fields = read_metadata_fields [OF q] and shown = show_row_read [OF q]
  show ?thesis
  proof (cases tests)
    case False
    then show ?thesis
      using read q fields(4) shown unfolding pg_read_problem_def read_metadata_wire [OF k range] by simp
  next
    case True
    define res where "res = fst (pg_execute e 1 (Some (Tuples_ok (map test_tuple
      (select_tests (prb_id (rs ! k)) disabled db)), db)) db)"
    have "pg_tuples_ok res \<and> p = q\<lparr>pb_hidden_tests := map (pg_test res) [0..<pg_rows res]\<rparr>"
      using read q True id iso fields(1) unfolding pg_read_problem_def read_metadata_wire [OF k range]
      by (auto simp: pg_isolated_def Let_def res_def split: if_splits)
    moreover from this have "res = Tuples_ok (map test_tuple (select_tests (prb_id (rs ! k)) disabled db))"
      by (intro pg_execute_select [OF res_def [symmetric]]) blast
    ultimately show ?thesis using True shown pg_tests_wire [OF wf] by simp
  qed
qed

lemma pg_lookup_Inr:
  assumes wf: "wf_problems db" and iso: "tests \<longrightarrow> pg_isolated e db" and i: "nul \<notin> set i"
    and call: "pg_lookup J W condition tests disabled e i db = Inr found"
  shows "found = map_option (\<lambda>r. (show_row J W r)\<lparr>pb_hidden_tests :=
    (if tests then map test_of (select_tests i disabled db) else [])\<rparr>)
      (List.find (\<lambda>r. prb_id r = i \<and> condition r) (problems db))"
proof -
  let ?rs = "filter (\<lambda>r. prb_id r = i \<and> condition r) (problems db)"
  define res where "res = fst (pg_execute e 0 (Some (Tuples_ok (map problem_tuple ?rs), db)) db)"
  have call': "pg_tuples_ok res" "if pg_rows res = 0 then found = None
      else (\<exists>p. pg_read_problem J W e db res 0 tests disabled = Inr p \<and> found = Some p)"
    using call i by (auto simp: pg_lookup_def Let_def res_def split: if_splits sum.splits)
  have res: "res = Tuples_ok (map problem_tuple ?rs)"
    by (rule pg_execute_select [OF res_def [symmetric] call'(1)])
  show ?thesis
  proof (cases ?rs)
    case Nil
    then have "List.find (\<lambda>r. prb_id r = i \<and> condition r) (problems db) = None"
      by (simp add: find_None_iff filter_empty_conv)
    then show ?thesis using call'(2) by (simp add: res Nil)
  next
    case (Cons r rs)
    then have r: "r \<in> set (problems db)" "prb_id r = i" by (auto dest!: filter_eq_ConsD)
    have "int64_range (prb_revision r)" by (rule wf_problems_revision [OF wf r(1)])
    then obtain p where "found = Some p" "p = (show_row J W r)\<lparr>pb_hidden_tests :=
        (if tests then map test_of (select_tests i disabled db) else [])\<rparr>"
      using call'(2) pg_read_problem_Inr [OF wf iso, of 0 "r # rs" J W disabled] i r(2)
      unfolding res Cons by auto
    moreover have "List.find (\<lambda>r. prb_id r = i \<and> condition r) (problems db) = Some r"
      unfolding find_filter Cons by simp
    ultimately show ?thesis by simp
  qed
qed

lemma pg_collect_Inr:
  assumes wf: "wf_problems db" and rs: "set rs \<subseteq> set (problems db)" and ks: "set ks \<subseteq> {..<length rs}"
    and call: "pg_collect_problems J W e db (Tuples_ok (map problem_tuple rs)) ks = Inr ps"
  shows "ps = map (\<lambda>k. (show_row J W (rs ! k))\<lparr>pb_hidden_tests := []\<rparr>) ks"
  using ks call
proof (induction ks arbitrary: ps)
  case (Cons k ks)
  then have k: "k < length rs" by simp
  then have "int64_range (prb_revision (rs ! k))"
    using wf_problems_revision [OF wf] rs nth_mem by blast
  from pg_read_problem_Inr [OF wf _ k this, of False e J W False] Cons show ?case
    by (auto split: sum.splits)
qed simp

lemma pg_list_Inr:
  assumes wf: "wf_problems db" and call: "pg_list J W condition e db = Inr ps"
  shows "ps = map (\<lambda>r. (show_row J W r)\<lparr>pb_hidden_tests := []\<rparr>)
    (sort_key (\<lambda>r. (prb_created_at r, prb_id r)) (filter condition (problems db)))"
proof -
  let ?rs = "sort_key (\<lambda>r. (prb_created_at r, prb_id r)) (filter condition (problems db))"
  define res where "res = fst (pg_execute e 0 (Some (Tuples_ok (map problem_tuple ?rs), db)) db)"
  have call': "pg_tuples_ok res" "pg_collect_problems J W e db res [0..<pg_rows res] = Inr ps"
    using call by (auto simp: pg_list_def Let_def res_def split: if_splits)
  have "res = Tuples_ok (map problem_tuple ?rs)"
    by (rule pg_execute_select [OF res_def [symmetric] call'(1)])
  then have "ps = map (\<lambda>k. (show_row J W (?rs ! k))\<lparr>pb_hidden_tests := []\<rparr>) [0..<length ?rs]"
    using pg_collect_Inr [OF wf, of ?rs "[0..<length ?rs]" J W e ps] call'(2) by (simp add: atLeast0LessThan)
  also have "\<dots> = map (\<lambda>r. (show_row J W r)\<lparr>pb_hidden_tests := []\<rparr>) (map ((!) ?rs) [0..<length ?rs])"
    by simp
  finally show ?thesis by (simp only: map_nth)
qed

section \<open>The contract\<close>

lemma pg_columns_of_Some:
  assumes "pg_columns_of J W e p = Some r"
  shows "\<exists>tags languages examples. r = problem_columns (clock e) ((cut_problem p)\<lparr>pb_id := c_str (pb_id p)\<rparr>)
      tags languages examples
    \<and> jsonb e (c_str (json_text W (strings_json J (pb_tags p)))) = Some tags
    \<and> jsonb e (c_str (json_text W (strings_json J (pb_languages p)))) = Some languages
    \<and> jsonb e (c_str (json_text W (examples_json J (pb_examples p)))) = Some examples"
  using assms by (auto simp: pg_columns_of_def split: option.splits)

lemma pg_columns_fields:
  assumes "pg_columns_of J W e p = Some r" "nul \<notin> set (pb_id p)"
  shows "prb_id r = pb_id p" "prb_revision r = 1"
  using pg_columns_of_Some [OF assms(1)] assms(2) by (auto simp: problem_columns_def)

lemma pg_show_columns:
  assumes stored: "pg_storable J W e p" and cols: "pg_columns_of J W e p = Some r"
  shows "show_row J W (r\<lparr>prb_id := i, prb_created_at := c, prb_revision := n\<rparr>)
    = (cut_problem p)\<lparr>pb_id := i, pb_revision := n, pb_hidden_tests := []\<rparr>"
proof -
  let ?r = "r\<lparr>prb_id := i, prb_created_at := c, prb_revision := n\<rparr>"
  note r = pg_columns_of_Some [OF cols]
  have "read_metadata J W ?r = Inr (p\<lparr>pb_id := prb_id ?r, pb_title := prb_title ?r,
     pb_description := prb_description ?r, pb_input_format := prb_input_format ?r,
     pb_output_format := prb_output_format ?r, pb_enabled := prb_enabled ?r,
     pb_revision := prb_revision ?r, pb_hidden_tests := []\<rparr>)"
    using stored r by (intro read_metadata_columns)
      (auto simp: pg_storable_def json_readable_def problem_columns_def cut_problem_def)
  from show_row_read [OF this] r show ?thesis by (auto simp: problem_columns_def cut_problem_def)
qed

lemma pg_create_problem_cases:
  assumes "pg_create_problem J W e p s = (res, s')"
  obtains (refused) err where "res = Inl err" "s' = s"
  | (stored) r where "pg_columns_of J W e p = Some r" "insert_problem r s = Some s'"
      "res = Inr (p\<lparr>pb_revision := pg_integer (to_string (prb_revision r))\<rparr>)"
  using assms
  by (auto simp: pg_create_problem_def pg_execute_def pg_value_Tuples bind_eq_Some_conv
      split: if_splits option.splits prod.splits)

text \<open>A conditional update of one row: it is refused and changes nothing, or it revised the row.\<close>

lemma pg_execute_revision:
  assumes run: "pg_execute e n (map_option (\<lambda>(found, d). (revision_tuples (map_option key found), d)) effect) s = (res, s')"
    and none: "\<forall>d. effect = Some (None, d) \<longrightarrow> d = s"
  obtains (failed) "\<not> pg_tuples_ok res" "s' = s"
  | (unmatched) "pg_tuples_ok res" "pg_rows res = 0" "s' = s"
  | (revised) r where "pg_tuples_ok res" "pg_rows res = 1" "effect = Some (Some r, s')"
      "pg_value res 0 0 = to_string (key r)"
proof (cases "pg_tuples_ok res")
  case True
  then have "map_option (\<lambda>(found, d). (revision_tuples (map_option key found), d)) effect = Some (res, s')"
    using pg_execute_good [OF run] by simp
  then obtain found where found: "effect = Some (found, s')" "res = revision_tuples (map_option key found)"
    by (auto split: prod.splits)
  show ?thesis
  proof (cases found)
    case None
    then show ?thesis using True found none by (intro unmatched) (simp_all add: revision_tuples_def)
  next
    case (Some r)
    then show ?thesis using True found by (intro revised [of r]) (simp_all add: revision_tuples_def pg_value_Tuples)
  qed
next
  case False
  then show ?thesis
    using run by (intro failed) (auto simp: pg_execute_def revision_tuples_def split: option.splits)
qed

lemma pg_update_problem_cases:
  assumes "pg_update_problem J W e p s = (res, s')"
  obtains (refused) err where "res = Inl err" "s' = s"
  | (updated) new r where "pg_columns_of J W e p = Some new"
      "update_problem new (pb_revision p) s = Some (Some r, s')"
      "res = Inr (p\<lparr>pb_revision := pg_integer (to_string (prb_revision r))\<rparr>)"
proof -
  let ?effect = "Option.bind (pg_columns_of J W e p) (\<lambda>new. update_problem new (pb_revision p) s)"
  have effect: "Option.bind (pg_columns_of J W e p) (\<lambda>new.
      map_option (\<lambda>(found, d). (revision_tuples (map_option prb_revision found), d))
        (update_problem new (pb_revision p) s))
    = map_option (\<lambda>(found, d). (revision_tuples (map_option prb_revision found), d)) ?effect"
    by (cases "pg_columns_of J W e p") simp_all
  obtain result where run: "pg_execute e 0 (map_option
      (\<lambda>(found, d). (revision_tuples (map_option prb_revision found), d)) ?effect) s = (result, s')"
    and res: "res = (if \<not> pg_tuples_ok result then Inl (ProblemRepositoryError ''Problem could not be updated'')
      else if pg_rows result = 0 then Inl (ProblemRepositoryError ''Problem was changed by another administrator'')
      else Inr (p\<lparr>pb_revision := pg_integer (pg_value result 0 0)\<rparr>))"
    using assms unfolding pg_update_problem_def effect by (auto simp: Let_def split: prod.splits if_splits)
  have "\<forall>d. ?effect = Some (None, d) \<longrightarrow> d = s"
    using update_problem_none by (auto simp: bind_eq_Some_conv)
  with run show ?thesis
  proof (cases rule: pg_execute_revision)
    case (revised r)
    then show ?thesis using updated res by (auto simp: bind_eq_Some_conv)
  qed (use res refused in auto)
qed

lemma pg_update_test_cases:
  assumes "pg_update_test e i t s = (res, s')"
  obtains (refused) err where "res = Inl err" "s' = s"
  | (updated) r where "update_test (test_columns (c_str i) (cut_test t)) (tc_revision t) s = Some (Some r, s')"
      "res = Inr (t\<lparr>tc_revision := pg_integer (to_string (tst_revision r))\<rparr>)"
proof -
  obtain result where run: "pg_execute e 0 (map_option
      (\<lambda>(found, d). (revision_tuples (map_option tst_revision found), d))
      (update_test (test_columns (c_str i) (cut_test t)) (tc_revision t) s)) s = (result, s')"
    and res: "res = (if \<not> pg_tuples_ok result then Inl (ProblemRepositoryError ''Hidden test could not be updated'')
      else if pg_rows result = 0 then Inl (ProblemRepositoryError ''Hidden test was changed by another administrator'')
      else Inr (t\<lparr>tc_revision := pg_integer (pg_value result 0 0)\<rparr>))"
    using assms unfolding pg_update_test_def by (auto simp: Let_def split: prod.splits if_splits)
  have "\<forall>d. update_test (test_columns (c_str i) (cut_test t)) (tc_revision t) s = Some (None, d) \<longrightarrow> d = s"
    using update_test_none by blast
  with run show ?thesis
  proof (cases rule: pg_execute_revision)
    case (revised r)
    then show ?thesis using updated res by auto
  qed (use res refused in auto)
qed

lemma pg_create_problem_refines:
  assumes wf: "wf_problems s" and id: "nul \<notin> set (pb_id p)"
    and call: "pg_create_problem J W e p s = (res, s')"
  shows "wf_problems s' \<and> (case res of Inl err \<Rightarrow> s' = s
    | Inr created \<Rightarrow> pg_catalogue J W s (pb_id p) = None \<and> pb_id created = pb_id p
        \<and> (pg_storable J W e p \<longrightarrow> pg_catalogue J W s' = spec_create p (pg_catalogue J W s)))"
  using call
proof (cases rule: pg_create_problem_cases)
  case (stored r)
  note fields = pg_columns_fields [OF stored(1) id]
  have "show_row J W r = (cut_problem p)\<lparr>pb_revision := 1, pb_hidden_tests := []\<rparr>" if "pg_storable J W e p"
  proof -
    have "show_row J W r = (cut_problem p)\<lparr>pb_id := prb_id r, pb_revision := prb_revision r, pb_hidden_tests := []\<rparr>"
      using pg_show_columns [OF that stored(1), where i = "prb_id r" and c = "prb_created_at r" and n = "prb_revision r"]
      by simp
    then show ?thesis by (simp add: fields cut_problem_def)
  qed
  then show ?thesis
    using pg_row.cat_insert_problem [OF wf stored(2), of J W] wf_insert_problem [OF wf stored(2)] stored(3) fields
    by (simp add: pg_catalogue_def spec_create_def)
qed (simp add: wf)

lemma pg_update_problem_refines:
  assumes wf: "wf_problems s" and id: "nul \<notin> set (pb_id p)"
    and call: "pg_update_problem J W e p s = (res, s')"
  shows "wf_problems s' \<and> (case res of Inl err \<Rightarrow> s' = s
    | Inr updated \<Rightarrow> (\<exists>old. pg_catalogue J W s (pb_id p) = Some old \<and> pb_revision old = pb_revision p
        \<and> updated = p\<lparr>pb_revision := pb_revision p + 1\<rparr>
        \<and> (\<exists>new. pg_catalogue J W s' = (pg_catalogue J W s)(pb_id p \<mapsto> new)
             \<and> pb_revision new = pb_revision p + 1)
        \<and> (pg_storable J W e p \<longrightarrow> pg_catalogue J W s' = spec_update old p (pg_catalogue J W s))))"
  using call
proof (cases rule: pg_update_problem_cases)
  case (updated new r)
  note fields = pg_columns_fields [OF updated(1) id]
  obtain q where r: "r = revised_problem new q" "prb_revision q = pb_revision p" "prb_id q = pb_id p"
    and check: "problem_check r"
    using updated(2) fields
    by (auto simp: update_problem_def this_revision_def dest!: find_Some_iff_in split: option.splits if_splits)
  then have range: "int64_range (pb_revision p + 1)" by (simp add: problem_check_def)
  have shown: "show_row J W r = (cut_problem p)\<lparr>pb_revision := pb_revision p + 1, pb_hidden_tests := []\<rparr>"
    if "pg_storable J W e p"
    using pg_show_columns [OF that updated(1), where i = "pb_id p" and c = "prb_created_at q" and n = "pb_revision p + 1"] r
    by (simp add: revised_problem_def cut_problem_def)
  have "res = Inr (p\<lparr>pb_revision := pb_revision p + 1\<rparr>)" using updated(3) r range by simp
  then show ?thesis
    using pg_row.cat_update_problem [OF wf updated(2), of J W] wf_update_problem [OF wf updated(2)] shown fields
    by (fastforce simp: pg_catalogue_def spec_update_def pg_row.show_revision)
qed (simp add: wf)

lemma pg_remove_problem_refines:
  assumes wf: "wf_problems s" and i: "nul \<notin> set i" and call: "pg_remove_problem e i s = (gone, s')"
  shows "wf_problems s' \<and> (case gone of Inl err \<Rightarrow> s' = s
    | Inr b \<Rightarrow> b = (pg_catalogue J W s i \<noteq> None) \<and> pg_catalogue J W s' = (pg_catalogue J W s)(i := None))"
  using call i wf wf_delete_problem [OF wf, of i] pg_row.cat_delete_problem [where J = J and W = W and i = i and db = s]
  by (auto simp: pg_remove_problem_def pg_execute_def deleted_tuples_def pg_catalogue_def
      split: if_splits option.splits prod.splits)

lemma pg_create_test_refines:
  assumes wf: "wf_problems s" and i: "nul \<notin> set i" and call: "pg_create_test gap e i t s = (res, s')"
  shows "wf_problems s' \<and> (case res of Inl err \<Rightarrow> s' = s
    | Inr created \<Rightarrow> pg_catalogue J W s i \<noteq> None
        \<and> pg_catalogue J W s' = spec_tests i (\<lambda>ts. in_order (ts @ [cut_test (t\<lparr>tc_id := tc_id created,
             tc_revision := 1\<rparr>)])) (pg_catalogue J W s))"
proof (cases res)
  case (Inl err)
  then show ?thesis
    using call wf by (auto simp: pg_create_test_def pg_execute_def split: if_splits option.splits prod.splits)
next
  case (Inr created)
  then obtain r where ins: "insert_test gap (test_columns i (cut_test t)) s = Some (r, s')"
    and created: "tc_id created = pg_integer (to_string (tst_id r))"
    using call i by (auto simp: pg_create_test_def pg_execute_def pg_value_Tuples
        split: if_splits option.splits prod.splits)
  note new = insert_test_Some [OF ins]
  have "wf_problems s'" by (rule wf_insert_test [OF wf ins]) (simp add: int64_range_def)
  moreover have "tst_problem_id r = i" "test_of r = cut_test (t\<lparr>tc_id := tst_id r, tc_revision := 1\<rparr>)"
    by (cases t; simp add: new(1) test_of_def test_columns_def cut_test_def)+
  moreover have "tc_id created = tst_id r" using created new(5) by simp
  ultimately show ?thesis
    using pg_row.cat_insert_test [OF wf ins, of J W] by (simp add: Inr pg_catalogue_def)
qed

lemma pg_update_test_refines:
  assumes wf: "wf_problems s" and i: "nul \<notin> set i" and call: "pg_update_test e i t s = (res, s')"
  shows "wf_problems s' \<and> (case res of Inl err \<Rightarrow> s' = s
    | Inr updated \<Rightarrow> updated = t\<lparr>tc_revision := tc_revision t + 1\<rparr>
        \<and> (\<exists>p. pg_catalogue J W s i = Some p
             \<and> (\<exists>u \<in> set (pb_hidden_tests p). tc_id u = tc_id t \<and> tc_revision u = tc_revision t))
        \<and> pg_catalogue J W s' = spec_tests i (replace_test (cut_test updated)) (pg_catalogue J W s))"
  using call
proof (cases rule: pg_update_test_cases)
  case (updated r)
  have up: "update_test (test_columns i (cut_test t)) (tc_revision t) s = Some (Some r, s')"
    using updated(1) i by simp
  obtain u where r: "r = revised_test (test_columns i (cut_test t)) u" "tst_id u = tc_id t"
      "tst_revision u = tc_revision t" and range: "int64_range (tc_revision t + 1)"
    using up by (auto simp: update_test_def this_test_def cut_test_def dest!: find_Some_iff_in
        split: option.splits if_splits)
  then have "test_of r = cut_test (t\<lparr>tc_revision := tc_revision t + 1\<rparr>)"
    by (cases t) (simp add: test_of_def revised_test_def test_columns_def cut_test_def)
  moreover have "res = Inr (t\<lparr>tc_revision := tc_revision t + 1\<rparr>)" using updated(2) r range by simp
  moreover have "tc_id (cut_test t) = tc_id t" by (simp add: cut_test_def)
  ultimately show ?thesis
    using pg_row.cat_update_test [OF wf up, of J W] wf_update_test [OF wf up] by (simp add: pg_catalogue_def)
qed (simp add: wf)

lemma pg_remove_test_refines:
  assumes wf: "wf_problems s" and i: "nul \<notin> set i" and call: "pg_remove_test e i n s = (gone, s')"
  shows "wf_problems s' \<and> (case gone of Inl err \<Rightarrow> s' = s
    | Inr b \<Rightarrow> (b \<longleftrightarrow> (\<exists>p. pg_catalogue J W s i = Some p \<and> n \<in> tc_id ` set (pb_hidden_tests p)))
        \<and> pg_catalogue J W s' = spec_tests i (filter (\<lambda>u. tc_id u \<noteq> n)) (pg_catalogue J W s))"
  using call i wf wf_delete_test [OF wf, of n i]
    pg_row.cat_delete_test [OF wf, where J = J and W = W and n = n and i = i]
  by (auto simp: pg_remove_test_def pg_execute_def deleted_tuples_def pg_catalogue_def
      split: if_splits option.splits prod.splits)

lemma pg_find_refines:
  assumes wf: "wf_problems s" and i: "nul \<notin> set i"
  shows "pg_isolated e s \<Longrightarrow> pg_find_any J W e i s = Inr found \<Longrightarrow> found = pg_catalogue J W s i"
    and "pg_isolated e s \<Longrightarrow> pg_find_for_judging J W e i s = Inr found \<Longrightarrow>
      found = map_option judging_view (pg_catalogue J W s i)"
    and "pg_find_enabled J W e i s = Inr found \<Longrightarrow>
      found = (case pg_catalogue J W s i of
        Some p \<Rightarrow> if pb_enabled p then Some (without_tests p) else None | None \<Rightarrow> None)"
proof -
  have enabled_tests: "map test_of (select_tests i False s) = filter tc_enabled (map test_of (select_tests i True s))"
    by (rule pg_row.judging_tests)
  show "found = pg_catalogue J W s i" if "pg_isolated e s" "pg_find_any J W e i s = Inr found"
    using pg_lookup_Inr [OF wf _ i that(2) [unfolded pg_find_any_def]] that(1)
    by (simp add: pg_catalogue_def catalogue_of_def)
  show "found = map_option judging_view (pg_catalogue J W s i)"
    if "pg_isolated e s" "pg_find_for_judging J W e i s = Inr found"
    using pg_lookup_Inr [OF wf _ i that(2) [unfolded pg_find_for_judging_def]] that(1) unfolding enabled_tests
    by (simp add: pg_catalogue_def catalogue_of_def judging_view_def option.map_comp comp_def)
  show "found = (case pg_catalogue J W s i of
        Some p \<Rightarrow> if pb_enabled p then Some (without_tests p) else None | None \<Rightarrow> None)"
    if "pg_find_enabled J W e i s = Inr found"
    using pg_lookup_Inr [OF wf _ i that [unfolded pg_find_enabled_def]] find_key_and [of prb_id "problems s" i prb_enabled] wf
    by (cases "List.find (\<lambda>r. prb_id r = i) (problems s)")
      (simp_all add: pg_catalogue_def catalogue_of_def without_tests_def wf_problems_def)
qed

lemma pg_list_refines:
  assumes wf: "wf_problems s"
  shows "pg_list_all_problems J W e s = Inr ps \<Longrightarrow>
      distinct (map pb_id ps) \<and> set ps = without_tests ` ran (pg_catalogue J W s)"
    and "pg_list_enabled J W e s = Inr ps \<Longrightarrow>
      distinct (map pb_id ps) \<and> set ps = without_tests ` {p \<in> ran (pg_catalogue J W s). pb_enabled p}"
proof -
  let ?k = "\<lambda>r. (prb_created_at r, prb_id r)"
  have ids: "distinct (map prb_id (sort_key ?k (filter P (problems s))))" for P
    using wf by (auto simp: wf_problems_def distinct_map inj_on_def)
  show "distinct (map pb_id ps) \<and> set ps = without_tests ` ran (pg_catalogue J W s)"
    if "pg_list_all_problems J W e s = Inr ps"
    using pg_list_Inr [OF wf that [unfolded pg_list_all_problems_def]] ids [of "\<lambda>_. True"]
      pg_row.ran_cat [OF wf, where P = "\<lambda>_. True" and J = J and W = W]
    by (simp add: pg_catalogue_def comp_def)
  show "distinct (map pb_id ps) \<and> set ps = without_tests ` {p \<in> ran (pg_catalogue J W s). pb_enabled p}"
    if "pg_list_enabled J W e s = Inr ps"
    using pg_list_Inr [OF wf that [unfolded pg_list_enabled_def]] ids [of prb_enabled]
      pg_row.ran_cat [OF wf, where P = "\<lambda>b. b" and J = J and W = W]
    by (simp add: pg_catalogue_def comp_def)
qed

interpretation pg_problem: problem_store "pg_problems J W gap" wf_problems "pg_catalogue J W"
    "pg_storable J W" pg_isolated for J W gap
  by (unfold_locales, unfold pg_problems_def problem_repository.simps)
    (rule pg_find_refines pg_list_refines pg_create_problem_refines
      pg_update_problem_refines pg_remove_problem_refines pg_create_test_refines
      pg_update_test_refines pg_remove_test_refines; assumption)+

section \<open>Seeding\<close>

lemma pg_seed_tests_step:
  assumes "pg_seed_tests gap e i n index (t # ts) db = (Inr n', db')"
  obtains r db1 where "insert_test (gap n) (seed_test_row (c_str i) index (cut_test t)) db = Some (r, db1)"
    "pg_seed_tests gap e i (Suc n) (Suc index) ts db1 = (Inr n', db')"
proof -
  let ?effect = "map_option (\<lambda>(_, d). (Command_ok, d))
    (insert_test (gap n) (seed_test_row (c_str i) index (cut_test t)) db)"
  obtain test db1 where run: "pg_execute e n ?effect db = (test, db1)" by (cases "pg_execute e n ?effect db")
  then have "pg_command_ok test" and rest: "pg_seed_tests gap e i (Suc n) (Suc index) ts db1 = (Inr n', db')"
    using assms by (auto split: if_splits)
  then obtain r where "insert_test (gap n) (seed_test_row (c_str i) index (cut_test t)) db = Some (r, db1)"
    using pg_execute_good [OF run] by (auto split: prod.splits)
  with rest show thesis by (rule that [rotated])
qed

lemma pg_seed_problems_step:
  assumes "pg_seed_problems J W gap e n (p # ps) db = (None, db')" and "nul \<notin> set (pb_id p)"
  obtains (present) "pb_id p \<in> prb_id ` set (problems db)" "pg_seed_problems J W gap e (Suc n) ps db = (None, db')"
  | (added) r db1 n' db2 where "pb_id p \<notin> prb_id ` set (problems db)"
      "pg_columns_of J W e (p\<lparr>pb_enabled := True\<rparr>) = Some r" "prb_id r = pb_id p" "insert_problem r db = Some db1"
      "pg_seed_tests gap e (pb_id p) (Suc n) 0 (pb_hidden_tests p) db1 = (Inr n', db2)"
      "pg_seed_problems J W gap e n' ps db2 = (None, db')"
proof -
  let ?p = "p\<lparr>pb_enabled := True\<rparr>"
  let ?effect = "Option.bind (pg_columns_of J W e ?p) (\<lambda>r. insert_problem_if_absent r db)"
  obtain inserted db1 where run: "pg_execute e n ?effect db = (inserted, db1)"
    by (cases "pg_execute e n ?effect db")
  with assms(1) have ok: "pg_tuples_ok inserted" by (auto split: if_splits)
  then obtain r where r: "pg_columns_of J W e ?p = Some r" "insert_problem_if_absent r db = Some (inserted, db1)"
    using pg_execute_good [OF run] by (auto simp: bind_eq_Some_conv)
  have id: "prb_id r = pb_id p" using pg_columns_fields(1) [OF r(1)] assms(2) by simp
  show thesis
  proof (cases "pb_id p \<in> prb_id ` set (problems db)")
    case True
    then have "inserted = Tuples_ok []" "db1 = db" using r(2) id by (auto simp: insert_problem_if_absent_def)
    then show thesis using present assms(1) run True by auto
  next
    case False
    then have ins: "insert_problem r db = Some db1" and rows: "pg_rows inserted = 1"
      using r(2) id by (auto simp: insert_problem_if_absent_def)
    then obtain n' db2 where "pg_seed_tests gap e (pb_id p) (Suc n) 0 (pb_hidden_tests p) db1 = (Inr n', db2)"
      "pg_seed_problems J W gap e n' ps db2 = (None, db')"
      using assms(1) run ok by (auto split: sum.splits prod.splits)
    then show thesis by (rule added [OF False r(1) id ins])
  qed
qed

lemma pg_seed_tests_added:
  "pg_seed_tests gap e i n index ts db = (Inr n', db') \<Longrightarrow> tests_added (c_str i) db db'"
proof (induction ts arbitrary: n index db)
  case (Cons t ts)
  from Cons.prems show ?case
  proof (rule pg_seed_tests_step)
    fix r db1
    assume "insert_test (gap n) (seed_test_row (c_str i) index (cut_test t)) db = Some (r, db1)"
      "pg_seed_tests gap e i (Suc n) (Suc index) ts db1 = (Inr n', db')"
    then show ?thesis using tests_added.Add_test Cons.IH by (fastforce simp: seed_test_row_def)
  qed
qed (simp add: tests_added.No_test)

lemma pg_seed_problems_seeded:
  assumes "\<forall>p \<in> set ps. nul \<notin> set (pb_id p)" "pg_seed_problems J W gap e n ps db = (None, db')"
  shows "seeded ps db db'"
  using assms
proof (induction ps arbitrary: n db)
  case (Cons p ps)
  have id: "nul \<notin> set (pb_id p)" using Cons.prems(1) by simp
  from Cons.prems(2) id show ?case
  proof (cases rule: pg_seed_problems_step)
    case present
    then show ?thesis using Cons by (auto intro: seeded.Present)
  next
    case (added r db1 n' db2)
    then show ?thesis
      using seeded.Missing [OF added(4,3)] pg_seed_tests_added [OF added(5)] Cons.IH [OF _ added(6)] Cons.prems(1) by simp
  qed
qed (simp add: seeded.No_problem)

lemma pg_seed_again:
  assumes "pb_id ` set ps \<subseteq> prb_id ` set (problems db)" "pg_healthy e"
    and "\<forall>p \<in> set ps. nul \<notin> set (pb_id p) \<and> pg_columns_of J W e p \<noteq> None"
  shows "pg_seed_problems J W gap e n ps db = (None, db)"
  using assms(1,3)
proof (induction ps arbitrary: n)
  case (Cons p ps)
  obtain r where "pg_columns_of J W e p = Some r" using Cons.prems(2) by auto
  then have "pg_columns_of J W e (p\<lparr>pb_enabled := True\<rparr>) \<noteq> None"
    by (auto simp: pg_columns_of_def split: option.splits)
  then obtain r' where r: "pg_columns_of J W e (p\<lparr>pb_enabled := True\<rparr>) = Some r'" by blast
  have "prb_id r' = pb_id p" using pg_columns_fields(1) [OF r] Cons.prems(2) by simp
  then have "insert_problem_if_absent r' db = Some (Tuples_ok [], db)"
    using Cons.prems(1) by (auto simp: insert_problem_if_absent_def)
  then show ?case using Cons r by (simp add: pg_execute_healthy(1) [OF assms(2)])
qed simp

lemma pg_open_None:
  assumes wf: "wf_problems db" and call: "pg_open_problems J W gap refusal lost e db = (None, db')"
  shows "seeded default_problems db db'"
  using call default_ids_no_nul pg_seed_problems_seeded [of default_problems J W gap e 0 db db']
  by (auto simp: pg_open_problems_def split: if_splits option.splits prod.splits)

section \<open>What seeding stores\<close>

text \<open>The row of a built-in problem and those of its hidden tests, with the texts as the server receives them.\<close>

definition stored_problem :: "'j json_lib \<Rightarrow> 'j json_text_lib \<Rightarrow> pg_env \<Rightarrow> problem \<Rightarrow> int problem_row \<Rightarrow> bool" where
  "stored_problem J W e p r \<longleftrightarrow> prb_id r = pb_id p \<and> prb_title r = c_str (pb_title p)
     \<and> prb_description r = c_str (pb_description p) \<and> prb_input_format r = c_str (pb_input_format p)
     \<and> prb_output_format r = c_str (pb_output_format p) \<and> prb_difficulty r = difficulty_name (pb_difficulty p)
     \<and> jsonb e (c_str (json_text W (strings_json J (pb_tags p)))) = Some (prb_tags_json r)
     \<and> jsonb e (c_str (json_text W (strings_json J (pb_languages p)))) = Some (prb_languages_json r)
     \<and> jsonb e (c_str (json_text W (examples_json J (pb_examples p)))) = Some (prb_examples_json r)
     \<and> prb_enabled r \<and> prb_created_at r = clock e \<and> prb_updated_at r = clock e \<and> prb_revision r = 1"

definition stored_test :: "string \<times> nat \<times> problem_test_case \<Rightarrow> test_row \<Rightarrow> bool" where
  "stored_test = (\<lambda>(i, k, t) r. tst_problem_id r = i \<and> tst_position r = int k \<and> tst_input r = c_str (tc_input t)
     \<and> tst_expected_output r = c_str (tc_expected_output t) \<and> tst_enabled r \<and> tst_revision r = 1)"

definition tests_of :: "problem \<Rightarrow> (string \<times> nat \<times> problem_test_case) list" where
  "tests_of p = map (Pair (pb_id p)) (enumerate 0 (pb_hidden_tests p))"

definition missing :: "problem list \<Rightarrow> int database \<Rightarrow> problem list" where
  "missing ps db = filter (\<lambda>p. pb_id p \<notin> prb_id ` set (problems db)) ps"

text \<open>The missing problems and all their tests, in order, behind what was there; nothing else changed.\<close>

definition stocked :: "'j json_lib \<Rightarrow> 'j json_text_lib \<Rightarrow> pg_env \<Rightarrow> problem list \<Rightarrow> int database \<Rightarrow> int database \<Rightarrow> bool" where
  "stocked J W e ps db db' \<longleftrightarrow> (\<exists>rs ts. list_all2 (stored_problem J W e) (missing ps db) rs
     \<and> list_all2 stored_test (concat (map tests_of (missing ps db))) ts
     \<and> db' = db\<lparr>problems := problems db @ rs, problem_tests := problem_tests db @ ts,
          problem_tests_seq := problem_tests_seq db'\<rparr>)"

lemma pg_seed_tests_stored:
  assumes "pg_seed_tests gap e i n index ts db = (Inr n', db')" and "nul \<notin> set i"
  shows "\<exists>rs. list_all2 stored_test (map (Pair i) (enumerate index ts)) rs
    \<and> db' = db\<lparr>problem_tests := problem_tests db @ rs, problem_tests_seq := problem_tests_seq db'\<rparr>"
  using assms(1)
proof (induction ts arbitrary: n index db)
  case (Cons t ts)
  from Cons.prems obtain r db1 where
    ins: "insert_test (gap n) (seed_test_row (c_str i) index (cut_test t)) db = Some (r, db1)"
    and rest: "pg_seed_tests gap e i (Suc n) (Suc index) ts db1 = (Inr n', db')"
    by (rule pg_seed_tests_step)
  from ins have r: "stored_test (i, index, t) r"
    and db1: "db1 = db\<lparr>problem_tests := problem_tests db @ [r], problem_tests_seq := problem_tests_seq db1\<rparr>"
    using assms(2) by (auto simp: insert_test_def Let_def stored_test_def seed_test_row_def cut_test_def split: if_splits)
  obtain rs where rs: "list_all2 stored_test (map (Pair i) (enumerate (Suc index) ts)) rs"
    and db': "db' = db1\<lparr>problem_tests := problem_tests db1 @ rs, problem_tests_seq := problem_tests_seq db'\<rparr>"
    using Cons.IH [OF rest] by blast
  have "db' = db\<lparr>problem_tests := problem_tests db @ r # rs, problem_tests_seq := problem_tests_seq db'\<rparr>"
    by (subst db', subst (1 2) db1) simp
  then show ?case using r rs by (intro exI [of _ "r # rs"]) simp
qed simp

lemma stored_columns:
  assumes "pg_columns_of J W e (p\<lparr>pb_enabled := True\<rparr>) = Some r" and "nul \<notin> set (pb_id p)"
  shows "stored_problem J W e p r"
  using assms
  by (auto simp: pg_columns_of_def problem_columns_def cut_problem_def stored_problem_def split: option.splits)

lemma pg_seed_problems_stocked:
  assumes "\<forall>p \<in> set ps. nul \<notin> set (pb_id p)" "distinct (map pb_id ps)"
    and "pg_seed_problems J W gap e n ps db = (None, db')"
  shows "stocked J W e ps db db'"
  using assms
proof (induction ps arbitrary: n db)
  case Nil
  then show ?case by (simp add: stocked_def missing_def)
next
  case (Cons p ps)
  have id: "nul \<notin> set (pb_id p)" and rest: "\<forall>p \<in> set ps. nul \<notin> set (pb_id p)" "distinct (map pb_id ps)"
    using Cons.prems(1,2) by simp_all
  from Cons.prems(3) id show ?case
  proof (cases rule: pg_seed_problems_step)
    case present
    then have "missing (p # ps) db = missing ps db" by (simp add: missing_def)
    then show ?thesis using Cons.IH [OF rest present(2)] by (simp add: stocked_def)
  next
    case (added r db1 n' db2)
    from added(4) have db1: "db1 = db\<lparr>problems := problems db @ [r]\<rparr>"
      by (simp add: insert_problem_def split: if_splits)
    obtain ts where ts: "list_all2 stored_test (tests_of p) ts"
      and db2: "db2 = db1\<lparr>problem_tests := problem_tests db1 @ ts, problem_tests_seq := problem_tests_seq db2\<rparr>"
      using pg_seed_tests_stored [OF added(5) id] by (auto simp: tests_of_def)
    have "problems db2 = problems db @ [r]" by (subst db2) (simp add: db1)
    moreover have "pb_id q \<noteq> pb_id p" if "q \<in> set ps" for q
      using Cons.prems(2) that by (simp add: image_iff) metis
    ultimately have missing: "missing (p # ps) db = p # missing ps db2"
      using added(1,3) by (auto simp: missing_def intro!: filter_cong)
    obtain rs' ts' where more: "list_all2 (stored_problem J W e) (missing ps db2) rs'"
        "list_all2 stored_test (concat (map tests_of (missing ps db2))) ts'"
      and db': "db' = db2\<lparr>problems := problems db2 @ rs', problem_tests := problem_tests db2 @ ts',
          problem_tests_seq := problem_tests_seq db'\<rparr>"
      using Cons.IH [OF rest added(6)] by (auto simp: stocked_def)
    have "db' = db\<lparr>problems := problems db @ r # rs', problem_tests := problem_tests db @ ts @ ts',
        problem_tests_seq := problem_tests_seq db'\<rparr>"
      by (subst db', subst (1 2 3) db2) (simp add: db1)
    then show ?thesis
      unfolding stocked_def missing using stored_columns [OF added(2) id] more ts
      by (intro exI [of _ "r # rs'"] exI [of _ "ts @ ts'"]) (simp add: list_all2_appendI)
  qed
qed

text \<open>Identifiers are only ever used up, whether seeding succeeds or not.\<close>

lemma pg_seed_tests_seq:
  "pg_seed_tests gap e i n index ts db = (out, db') \<Longrightarrow> problem_tests_seq db \<le> problem_tests_seq db'"
proof (induction ts arbitrary: n index db)
  case (Cons t ts)
  let ?effect = "map_option (\<lambda>(_, d). (Command_ok, d))
    (insert_test (gap n) (seed_test_row (c_str i) index (cut_test t)) db)"
  obtain test db1 where run: "pg_execute e n ?effect db = (test, db1)" by (cases "pg_execute e n ?effect db")
  then have "problem_tests_seq db \<le> problem_tests_seq db1"
    by (auto simp: pg_execute_def insert_test_def Let_def split: option.splits if_splits)
  then show ?case
    using Cons.prems Cons.IH [of "Suc n" "Suc index" db1] by (auto simp: run numbers_lost_def split: if_splits)
qed simp

lemma pg_seed_problems_seq:
  "pg_seed_problems J W gap e n ps db = (out, db') \<Longrightarrow> problem_tests_seq db \<le> problem_tests_seq db'"
proof (induction ps arbitrary: n db)
  case (Cons p ps)
  let ?effect = "Option.bind (pg_columns_of J W e (p\<lparr>pb_enabled := True\<rparr>)) (\<lambda>r. insert_problem_if_absent r db)"
  obtain inserted db1 where run: "pg_execute e n ?effect db = (inserted, db1)"
    by (cases "pg_execute e n ?effect db")
  then have one: "problem_tests_seq db1 = problem_tests_seq db"
    by (auto simp: pg_execute_def insert_problem_if_absent_def insert_problem_def bind_eq_Some_conv
        split: option.splits if_splits bind_splits)
  obtain out2 db2 where tests: "pg_seed_tests gap e (pb_id p) (Suc n) 0 (pb_hidden_tests p) db1 = (out2, db2)"
    by fastforce
  have two: "problem_tests_seq db1 \<le> problem_tests_seq db2" by (rule pg_seed_tests_seq [OF tests])
  show ?case
    using Cons.prems one two Cons.IH [of "Suc n" db1] Cons.IH [of "projr out2" db2]
    by (auto simp: run tests split: if_splits sum.splits)
qed simp

section \<open>Properties\<close>

text \<open>
  C39: What opening the PostgreSQL problem repository stores. When it succeeds, each built-in problem
  that was missing has its row, enabled, with revision 1 and its texts, tags, languages and examples,
  and exactly its hidden tests, in their order and enabled; nothing that was there has changed, and an
  instance that opens afterwards changes nothing. When it fails, only test identifiers may have been
  used up, unless the transaction was committed and the answer lost, and then all of it is there.
\<close>

theorem pg_seed_correct:
  assumes "wf_problems db" "pg_open_problems J W gap refusal answer_lost e db = (err, db')"
    and "pg_healthy e'" "\<forall>p \<in> set default_problems. pg_columns_of J W e' p \<noteq> None"
  shows "case err of
      Some _ \<Rightarrow> db' = db\<lparr>problem_tests_seq := problem_tests_seq db'\<rparr> \<and> problem_tests_seq db \<le> problem_tests_seq db'
        \<or> commit_fault e \<and> answer_lost \<and> stocked J W e default_problems db db'
    | None \<Rightarrow> stocked J W e default_problems db db'
        \<and> pg_catalogue J W db' |` dom (pg_catalogue J W db) = pg_catalogue J W db
        \<and> pg_open_problems J W gap' None lost' e' db' = (None, db')"
proof -
  have distinct: "distinct (map pb_id default_problems)" using default_problems_well_formed by simp
  show ?thesis
  proof (cases err)
    case None
    note run = pg_open_None [OF assms(1) assms(2) [unfolded None]]
    note kept = pg_row.cat_seeded [OF run assms(1), where J = J and W = W] and rows = seeded_keeps [OF run assms(1)]
    have "stocked J W e default_problems db db'"
      using assms(2) None pg_seed_problems_stocked [OF _ distinct, of J W gap e 0 db db'] default_ids_no_nul
      by (auto simp: pg_open_problems_def split: if_splits option.splits prod.splits)
    moreover have "pg_catalogue J W db' |` dom (pg_catalogue J W db) = pg_catalogue J W db"
      using kept by (auto simp: restrict_map_def fun_eq_iff dom_def pg_catalogue_def)
    moreover have "pg_seed_problems J W gap' e' 0 default_problems db' = (None, db')"
      using rows default_ids_no_nul assms(4) by (intro pg_seed_again [OF _ assms(3)]) auto
    ultimately show ?thesis
      using None assms(3) by (simp add: pg_open_problems_def pg_healthy_def)
  next
    case (Some m)
    obtain out db1 where seed: "pg_seed_problems J W gap e 0 default_problems db = (out, db1)" by fastforce
    have "problem_tests_seq db \<le> problem_tests_seq db1" by (rule pg_seed_problems_seq [OF seed])
    moreover have "stocked J W e default_problems db db1" if "out = None"
      using pg_seed_problems_stocked [OF _ distinct] default_ids_no_nul seed that by blast
    ultimately show ?thesis
      using assms(2) Some by (auto simp: pg_open_problems_def seed rolled_back_def split: if_splits option.splits)
  qed
qed

text \<open>
  C18: The PostgreSQL repository refines the abstract catalogue: after any sequence of administrator
  commands the stored catalogue is the abstract effect of those commands with their outcomes.
\<close>

theorem pg_problem_edits_refine:
  assumes "wf_problems s" "\<forall>(e, c) \<in> set cs. proper_command (pg_storable J W e) c"
    and "run_commands (pg_problems J W gap) cs s = (outs, s')"
  shows "spec_commands (map snd cs) outs (pg_catalogue J W s) = Some (pg_catalogue J W s')"
  using pg_problem.run_commands_refine [OF assms] by blast

text \<open>
  C19: Of two administrators who edit the same revision of a problem, the one whose update arrives
  second gets an error and changes nothing.
\<close>

theorem pg_stale_update_refused:
  assumes "wf_problems s" "nul \<notin> set (pb_id p)" "pb_id q = pb_id p" "pb_revision q = pb_revision p"
    and "pg_update_problem J W e p s = (Inr p', s')" "pg_update_problem J W e' q s' = (res, s'')"
  shows "(\<exists>err. res = Inl err) \<and> s'' = s'"
  using pg_problem.stale_update_refused [of s p q J W undefined e p' s' e' res s''] assms
  by (simp add: pg_problems_def)

section \<open>Examples\<close>

definition pg_session :: "(pg_env \<times> problem_command) list" where
  "pg_session = map (Pair quiet_server) [Create_problem bare_problem,
     Create_test ''two-sum'' sample_test, Update_problem (bare_problem\<lparr>pb_enabled := False\<rparr>),
     Update_problem bare_problem, Remove_test ''two-sum'' 1, Remove_problem ''two-sum'']"

theorem pg_problem_edits_refine_witness:
  "spec_commands (map snd pg_session)
     (fst (run_commands (pg_problems plain_json bare_text (\<lambda>_. 0)) pg_session empty_database))
     (pg_catalogue plain_json bare_text empty_database)
   = Some (pg_catalogue plain_json bare_text
       (snd (run_commands (pg_problems plain_json bare_text (\<lambda>_. 0)) pg_session empty_database)))"
proof (rule pg_problem_edits_refine)
  show "\<forall>(e, c) \<in> set pg_session. proper_command (pg_storable plain_json bare_text e) c"
    by (auto simp: pg_session_def bare_problem_def sample_problem_def sample_test_def int64_range_def
        pg_storable_def quiet_server_def intro!: bare_readable)
qed simp_all

definition shelf :: "int database" where
  "shelf = empty_database\<lparr>problems :=
     [problem_columns 7 bare_problem ''[]'' ''[]'' ''[]'']\<rparr>"

theorem pg_stale_update_refused_witness:
  "(\<exists>err. fst (pg_update_problem plain_json bare_text quiet_server (bare_problem\<lparr>pb_title := ''B''\<rparr>)
      (snd (pg_update_problem plain_json bare_text quiet_server bare_problem shelf))) = Inl err)"
proof -
  let ?first = "pg_update_problem plain_json bare_text quiet_server bare_problem shelf"
  let ?second = "pg_update_problem plain_json bare_text quiet_server (bare_problem\<lparr>pb_title := ''B''\<rparr>) (snd ?first)"
  have "wf_problems shelf"
    by (simp add: wf_problems_def shelf_def empty_database_def problem_check_def problem_columns_def
        bare_problem_def sample_problem_def int64_range_def)
  moreover have "?first = (Inr (bare_problem\<lparr>pb_revision := 2\<rparr>), snd ?first)" by code_simp
  ultimately show ?thesis
    using pg_stale_update_refused [of shelf bare_problem "bare_problem\<lparr>pb_title := ''B''\<rparr>"
        plain_json bare_text quiet_server "bare_problem\<lparr>pb_revision := 2\<rparr>" "snd ?first" quiet_server
        "fst ?second" "snd ?second"]
    by (simp add: bare_problem_def sample_problem_def)
qed

text \<open>A database with all built-in problems but the first, and no tests.\<close>

definition pantry :: "int database" where
  "pantry = empty_database\<lparr>problems :=
     map (\<lambda>p. problem_columns 7 p ''[]'' ''[]'' ''[]'') (tl default_problems)\<rparr>"

lemma wf_pantry: "wf_problems pantry"
proof -
  have check: "problem_check (problem_columns 7 p ''[]'' ''[]'' ''[]'')" for p
    by (cases "pb_difficulty p") (simp_all add: problem_check_def problem_columns_def int64_range_def)
  have "distinct (map pb_id (tl default_problems))" by (simp add: catalog_defs Let_def)
  then show ?thesis
    using check by (auto simp: wf_problems_def pantry_def empty_database_def int64_range_def
        problem_columns_def comp_def)
qed

lemma pantry_columns: "\<forall>p \<in> set default_problems. pg_columns_of plain_json bare_text quiet_server p \<noteq> None"
  by (simp add: pg_columns_of_def quiet_server_def)

lemma pantry_ids: "prb_id ` set (problems pantry) = pb_id ` set (tl default_problems)"
  by (simp add: pantry_def problem_columns_def image_image)

lemma default_first: "default_problems = make_a_plus_b # tl default_problems"
  by (simp add: default_problems_def)

lemma pantry_missing: "missing default_problems pantry = [make_a_plus_b]"
  unfolding missing_def pantry_ids by (simp add: catalog_defs Let_def)

lemma pg_seed_tests_succeeds:
  assumes "pg_healthy e" "c_str i \<in> prb_id ` set (problems db)" "0 \<le> problem_tests_seq db"
    and "problem_tests_seq db + int (length ts) < 2 ^ 63" "int (index + length ts) < 2 ^ 63"
    and "\<forall>r \<in> set (problem_tests db). tst_problem_id r = c_str i \<longrightarrow> tst_position r < int index"
  shows "\<exists>n' db'. pg_seed_tests (\<lambda>_. 0) e i n index ts db = (Inr n', db')"
  using assms(2-)
proof (induction ts arbitrary: n index db)
  case (Cons t ts)
  let ?r = "(seed_test_row (c_str i) index (cut_test t))\<lparr>tst_id := problem_tests_seq db + 1\<rparr>"
  let ?db = "db\<lparr>problem_tests := problem_tests db @ [?r], problem_tests_seq := problem_tests_seq db + 1\<rparr>"
  have "insert_test 0 (seed_test_row (c_str i) index (cut_test t)) db = Some (?r, ?db)"
    using Cons.prems
    by (auto simp: insert_test_def Let_def seed_test_row_def position_free_def list_all_iff int64_range_def)
  moreover have "\<exists>n' db'. pg_seed_tests (\<lambda>_. 0) e i (Suc n) (Suc index) ts ?db = (Inr n', db')"
    using Cons.prems by (intro Cons.IH) (auto simp: seed_test_row_def)
  ultimately show ?case by (simp add: pg_execute_healthy(1) [OF assms(1)])
qed simp

lemma pantry_seeds:
  "\<exists>db'. pg_open_problems plain_json bare_text (\<lambda>_. 0) None False quiet_server pantry = (None, db')"
proof -
  let ?p = "make_a_plus_b"
  have whole: "nul \<notin> set (pb_id ?p)" "?p\<lparr>pb_enabled := True\<rparr> = ?p" "length (pb_hidden_tests ?p) = 10"
    by (simp_all add: make_a_plus_b_def a_plus_b_data_def)
  obtain r where r: "pg_columns_of plain_json bare_text quiet_server ?p = Some r"
    using pantry_columns default_first by (metis list.set_intros(1) not_Some_eq)
  have id: "prb_id r = pb_id ?p" and check: "problem_check r"
    using stored_columns [of plain_json bare_text quiet_server ?p r] r whole
    by (auto simp: stored_problem_def problem_check_def int64_range_def make_a_plus_b_def)
  have absent: "pb_id ?p \<notin> prb_id ` set (problems pantry)"
    using pantry_missing by (auto simp: missing_def filter_eq_Cons_iff)
  let ?db = "pantry\<lparr>problems := problems pantry @ [r]\<rparr>"
  have added: "insert_problem_if_absent r pantry = Some (Tuples_ok [[Some (prb_id r)]], ?db)"
    using absent check id by (simp add: insert_problem_if_absent_def insert_problem_def)
  have "c_str (pb_id ?p) = pb_id ?p"
    by (rule c_str_id [OF whole(1)])
  then have "\<exists>n' db'. pg_seed_tests (\<lambda>_. 0) quiet_server (pb_id ?p) 1 0 (pb_hidden_tests ?p) ?db = (Inr n', db')"
    using id whole(3) by (intro pg_seed_tests_succeeds) (simp_all add: pantry_def empty_database_def)
  then obtain n' db' where tests: "pg_seed_tests (\<lambda>_. 0) quiet_server (pb_id ?p) 1 0 (pb_hidden_tests ?p) ?db = (Inr n', db')"
    by blast
  obtain rs where "db' = ?db\<lparr>problem_tests := problem_tests ?db @ rs, problem_tests_seq := problem_tests_seq db'\<rparr>"
    using pg_seed_tests_stored [OF tests whole(1)] by blast
  from arg_cong [OF this, of problems] have "problems db' = problems pantry @ [r]"
    by simp
  then have "pb_id ` set (tl default_problems) \<subseteq> prb_id ` set (problems db')"
    using pantry_ids by auto
  then have "pg_seed_problems plain_json bare_text (\<lambda>_. 0) quiet_server n' (tl default_problems) db' = (None, db')"
    using pantry_columns default_ids_no_nul default_first by (intro pg_seed_again) (auto dest: list.set_sel(2) [rotated])
  then have "pg_seed_problems plain_json bare_text (\<lambda>_. 0) quiet_server 0 default_problems pantry = (None, db')"
    by (subst default_first) (simp add: whole r added tests [simplified] pg_execute_healthy(1) pg_value_Tuples del: One_nat_def)
  then show ?thesis by (simp add: pg_open_problems_def quiet_server_def)
qed

theorem pg_seed_correct_witness:
  "\<exists>db'. pg_open_problems plain_json bare_text (\<lambda>_. 0) None False quiet_server pantry = (None, db')
     \<and> (\<exists>r. problems db' = problems pantry @ [r] \<and> prb_id r = ''a-plus-b'' \<and> prb_title r = ''A + B'')
     \<and> map tst_position (problem_tests db') = [0 .. 9]
     \<and> map tst_input (problem_tests db') = map (\<lambda>(input, output). input) a_plus_b_data"
proof -
  obtain db' where db': "pg_open_problems plain_json bare_text (\<lambda>_. 0) None False quiet_server pantry = (None, db')"
    using pantry_seeds by blast
  have "stocked plain_json bare_text quiet_server default_problems pantry db'"
    using pg_seed_correct [OF wf_pantry db' quiet_server_healthy pantry_columns] by simp
  then obtain rs ts where rs: "list_all2 (stored_problem plain_json bare_text quiet_server) [make_a_plus_b] rs"
      and ts: "list_all2 stored_test (tests_of make_a_plus_b) ts"
      and content: "db' = pantry\<lparr>problems := problems pantry @ rs, problem_tests := problem_tests pantry @ ts,
        problem_tests_seq := problem_tests_seq db'\<rparr>"
    unfolding stocked_def pantry_missing by auto
  have tests: "problem_tests db' = ts" and rows: "problems db' = problems pantry @ rs"
    using arg_cong [OF content, of problem_tests] arg_cong [OF content, of problems]
    by (simp_all add: pantry_def empty_database_def)
  obtain r where r: "rs = [r]" "stored_problem plain_json bare_text quiet_server make_a_plus_b r"
    using rs by (auto simp: list_all2_Cons1)
  then have "prb_id r = ''a-plus-b''" "prb_title r = ''A + B''"
    by (simp_all add: stored_problem_def make_a_plus_b_def)
  moreover have "map (\<lambda>(i, k, t). int k) (tests_of make_a_plus_b) = [0 .. 9]"
    "map (\<lambda>(i, k, t). c_str (tc_input t)) (tests_of make_a_plus_b) = map (\<lambda>(input, output). input) a_plus_b_data"
    by code_simp+
  moreover have "map tst_position ts = map (\<lambda>(i, k, t). int k) (tests_of make_a_plus_b)"
    "map tst_input ts = map (\<lambda>(i, k, t). c_str (tc_input t)) (tests_of make_a_plus_b)"
    using ts by (induction rule: list_all2_induct) (auto simp: stored_test_def)
  ultimately show ?thesis using db' rows tests r(1) by auto
qed

text \<open>A database with all built-in problems, where nothing is seeded.\<close>

definition pg_stocked :: "int database" where
  "pg_stocked = empty_database\<lparr>problems :=
     map (\<lambda>p. problem_columns 7 p ''[]'' ''[]'' ''[]'') default_problems\<rparr>"

lemma wf_pg_stocked: "wf_problems pg_stocked"
proof -
  have check: "problem_check (problem_columns 7 p ''[]'' ''[]'' ''[]'')" for p
    by (cases "pb_difficulty p") (simp_all add: problem_check_def problem_columns_def int64_range_def)
  have "distinct (map pb_id default_problems)" using default_problems_well_formed by simp
  then show ?thesis
    using check by (auto simp: wf_problems_def pg_stocked_def empty_database_def int64_range_def
        problem_columns_def comp_def)
qed

lemma pg_stocked_opens:
  "pg_open_problems plain_json bare_text (\<lambda>_. 0) None False quiet_server pg_stocked = (None, pg_stocked)"
proof -
  have "prb_id ` set (problems pg_stocked) = pb_id ` set default_problems"
    by (simp add: pg_stocked_def problem_columns_def image_image)
  then have "pg_seed_problems plain_json bare_text (\<lambda>_. 0) quiet_server 0 default_problems pg_stocked = (None, pg_stocked)"
    using pantry_columns default_ids_no_nul by (intro pg_seed_again) auto
  then show ?thesis by (simp add: pg_open_problems_def quiet_server_def)
qed

end
