(* ===== verification/Sqlite_Problems.thy ===== *)
theory Sqlite_Problems
  imports Problem_Queries Sqlite_Engine Catalog
begin

text \<open>
  \<^verbatim>\<open>SQLiteProblemRepository\<close>
  (\<^verbatim>\<open>backend/src/sqlite-problem-repository.cpp\<close>): every member function with each of its
  error returns, the seeding of the built-in problems, and the interpretation of
  \<open>problem_store\<close>.

  Texts are bound with their length but read as C strings, so a text is read up to its first NUL.
  The statement that finds a problem is still active while its hidden tests are read, so both see one
  state of the database.
\<close>

section \<open>Reading\<close>

definition cut_texts :: "'t problem_row \<Rightarrow> 't problem_row" where
  "cut_texts r = r\<lparr>prb_title := c_str (prb_title r), prb_description := c_str (prb_description r),
     prb_input_format := c_str (prb_input_format r), prb_output_format := c_str (prb_output_format r),
     prb_difficulty := c_str (prb_difficulty r), prb_tags_json := c_str (prb_tags_json r),
     prb_languages_json := c_str (prb_languages_json r),
     prb_examples_json := c_str (prb_examples_json r)\<rparr>"

text \<open>
  \<open>n\<close> is the number of the statement that reads the hidden tests; its step \<open>k\<close> returns
  the \<open>k\<close>-th row, the last step reports the end.
\<close>

definition sqlite_read_problem ::
    "'j json_lib \<Rightarrow> 'j json_text_lib \<Rightarrow> sqlite_env \<Rightarrow> nat \<Rightarrow> string database \<Rightarrow> bool \<Rightarrow> bool
       \<Rightarrow> string problem_row \<Rightarrow> problem_repository_error + problem" where
  "sqlite_read_problem J W e n db include_tests include_disabled_tests r =
     (case read_metadata J W ((cut_texts r)\<lparr>prb_id := c_str (prb_id r)\<rparr>) of Inl err \<Rightarrow> Inl err
      | Inr problem \<Rightarrow>
        if \<not> include_tests then Inr problem
        else if prepare_fault e n \<noteq> None
        then Inl (ProblemRepositoryError ''Could not prepare hidden-test lookup'')
        else let tests = select_tests (pb_id problem) include_disabled_tests db
             in if list_ex (step_fault e n) [0..<Suc (length tests)]
                then Inl (ProblemRepositoryError ''Could not retrieve hidden tests'')
                else Inr (problem\<lparr>pb_hidden_tests := map (cut_test \<circ> test_of) tests\<rparr>))"

text \<open>The loop of a list: \<open>k\<close> counts the steps of the statement.\<close>

fun sqlite_collect ::
    "'j json_lib \<Rightarrow> 'j json_text_lib \<Rightarrow> sqlite_env \<Rightarrow> string \<Rightarrow> string database \<Rightarrow> nat
       \<Rightarrow> string problem_row list \<Rightarrow> problem_repository_error + problem list" where
  "sqlite_collect J W e message db k [] =
     (if step_fault e 0 k then Inl (ProblemRepositoryError message) else Inr [])"
| "sqlite_collect J W e message db k (r # rs) =
     (if step_fault e 0 k then Inl (ProblemRepositoryError message)
      else case sqlite_read_problem J W e 1 db False False r of Inl err \<Rightarrow> Inl err
        | Inr p \<Rightarrow> (case sqlite_collect J W e message db (Suc k) rs of Inl err \<Rightarrow> Inl err
            | Inr ps \<Rightarrow> Inr (p # ps)))"

definition sqlite_list_enabled ::
    "'j json_lib \<Rightarrow> 'j json_text_lib \<Rightarrow> sqlite_env \<Rightarrow> string database
       \<Rightarrow> problem_repository_error + problem list" where
  "sqlite_list_enabled J W e db =
     (if prepare_fault e 0 \<noteq> None then Inl (ProblemRepositoryError ''Could not prepare problem list'')
      else sqlite_collect J W e ''Could not retrieve problem list'' db 0 (filter prb_enabled (problems db)))"

definition sqlite_list_all_problems ::
    "'j json_lib \<Rightarrow> 'j json_text_lib \<Rightarrow> sqlite_env \<Rightarrow> string database
       \<Rightarrow> problem_repository_error + problem list" where
  "sqlite_list_all_problems J W e db =
     (if prepare_fault e 0 \<noteq> None
      then Inl (ProblemRepositoryError ''Could not prepare admin problem list'')
      else sqlite_collect J W e ''Could not retrieve admin problem list'' db 0 (problems db))"

definition sqlite_lookup ::
    "'j json_lib \<Rightarrow> 'j json_text_lib \<Rightarrow> sqlite_env \<Rightarrow> string \<Rightarrow> string \<Rightarrow> bool \<Rightarrow> bool
       \<Rightarrow> (string problem_row \<Rightarrow> bool) \<Rightarrow> string database \<Rightarrow> problem_repository_error + problem option" where
  "sqlite_lookup J W e prepare_message step_message tests disabled P db =
     (if prepare_fault e 0 \<noteq> None then Inl (ProblemRepositoryError prepare_message)
      else case sqlite_step e 0 (Some (List.find P (problems db), db)) db of
        (Done, _) \<Rightarrow> Inr None
      | (Row r, _) \<Rightarrow> (case sqlite_read_problem J W e 1 db tests disabled r of Inl err \<Rightarrow> Inl err
          | Inr p \<Rightarrow> Inr (Some p))
      | (Step_error, _) \<Rightarrow> Inl (ProblemRepositoryError step_message))"

definition sqlite_find_enabled ::
    "'j json_lib \<Rightarrow> 'j json_text_lib \<Rightarrow> sqlite_env \<Rightarrow> string \<Rightarrow> string database
       \<Rightarrow> problem_repository_error + problem option" where
  "sqlite_find_enabled J W e i db = sqlite_lookup J W e ''Could not prepare problem lookup''
     ''Could not retrieve problem'' False False (\<lambda>r. prb_id r = i \<and> prb_enabled r) db"

definition sqlite_find_for_judging ::
    "'j json_lib \<Rightarrow> 'j json_text_lib \<Rightarrow> sqlite_env \<Rightarrow> string \<Rightarrow> string database
       \<Rightarrow> problem_repository_error + problem option" where
  "sqlite_find_for_judging J W e i db = sqlite_lookup J W e ''Could not prepare judge problem lookup''
     ''Could not retrieve judge problem'' True False (\<lambda>r. prb_id r = i) db"

definition sqlite_find_any ::
    "'j json_lib \<Rightarrow> 'j json_text_lib \<Rightarrow> sqlite_env \<Rightarrow> string \<Rightarrow> string database
       \<Rightarrow> problem_repository_error + problem option" where
  "sqlite_find_any J W e i db = sqlite_lookup J W e ''Could not prepare admin problem lookup''
     ''Could not retrieve admin problem'' True True (\<lambda>r. prb_id r = i) db"

section \<open>Writing\<close>

definition sqlite_columns ::
    "'j json_lib \<Rightarrow> 'j json_text_lib \<Rightarrow> sqlite_env \<Rightarrow> problem \<Rightarrow> string problem_row" where
  "sqlite_columns J W e p = problem_columns (now e) p (json_text W (strings_json J (pb_tags p)))
     (json_text W (strings_json J (pb_languages p))) (json_text W (examples_json J (pb_examples p)))"

definition sqlite_create_problem ::
    "'j json_lib \<Rightarrow> 'j json_text_lib \<Rightarrow> sqlite_env \<Rightarrow> problem \<Rightarrow> string database
       \<Rightarrow> (problem_repository_error + problem) \<times> string database" where
  "sqlite_create_problem J W e p db =
     (if prepare_fault e 0 \<noteq> None
      then (Inl (ProblemRepositoryError ''Could not prepare problem creation''), db)
      else case sqlite_step e 0 (map_option (Pair (None :: unit option))
             (insert_problem (sqlite_columns J W e p) db)) db of
        (Done, db') \<Rightarrow> (Inr p, db')
      | (_, db') \<Rightarrow> (Inl (ProblemRepositoryError ''Problem could not be created''), db'))"

text \<open>\<^verbatim>\<open>sqlite3_changes\<close> tells whether the statement changed a row.\<close>

definition sqlite_update_problem ::
    "'j json_lib \<Rightarrow> 'j json_text_lib \<Rightarrow> sqlite_env \<Rightarrow> problem \<Rightarrow> string database
       \<Rightarrow> (problem_repository_error + problem) \<times> string database" where
  "sqlite_update_problem J W e p db =
     (let effect = update_problem (sqlite_columns J W e p) (pb_revision p) db;
          changes = (case effect of Some (Some _, _) \<Rightarrow> (1 :: nat) | _ \<Rightarrow> 0)
      in if prepare_fault e 0 \<noteq> None
         then (Inl (ProblemRepositoryError ''Could not prepare problem update''), db)
         else case sqlite_step e 0 (map_option (\<lambda>(_, d). (None :: unit option, d)) effect) db of
           (Done, db') \<Rightarrow>
             (if changes = 0
             then (Inl (ProblemRepositoryError ''Problem was changed by another administrator''), db')
             else (Inr (p\<lparr>pb_revision := pb_revision p + 1\<rparr>), db'))
         | (_, db') \<Rightarrow> (Inl (ProblemRepositoryError ''Problem could not be updated''), db'))"

definition sqlite_remove_problem ::
    "sqlite_env \<Rightarrow> string \<Rightarrow> string database \<Rightarrow> (problem_repository_error + bool) \<times> string database" where
  "sqlite_remove_problem e i db =
     (if prepare_fault e 0 \<noteq> None
      then (Inl (ProblemRepositoryError ''Could not prepare problem deletion''), db)
      else case sqlite_step e 0 (Some (None :: unit option, snd (delete_problem i db))) db of
        (Done, db') \<Rightarrow> (Inr (fst (delete_problem i db)), db')
      | (_, db') \<Rightarrow> (Inl (ProblemRepositoryError ''Problem could not be deleted''), db'))"

definition sqlite_create_test ::
    "sqlite_env \<Rightarrow> string \<Rightarrow> problem_test_case \<Rightarrow> string database
       \<Rightarrow> (problem_repository_error + problem_test_case) \<times> string database" where
  "sqlite_create_test e i t db =
     (if prepare_fault e 0 \<noteq> None
      then (Inl (ProblemRepositoryError ''Could not prepare hidden-test creation''), db)
      else case sqlite_step e 0 (map_option (\<lambda>(r, d). (Some (tst_id r), d))
             (insert_test 0 (test_columns i t) db)) db of
        (Row n, db') \<Rightarrow> (Inr (t\<lparr>tc_id := n\<rparr>), db')
      | (_, db') \<Rightarrow> (Inl (ProblemRepositoryError ''Hidden test could not be created''), db'))"

definition sqlite_update_test ::
    "sqlite_env \<Rightarrow> string \<Rightarrow> problem_test_case \<Rightarrow> string database
       \<Rightarrow> (problem_repository_error + problem_test_case) \<times> string database" where
  "sqlite_update_test e i t db =
     (let effect = update_test (test_columns i t) (tc_revision t) db;
          changes = (case effect of Some (Some _, _) \<Rightarrow> (1 :: nat) | _ \<Rightarrow> 0)
      in if prepare_fault e 0 \<noteq> None
         then (Inl (ProblemRepositoryError ''Could not prepare hidden-test update''), db)
         else case sqlite_step e 0 (map_option (\<lambda>(_, d). (None :: unit option, d)) effect) db of
           (Done, db') \<Rightarrow>
             (if changes = 0
             then (Inl (ProblemRepositoryError ''Hidden test was changed by another administrator''), db')
             else (Inr (t\<lparr>tc_revision := tc_revision t + 1\<rparr>), db'))
         | (_, db') \<Rightarrow> (Inl (ProblemRepositoryError ''Hidden test could not be updated''), db'))"

definition sqlite_remove_test ::
    "sqlite_env \<Rightarrow> string \<Rightarrow> int64 \<Rightarrow> string database
       \<Rightarrow> (problem_repository_error + bool) \<times> string database" where
  "sqlite_remove_test e i n db =
     (if prepare_fault e 0 \<noteq> None
      then (Inl (ProblemRepositoryError ''Could not prepare hidden-test deletion''), db)
      else case sqlite_step e 0 (Some (None :: unit option, snd (delete_test n i db))) db of
        (Done, db') \<Rightarrow> (Inr (fst (delete_test n i db)), db')
      | (_, db') \<Rightarrow> (Inl (ProblemRepositoryError ''Hidden test could not be deleted''), db'))"

definition sqlite_problems :: "'j json_lib \<Rightarrow> 'j json_text_lib \<Rightarrow> (sqlite_env, string database) problem_repository" where
  "sqlite_problems J W = \<lparr>list_enabled_op = sqlite_list_enabled J W,
     find_enabled_op = sqlite_find_enabled J W, find_for_judging_op = sqlite_find_for_judging J W,
     list_all_problems_op = sqlite_list_all_problems J W, find_any_op = sqlite_find_any J W,
     create_problem_op = sqlite_create_problem J W, update_problem_op = sqlite_update_problem J W,
     remove_problem_op = sqlite_remove_problem, create_test_op = sqlite_create_test,
     update_test_op = sqlite_update_test, remove_test_op = sqlite_remove_test\<rparr>"

section \<open>Seeding the built-in problems\<close>

text \<open>
  The two prepared statements are numbered 0 and 1; \<open>m\<close> and \<open>n\<close> count their executions.
  Any failure rolls the transaction back.
\<close>

fun sqlite_seed_tests ::
    "sqlite_env \<Rightarrow> string \<Rightarrow> nat \<Rightarrow> nat \<Rightarrow> problem_test_case list \<Rightarrow> string database
       \<Rightarrow> problem_repository_error + nat \<times> string database" where
  "sqlite_seed_tests e i n index [] db = Inr (n, db)"
| "sqlite_seed_tests e i n index (t # ts) db =
     (if step_fault e 1 n then Inl (ProblemRepositoryError ''Could not seed initial hidden tests'')
      else case insert_test 0 (seed_test_row i index t) db of
        None \<Rightarrow> Inl (ProblemRepositoryError ''Could not seed initial hidden tests'')
      | Some (_, db') \<Rightarrow> sqlite_seed_tests e i (Suc n) (Suc index) ts db')"

fun sqlite_seed_problems ::
    "'j json_lib \<Rightarrow> 'j json_text_lib \<Rightarrow> sqlite_env \<Rightarrow> nat \<Rightarrow> nat \<Rightarrow> problem list \<Rightarrow> string database
       \<Rightarrow> problem_repository_error + string database" where
  "sqlite_seed_problems J W e m n [] db = Inr db"
| "sqlite_seed_problems J W e m n (p # ps) db =
     (if step_fault e 0 m then Inl (ProblemRepositoryError ''Could not seed initial problem'')
      else case insert_problem (sqlite_columns J W e (p\<lparr>pb_enabled := True\<rparr>)) db of
        None \<Rightarrow> sqlite_seed_problems J W e (Suc m) n ps db
      | Some db1 \<Rightarrow> (case sqlite_seed_tests e (pb_id p) n 0 (pb_hidden_tests p) db1 of
            Inl err \<Rightarrow> Inl err
          | Inr (n', db2) \<Rightarrow> sqlite_seed_problems J W e (Suc m) n' ps db2))"

definition sqlite_seed ::
    "'j json_lib \<Rightarrow> 'j json_text_lib \<Rightarrow> sqlite_env \<Rightarrow> string database
       \<Rightarrow> problem_repository_error option \<times> string database" where
  "sqlite_seed J W e db =
     (if exec_fault e 0 \<noteq> None
      then (Some (ProblemRepositoryError ''Could not begin initial problem transaction''), db)
      else if prepare_fault e 0 \<noteq> None \<or> prepare_fault e 1 \<noteq> None
      then (Some (ProblemRepositoryError ''Could not prepare initial problem data''), db)
      else case sqlite_seed_problems J W e 0 0 default_problems db of
        Inl err \<Rightarrow> (Some err, db)
      | Inr db' \<Rightarrow> if exec_fault e 1 \<noteq> None
          then (Some (ProblemRepositoryError ''Could not commit initial problem data''), db)
          else (None, db'))"

text \<open>\<open>opened\<close> is the message when the file cannot be opened.\<close>

definition sqlite_open_problems ::
    "'j json_lib \<Rightarrow> 'j json_text_lib \<Rightarrow> string option \<Rightarrow> sqlite_env \<Rightarrow> string database
       \<Rightarrow> problem_repository_error option \<times> string database" where
  "sqlite_open_problems J W opened e db =
     (case opened of
        Some message \<Rightarrow> (Some (ProblemRepositoryError (''Could not open problem database: '' @ message)), db)
      | None \<Rightarrow> sqlite_seed J W e db)"

section \<open>The catalogue\<close>

definition sqlite_show :: "'j json_lib \<Rightarrow> 'j json_text_lib \<Rightarrow> 't problem_row \<Rightarrow> problem" where
  "sqlite_show J W r = show_row J W (cut_texts r)"

definition sqlite_catalogue :: "'j json_lib \<Rightarrow> 'j json_text_lib \<Rightarrow> string database \<Rightarrow> catalogue" where
  "sqlite_catalogue J W = catalogue_of (sqlite_show J W) (cut_test \<circ> test_of)"

definition sqlite_problems_ok :: "string database \<Rightarrow> bool" where
  "sqlite_problems_ok db \<longleftrightarrow> wf_problems db \<and> list_all (\<lambda>r. nul \<notin> set (prb_id r)) (problems db)"

interpretation sqlite_row: row_view "sqlite_show J W" "cut_test \<circ> test_of" for J W
  by unfold_locales (simp_all add: sqlite_show_def cut_texts_def cut_test_def test_of_def)

lemma sqlite_problems_okD: "sqlite_problems_ok db \<Longrightarrow> wf_problems db"
  by (simp add: sqlite_problems_ok_def)

lemma sqlite_read_problem_Inr:
  assumes "nul \<notin> set (prb_id r)" "sqlite_read_problem J W e n db tests disabled r = Inr p"
  shows "p = (sqlite_show J W r)\<lparr>pb_hidden_tests :=
    (if tests then map (cut_test \<circ> test_of) (select_tests (prb_id r) disabled db) else [])\<rparr>"
proof -
  have same: "(cut_texts r)\<lparr>prb_id := c_str (prb_id r)\<rparr> = cut_texts r"
    using assms(1) by (simp add: cut_texts_def)
  obtain q where q: "read_metadata J W (cut_texts r) = Inr q"
    and p: "p = q\<lparr>pb_hidden_tests :=
      (if tests then map (cut_test \<circ> test_of) (select_tests (pb_id q) disabled db) else [])\<rparr>"
    using assms(2) read_metadata_fields(4) [of J W "cut_texts r"] unfolding sqlite_read_problem_def same
    by (cases "read_metadata J W (cut_texts r)") (auto simp: Let_def split: if_splits)
  have "pb_id q = prb_id r" using read_metadata_fields(1) [OF q] by (simp add: cut_texts_def)
  then show ?thesis by (simp add: p sqlite_show_def show_row_read [OF q])
qed

lemma sqlite_lookup_Inr:
  assumes "list_all (\<lambda>r. nul \<notin> set (prb_id r)) (problems db)"
    and "sqlite_lookup J W e m m' tests disabled P db = Inr found"
  shows "found = map_option (\<lambda>r. (sqlite_show J W r)\<lparr>pb_hidden_tests :=
    (if tests then map (cut_test \<circ> test_of) (select_tests (prb_id r) disabled db) else [])\<rparr>)
      (List.find P (problems db))"
proof (cases "List.find P (problems db)")
  case None
  then show ?thesis
    using assms(2) by (auto simp: sqlite_lookup_def sqlite_step_def split: if_splits)
next
  case (Some r)
  then have "nul \<notin> set (prb_id r)" using assms(1) find_Some_iff_in [OF Some] by (simp add: list_all_iff)
  then show ?thesis
    using assms(2) Some sqlite_read_problem_Inr [of r J W e 1 db tests disabled]
    by (auto simp: sqlite_lookup_def sqlite_step_def split: if_splits sum.splits)
qed

lemma sqlite_collect_Inr:
  assumes "list_all (\<lambda>r. nul \<notin> set (prb_id r)) rs" "sqlite_collect J W e m db k rs = Inr ps"
  shows "ps = map (\<lambda>r. (sqlite_show J W r)\<lparr>pb_hidden_tests := []\<rparr>) rs"
  using assms
proof (induction rs arbitrary: k ps)
  case Nil
  then show ?case by (simp split: if_splits)
next
  case (Cons r rs)
  then show ?case
    using sqlite_read_problem_Inr [of r J W e 1 db False False]
    by (fastforce split: if_splits sum.splits)
qed

section \<open>The contract\<close>

lemma sqlite_show_columns:
  assumes "json_readable J W (Some \<circ> c_str) p"
  shows "sqlite_show J W ((sqlite_columns J W e p)\<lparr>prb_id := i, prb_created_at := c, prb_revision := n\<rparr>)
    = (cut_problem p)\<lparr>pb_id := i, pb_revision := n, pb_hidden_tests := []\<rparr>"
proof -
  have cuts: "c_str (difficulty_name d) = difficulty_name d" for d by (cases d) simp_all
  let ?r = "cut_texts ((sqlite_columns J W e p)\<lparr>prb_id := i, prb_created_at := c, prb_revision := n\<rparr>)"
  have "read_metadata J W ?r = Inr (p\<lparr>pb_id := prb_id ?r, pb_title := prb_title ?r,
     pb_description := prb_description ?r, pb_input_format := prb_input_format ?r,
     pb_output_format := prb_output_format ?r, pb_enabled := prb_enabled ?r,
     pb_revision := prb_revision ?r, pb_hidden_tests := []\<rparr>)"
    using assms by (intro read_metadata_columns)
      (simp_all add: json_readable_def cut_texts_def sqlite_columns_def problem_columns_def cuts)
  from show_row_read [OF this] show ?thesis
    by (simp add: sqlite_show_def cut_texts_def sqlite_columns_def problem_columns_def cut_problem_def)
qed

lemma sqlite_create_problem_cases:
  assumes "sqlite_create_problem J W e p s = (res, s')"
  obtains (refused) err where "res = Inl err" "s' = s"
  | (stored) "res = Inr p" "insert_problem (sqlite_columns J W e p) s = Some s'"
  using assms by (auto simp: sqlite_create_problem_def sqlite_step_def split: if_splits option.splits)

lemma sqlite_update_problem_cases:
  assumes "sqlite_update_problem J W e p s = (res, s')"
  obtains (refused) err where "res = Inl err" "s' = s"
  | (updated) r where "res = Inr (p\<lparr>pb_revision := pb_revision p + 1\<rparr>)"
      "update_problem (sqlite_columns J W e p) (pb_revision p) s = Some (Some r, s')"
  using assms
  by (auto simp: sqlite_update_problem_def sqlite_step_def Let_def dest!: update_problem_none
      split: if_splits option.splits)

lemma sqlite_update_test_cases:
  assumes "sqlite_update_test e i t s = (res, s')"
  obtains (refused) err where "res = Inl err" "s' = s"
  | (updated) r where "res = Inr (t\<lparr>tc_revision := tc_revision t + 1\<rparr>)"
      "update_test (test_columns i t) (tc_revision t) s = Some (Some r, s')"
  using assms
  by (auto simp: sqlite_update_test_def sqlite_step_def Let_def dest!: update_test_none
      split: if_splits option.splits)

lemma sqlite_columns_fields [simp]:
  "prb_id (sqlite_columns J W e p) = pb_id p" "prb_revision (sqlite_columns J W e p) = 1"
  by (simp_all add: sqlite_columns_def problem_columns_def)

lemma sqlite_create_problem_refines:
  assumes ok: "sqlite_problems_ok s" and id: "nul \<notin> set (pb_id p)"
    and call: "sqlite_create_problem J W e p s = (res, s')"
  shows "sqlite_problems_ok s' \<and> (case res of Inl err \<Rightarrow> s' = s
    | Inr created \<Rightarrow> sqlite_catalogue J W s (pb_id p) = None \<and> pb_id created = pb_id p
        \<and> (json_readable J W (Some \<circ> c_str) p \<longrightarrow>
             sqlite_catalogue J W s' = spec_create p (sqlite_catalogue J W s)))"
  using call
proof (cases rule: sqlite_create_problem_cases)
  case stored
  note wf = sqlite_problems_okD [OF ok]
  have "problems s' = problems s @ [sqlite_columns J W e p]"
    using stored(2) by (auto simp: insert_problem_def split: if_splits)
  then have "sqlite_problems_ok s'"
    using ok id wf_insert_problem [OF wf stored(2)] by (simp add: sqlite_problems_ok_def)
  moreover have "sqlite_show J W (sqlite_columns J W e p) = (cut_problem p)\<lparr>pb_revision := 1, pb_hidden_tests := []\<rparr>"
    if "json_readable J W (Some \<circ> c_str) p"
    using sqlite_show_columns [OF that, where e = e and i = "pb_id p" and c = "now e" and n = 1]
    by (simp add: sqlite_columns_def problem_columns_def cut_problem_def)
  ultimately show ?thesis
    using sqlite_row.cat_insert_problem [OF wf stored(2), of J W] stored(1)
    by (simp add: sqlite_catalogue_def spec_create_def)
qed (simp add: ok)

lemma sqlite_update_problem_refines:
  assumes ok: "sqlite_problems_ok s"
    and call: "sqlite_update_problem J W e p s = (res, s')"
  shows "sqlite_problems_ok s' \<and> (case res of Inl err \<Rightarrow> s' = s
    | Inr updated \<Rightarrow> (\<exists>old. sqlite_catalogue J W s (pb_id p) = Some old \<and> pb_revision old = pb_revision p
        \<and> updated = p\<lparr>pb_revision := pb_revision p + 1\<rparr>
        \<and> (\<exists>new. sqlite_catalogue J W s' = (sqlite_catalogue J W s)(pb_id p \<mapsto> new)
             \<and> pb_revision new = pb_revision p + 1)
        \<and> (json_readable J W (Some \<circ> c_str) p \<longrightarrow>
             sqlite_catalogue J W s' = spec_update old p (sqlite_catalogue J W s))))"
  using call
proof (cases rule: sqlite_update_problem_cases)
  case (updated r)
  note wf = sqlite_problems_okD [OF ok]
  obtain q where r: "r = revised_problem (sqlite_columns J W e p) q" "prb_revision q = pb_revision p" "prb_id q = pb_id p"
    and rows: "problems s' = update_where (this_revision (pb_id p) (pb_revision p)) (revised_problem (sqlite_columns J W e p)) (problems s)"
    using updated(2)
    by (auto simp: update_problem_def this_revision_def dest!: find_Some_iff_in split: option.splits if_splits)
  have ok': "sqlite_problems_ok s'"
    using ok wf_update_problem [OF wf updated(2)]
    by (auto simp: sqlite_problems_ok_def rows list_all_iff set_update_where)
  have shown: "sqlite_show J W r = (cut_problem p)\<lparr>pb_revision := pb_revision p + 1, pb_hidden_tests := []\<rparr>"
    if "json_readable J W (Some \<circ> c_str) p"
    using sqlite_show_columns [OF that, where e = e and i = "pb_id p" and c = "prb_created_at q"
        and n = "pb_revision p + 1"] r
    by (simp add: revised_problem_def cut_problem_def)
  show ?thesis
    using sqlite_row.cat_update_problem [OF wf updated(2), of J W] updated(1) ok' shown
    by (fastforce simp: sqlite_catalogue_def spec_update_def sqlite_row.show_revision)
qed (simp add: ok)

lemma sqlite_remove_problem_refines:
  assumes ok: "sqlite_problems_ok s" and call: "sqlite_remove_problem e i s = (gone, s')"
  shows "sqlite_problems_ok s' \<and> (case gone of Inl err \<Rightarrow> s' = s
    | Inr b \<Rightarrow> b = (sqlite_catalogue J W s i \<noteq> None)
        \<and> sqlite_catalogue J W s' = (sqlite_catalogue J W s)(i := None))"
proof -
  have "sqlite_problems_ok (snd (delete_problem i s))"
    using ok wf_delete_problem [OF sqlite_problems_okD [OF ok]]
    by (auto simp: sqlite_problems_ok_def delete_problem_def list_all_iff)
  then show ?thesis
    using call ok sqlite_row.cat_delete_problem [where J = J and W = W and i = i and db = s]
    by (auto simp: sqlite_remove_problem_def sqlite_step_def sqlite_catalogue_def split: if_splits)
qed

lemma sqlite_create_test_refines:
  assumes ok: "sqlite_problems_ok s" and call: "sqlite_create_test e i t s = (res, s')"
  shows "sqlite_problems_ok s' \<and> (case res of Inl err \<Rightarrow> s' = s
    | Inr created \<Rightarrow> sqlite_catalogue J W s i \<noteq> None
        \<and> sqlite_catalogue J W s' = spec_tests i (\<lambda>ts. in_order (ts @ [cut_test (t\<lparr>tc_id := tc_id created,
             tc_revision := 1\<rparr>)])) (sqlite_catalogue J W s))"
proof (cases res)
  case (Inl err)
  then show ?thesis
    using call ok by (auto simp: sqlite_create_test_def sqlite_step_def split: if_splits option.splits)
next
  case (Inr created)
  then obtain r where ins: "insert_test 0 (test_columns i t) s = Some (r, s')"
    and created: "created = t\<lparr>tc_id := tst_id r\<rparr>"
    using call by (auto simp: sqlite_create_test_def sqlite_step_def split: if_splits option.splits)
  note wf = sqlite_problems_okD [OF ok] and new = insert_test_Some [OF ins]
  have "wf_problems s'" by (rule wf_insert_test [OF wf ins]) (simp add: int64_range_def)
  then have "sqlite_problems_ok s'" using ok by (simp add: sqlite_problems_ok_def new(2))
  moreover have "tst_problem_id r = i" "cut_test (test_of r) = cut_test (t\<lparr>tc_id := tst_id r, tc_revision := 1\<rparr>)"
    by (cases t; simp add: new(1) test_of_def test_columns_def)+
  ultimately show ?thesis
    using sqlite_row.cat_insert_test [OF wf ins, of J W] by (simp add: Inr created sqlite_catalogue_def)
qed

lemma sqlite_update_test_refines:
  assumes ok: "sqlite_problems_ok s" and call: "sqlite_update_test e i t s = (res, s')"
  shows "sqlite_problems_ok s' \<and> (case res of Inl err \<Rightarrow> s' = s
    | Inr updated \<Rightarrow> updated = t\<lparr>tc_revision := tc_revision t + 1\<rparr>
        \<and> (\<exists>p. sqlite_catalogue J W s i = Some p
             \<and> (\<exists>u \<in> set (pb_hidden_tests p). tc_id u = tc_id t \<and> tc_revision u = tc_revision t))
        \<and> sqlite_catalogue J W s' = spec_tests i (replace_test (cut_test updated)) (sqlite_catalogue J W s))"
  using call
proof (cases rule: sqlite_update_test_cases)
  case (updated r)
  note wf = sqlite_problems_okD [OF ok]
  have "problems s' = problems s"
    using updated(2) by (auto simp: update_test_def split: option.splits if_splits)
  then have ok': "sqlite_problems_ok s'"
    using ok wf_update_test [OF wf updated(2)] by (simp add: sqlite_problems_ok_def)
  obtain u where "r = revised_test (test_columns i t) u" "tst_id u = tc_id t" "tst_revision u = tc_revision t"
    using updated(2)
    by (auto simp: update_test_def this_test_def dest!: find_Some_iff_in split: option.splits if_splits)
  then have "test_of r = t\<lparr>tc_revision := tc_revision t + 1\<rparr>"
    by (cases t) (simp add: test_of_def revised_test_def test_columns_def)
  then show ?thesis
    using sqlite_row.cat_update_test [OF wf updated(2), of J W] ok'
    by (simp add: updated(1) sqlite_catalogue_def)
qed (simp add: ok)

lemma sqlite_remove_test_refines:
  assumes ok: "sqlite_problems_ok s" and call: "sqlite_remove_test e i n s = (gone, s')"
  shows "sqlite_problems_ok s' \<and> (case gone of Inl err \<Rightarrow> s' = s
    | Inr b \<Rightarrow> (b \<longleftrightarrow> (\<exists>p. sqlite_catalogue J W s i = Some p \<and> n \<in> tc_id ` set (pb_hidden_tests p)))
        \<and> sqlite_catalogue J W s' = spec_tests i (filter (\<lambda>u. tc_id u \<noteq> n)) (sqlite_catalogue J W s))"
proof -
  note wf = sqlite_problems_okD [OF ok]
  have "sqlite_problems_ok (snd (delete_test n i s))"
    using ok wf_delete_test [OF wf] by (simp add: sqlite_problems_ok_def delete_test_def)
  then show ?thesis
    using call ok sqlite_row.cat_delete_test [OF wf, where J = J and W = W and n = n and i = i]
    by (auto simp: sqlite_remove_test_def sqlite_step_def sqlite_catalogue_def split: if_splits)
qed

lemma sqlite_find_refines:
  assumes ok: "sqlite_problems_ok s"
  shows "sqlite_find_any J W e i s = Inr found \<Longrightarrow> found = sqlite_catalogue J W s i"
    and "sqlite_find_for_judging J W e i s = Inr found \<Longrightarrow>
      found = map_option judging_view (sqlite_catalogue J W s i)"
    and "sqlite_find_enabled J W e i s = Inr found \<Longrightarrow>
      found = (case sqlite_catalogue J W s i of
        Some p \<Rightarrow> if pb_enabled p then Some (without_tests p) else None | None \<Rightarrow> None)"
proof -
  have nuls: "list_all (\<lambda>r. nul \<notin> set (prb_id r)) (problems s)" and wf: "wf_problems s"
    using ok by (simp_all add: sqlite_problems_ok_def)
  have enabled_tests: "map (cut_test \<circ> test_of) (select_tests i False s)
      = filter tc_enabled (map (cut_test \<circ> test_of) (select_tests i True s))"
    by (rule sqlite_row.judging_tests)
  have lookup: "found = map_option (\<lambda>r. (sqlite_show J W r)\<lparr>pb_hidden_tests :=
      map (cut_test \<circ> test_of) (select_tests i disabled s)\<rparr>) (List.find (\<lambda>r. prb_id r = i) (problems s))"
    if "sqlite_lookup J W e m m' True disabled (\<lambda>r. prb_id r = i) s = Inr found" for m m' disabled
  proof (cases "List.find (\<lambda>r. prb_id r = i) (problems s)")
    case None
    then show ?thesis using sqlite_lookup_Inr [OF nuls that] by simp
  next
    case (Some r)
    then have "prb_id r = i" using find_Some_iff_in by fastforce
    then show ?thesis using sqlite_lookup_Inr [OF nuls that] Some by simp
  qed
  show "found = sqlite_catalogue J W s i" if "sqlite_find_any J W e i s = Inr found"
    using lookup [OF that [unfolded sqlite_find_any_def]] by (simp add: sqlite_catalogue_def catalogue_of_def)
  show "found = map_option judging_view (sqlite_catalogue J W s i)"
    if "sqlite_find_for_judging J W e i s = Inr found"
    using lookup [OF that [unfolded sqlite_find_for_judging_def]] unfolding enabled_tests
    by (simp add: sqlite_catalogue_def catalogue_of_def judging_view_def option.map_comp comp_def)
  show "found = (case sqlite_catalogue J W s i of
        Some p \<Rightarrow> if pb_enabled p then Some (without_tests p) else None | None \<Rightarrow> None)"
    if "sqlite_find_enabled J W e i s = Inr found"
    using sqlite_lookup_Inr [OF nuls that [unfolded sqlite_find_enabled_def]] find_key_and [of prb_id "problems s" i prb_enabled] wf
    by (cases "List.find (\<lambda>r. prb_id r = i) (problems s)")
      (simp_all add: sqlite_catalogue_def catalogue_of_def without_tests_def sqlite_row.show_enabled wf_problems_def)
qed

lemma sqlite_list_refines:
  assumes ok: "sqlite_problems_ok s"
  shows "sqlite_list_all_problems J W e s = Inr ps \<Longrightarrow>
      distinct (map pb_id ps) \<and> set ps = without_tests ` ran (sqlite_catalogue J W s)"
    and "sqlite_list_enabled J W e s = Inr ps \<Longrightarrow>
      distinct (map pb_id ps) \<and> set ps = without_tests ` {p \<in> ran (sqlite_catalogue J W s). pb_enabled p}"
proof -
  have nuls: "list_all (\<lambda>r. nul \<notin> set (prb_id r)) (problems s)" and wf: "wf_problems s"
    using ok by (simp_all add: sqlite_problems_ok_def)
  then have nuls': "list_all (\<lambda>r. nul \<notin> set (prb_id r)) (filter prb_enabled (problems s))"
    by (auto simp: list_all_iff)
  have ids: "distinct (map prb_id (problems s))" using wf by (simp add: wf_problems_def)
  have keys: "map pb_id (map (\<lambda>r. (sqlite_show J W r)\<lparr>pb_hidden_tests := []\<rparr>) rs) = map prb_id rs" for rs
    by (simp add: sqlite_row.show_id)
  show "distinct (map pb_id ps) \<and> set ps = without_tests ` ran (sqlite_catalogue J W s)"
    if "sqlite_list_all_problems J W e s = Inr ps"
  proof -
    have "ps = map (\<lambda>r. (sqlite_show J W r)\<lparr>pb_hidden_tests := []\<rparr>) (problems s)"
      using that sqlite_collect_Inr [OF nuls] by (auto simp: sqlite_list_all_problems_def split: if_splits)
    then show ?thesis
      using ids keys sqlite_row.ran_cat [OF wf, where P = "\<lambda>_. True" and J = J and W = W]
      by (simp add: sqlite_catalogue_def comp_def sqlite_row.show_id)
  qed
  show "distinct (map pb_id ps) \<and> set ps = without_tests ` {p \<in> ran (sqlite_catalogue J W s). pb_enabled p}"
    if "sqlite_list_enabled J W e s = Inr ps"
  proof -
    have "ps = map (\<lambda>r. (sqlite_show J W r)\<lparr>pb_hidden_tests := []\<rparr>) (filter prb_enabled (problems s))"
      using that sqlite_collect_Inr [OF nuls'] by (auto simp: sqlite_list_enabled_def split: if_splits)
    then show ?thesis
      using distinct_map_filter [OF ids] keys sqlite_row.ran_cat [OF wf, where P = "\<lambda>b. b" and J = J and W = W]
      by (simp add: sqlite_catalogue_def comp_def sqlite_row.show_id)
  qed
qed

interpretation sqlite_problem: problem_store "sqlite_problems J W" sqlite_problems_ok "sqlite_catalogue J W"
    "\<lambda>e. json_readable J W (Some \<circ> c_str)" "\<lambda>_ _. True" for J W
  by (unfold_locales, unfold sqlite_problems_def problem_repository.simps)
    (rule sqlite_find_refines sqlite_list_refines sqlite_create_problem_refines
      sqlite_update_problem_refines sqlite_remove_problem_refines sqlite_create_test_refines
      sqlite_update_test_refines sqlite_remove_test_refines; assumption)+

section \<open>Properties\<close>

lemma sqlite_seed_tests_added:
  "sqlite_seed_tests e i n index ts db = Inr (n', db') \<Longrightarrow> tests_added i db db'"
proof (induction e i n index ts db rule: sqlite_seed_tests.induct)
  case (2 e i n index t ts db)
  then obtain r db1 where ins: "insert_test 0 (seed_test_row i index t) db = Some (r, db1)"
    and rest: "sqlite_seed_tests e i (Suc n) (Suc index) ts db1 = Inr (n', db')"
    and "\<not> step_fault e 1 n"
    by (auto split: if_splits option.splits)
  then have "tests_added i db1 db'" using 2 by auto
  then show ?case using tests_added.Add_test [OF ins] by (simp add: seed_test_row_def)
qed (simp add: tests_added.No_test)

lemma sqlite_seed_problems_seeded:
  "sqlite_seed_problems J W e m n ps db = Inr db' \<Longrightarrow> seeded ps db db'"
proof (induction ps arbitrary: m n db)
  case (Cons p ps)
  let ?r = "sqlite_columns J W e (p\<lparr>pb_enabled := True\<rparr>)"
  show ?case
  proof (cases "insert_problem ?r db")
    case None
    have "problem_check ?r"
      by (cases "pb_difficulty p") (simp_all add: problem_check_def sqlite_columns_def problem_columns_def int64_range_def)
    then have "pb_id p \<in> prb_id ` set (problems db)" using None by (simp add: insert_problem_def split: if_splits)
    then show ?thesis using Cons None by (auto intro: seeded.Present split: if_splits)
  next
    case (Some db1)
    then obtain n' db2 where tests: "sqlite_seed_tests e (pb_id p) n 0 (pb_hidden_tests p) db1 = Inr (n', db2)"
      and rest: "sqlite_seed_problems J W e (Suc m) n' ps db2 = Inr db'"
      using Cons.prems by (auto split: if_splits sum.splits)
    show ?thesis
      using seeded.Missing [OF Some, of p] sqlite_seed_tests_added [OF tests] Cons.IH [OF rest] by simp
  qed
qed (simp add: seeded.No_problem)

lemma sqlite_seed_again:
  assumes "pb_id ` set ps \<subseteq> prb_id ` set (problems db)" "sqlite_healthy e"
  shows "sqlite_seed_problems J W e m n ps db = Inr db"
  using assms(1)
proof (induction ps arbitrary: m n)
  case (Cons p ps)
  then show ?case using assms(2) by (simp add: insert_problem_def sqlite_healthy_def)
qed simp

lemma sqlite_seed_None:
  assumes ok: "sqlite_problems_ok db" and seed: "sqlite_seed J W e db = (None, db')"
  shows "sqlite_problems_ok db'" "dom (sqlite_catalogue J W db')
      = dom (sqlite_catalogue J W db) \<union> pb_id ` set default_problems"
    "\<forall>i \<in> dom (sqlite_catalogue J W db). sqlite_catalogue J W db' i = sqlite_catalogue J W db i"
    "pb_id ` set default_problems \<subseteq> prb_id ` set (problems db')"
proof -
  have run: "seeded default_problems db db'"
    using seed sqlite_seed_problems_seeded [of J W e 0 0 default_problems db db']
    by (auto simp: sqlite_seed_def split: if_splits sum.splits)
  note wf = sqlite_problems_okD [OF ok]
  note cat = sqlite_row.cat_seeded [OF run wf, where J = J and W = W] and rows = seeded_keeps [OF run wf]
  then show "dom (sqlite_catalogue J W db') = dom (sqlite_catalogue J W db) \<union> pb_id ` set default_problems"
    "\<forall>i \<in> dom (sqlite_catalogue J W db). sqlite_catalogue J W db' i = sqlite_catalogue J W db i"
    "pb_id ` set default_problems \<subseteq> prb_id ` set (problems db')"
    unfolding sqlite_catalogue_def by simp_all
  have "nul \<notin> set i" if "i \<in> prb_id ` set (problems db')" for i
    using that rows ok default_ids_no_nul by (auto simp: sqlite_problems_ok_def list_all_iff)
  then have "list_all (\<lambda>r. nul \<notin> set (prb_id r)) (problems db')" by (simp add: list_all_iff)
  then show "sqlite_problems_ok db'" using rows by (simp add: sqlite_problems_ok_def)
qed

text \<open>
  Opening the SQLite problem repository is all or nothing and idempotent: when it fails the
  database is as it was; when it succeeds exactly the missing built-in problems were added, every
  problem that was there keeps its edits and hidden tests, and opening again changes nothing.
\<close>

lemma sqlite_seed_correct:
  assumes "sqlite_problems_ok db" "sqlite_open_problems J W opened e db = (err, db')" "sqlite_healthy e'"
  shows "case err of
      Some _ \<Rightarrow> db' = db
    | None \<Rightarrow> dom (sqlite_catalogue J W db') = dom (sqlite_catalogue J W db) \<union> pb_id ` set default_problems
        \<and> sqlite_catalogue J W db' |` dom (sqlite_catalogue J W db) = sqlite_catalogue J W db
        \<and> sqlite_open_problems J W None e' db' = (None, db')"
proof (cases err)
  case None
  have "sqlite_seed J W e db = (None, db')"
    using assms(2) None by (auto simp: sqlite_open_problems_def split: option.splits)
  note kept = sqlite_seed_None [OF assms(1) this]
  have "sqlite_catalogue J W db' |` dom (sqlite_catalogue J W db) = sqlite_catalogue J W db"
    using kept(3) by (auto simp: restrict_map_def fun_eq_iff dom_def)
  then show ?thesis
    using None kept(2) sqlite_seed_again [OF kept(4) assms(3), where J = J and W = W] assms(3)
    by (simp add: sqlite_open_problems_def sqlite_seed_def sqlite_healthy_def)
next
  case (Some m)
  then show ?thesis
    using assms(2) by (auto simp: sqlite_open_problems_def sqlite_seed_def split: option.splits if_splits sum.splits)
qed

section \<open>An example\<close>

definition stocked_database :: "string database" where
  "stocked_database = empty_database\<lparr>problems :=
     map (sqlite_columns plain_json bare_text quiet_engine) default_problems\<rparr>"

lemma stocked_ids: "prb_id ` set (problems stocked_database) = pb_id ` set default_problems"
  by (simp add: stocked_database_def image_image)

lemma stocked_ok: "sqlite_problems_ok stocked_database"
proof -
  have "problem_check (sqlite_columns plain_json bare_text quiet_engine p)" for p
    by (cases "pb_difficulty p") (simp_all add: problem_check_def sqlite_columns_def problem_columns_def int64_range_def)
  moreover have "distinct (map pb_id default_problems)" by (simp add: catalog_defs Let_def)
  moreover have "map prb_id (problems stocked_database) = map pb_id default_problems"
    by (simp add: stocked_database_def)
  ultimately show ?thesis
    using default_ids_no_nul
    by (auto simp: sqlite_problems_ok_def wf_problems_def stocked_database_def empty_database_def
        int64_range_def list_all_iff comp_def)
qed

text \<open>
  C38: The SQLite repository refines the abstract catalogue: after any sequence of administrator
  commands the stored catalogue is the abstract effect of those commands with their outcomes, whatever
  failed on the way.
\<close>

theorem sqlite_problem_edits_refine:
  assumes "sqlite_problems_ok s"
    and "\<forall>(e, c) \<in> set cs. proper_command (json_readable J W (Some \<circ> c_str)) c"
    and "run_commands (sqlite_problems J W) cs s = (outs, s')"
  shows "spec_commands (map snd cs) outs (sqlite_catalogue J W s) = Some (sqlite_catalogue J W s')"
  using sqlite_problem.run_commands_refine [OF assms] by blast

definition sqlite_session :: "(sqlite_env \<times> problem_command) list" where
  "sqlite_session = map (Pair quiet_engine) [Create_problem bare_problem,
     Create_test ''two-sum'' sample_test, Update_problem (bare_problem\<lparr>pb_enabled := False\<rparr>),
     Update_problem bare_problem, Remove_test ''two-sum'' 1, Remove_problem ''two-sum'']"

theorem sqlite_problem_edits_refine_witness:
  "spec_commands (map snd sqlite_session)
     (fst (run_commands (sqlite_problems plain_json bare_text) sqlite_session empty_database))
     (sqlite_catalogue plain_json bare_text empty_database)
   = Some (sqlite_catalogue plain_json bare_text
       (snd (run_commands (sqlite_problems plain_json bare_text) sqlite_session empty_database)))"
proof (rule sqlite_problem_edits_refine)
  show "sqlite_problems_ok empty_database"
    by (simp add: sqlite_problems_ok_def) (simp add: empty_database_def)
  show "\<forall>(e, c) \<in> set sqlite_session. proper_command (json_readable plain_json bare_text (Some \<circ> c_str)) c"
    by (auto simp: sqlite_session_def bare_problem_def sample_problem_def sample_test_def int64_range_def
        intro!: bare_readable)
qed simp

end
