(* ===== verification/Http_Server.thy ===== *)
theory Http_Server
  imports Problem_Repository Submission_Service Auth_Provider Json_Api
begin

text \<open>
  The HTTP server, \<^verbatim>\<open>backend/src/main.cpp\<close>: every request handler with each of its
  responses, over the interfaces of the account, problem and submission components, and the table
  of routes.

  Drogon is not part of the program. A request is what the handlers read of it: the JSON body (None
  when there is none or it does not parse), the session cookie (empty when absent) and the query
  parameters (empty when absent). A handler that throws, by indexing a JSON value that is neither an
  object nor null or by \<^verbatim>\<open>std::get\<close> on an error, has the reply \<open>Handler_throws\<close>; what it
  stored before stays stored.

  The environment of a request gives the engine of each call: \<open>auth_call k\<close> for the
  \<open>k\<close>-th call of the account service, and so on; time passes between the calls, but nothing
  else is written. The queue notifier counts its calls. Logging is left out.
\<close>

section \<open>Requests and responses\<close>

datatype http_method = Get | Post | Put | Delete

record 'j http_request =
  json_body :: "'j option"
  session_token :: string
  parameter :: "string \<Rightarrow> string"

record cookie =
  cookie_name :: string
  cookie_value :: string
  cookie_path :: string
  http_only :: bool
  secure :: bool
  same_site_lax :: bool
  max_age :: int

record 'j http_response =
  status_code :: nat
  content :: "'j option"
  cookies :: "cookie list"
  headers :: "(string \<times> string) list"

datatype 'j reply =
    Reply "'j http_response"
  | Handler_throws

record ('a, 'p, 'q) request_env =
  auth_call :: "nat \<Rightarrow> 'a"
  problem_call :: "nat \<Rightarrow> 'p"
  submission_call :: "nat \<Rightarrow> 'q"

definition json_response :: "'j \<Rightarrow> 'j http_response" where
  "json_response body = \<lparr>status_code = 200, content = Some body, cookies = [], headers = []\<rparr>"

definition no_content :: "'j http_response" where
  "no_content = \<lparr>status_code = 204, content = None, cookies = [], headers = []\<rparr>"

definition user_to_json :: "'j json_lib \<Rightarrow> auth_user \<Rightarrow> 'j" where
  "user_to_json J user = json_object J (nullValue J)
     [(''id'', int64Value J (au_id user)), (''username'', stringValue J (au_username user)),
      (''createdAt'', stringValue J (au_created_at user)), (''isAdmin'', boolValue J (au_is_admin user))]"

definition error_response :: "'j json_lib \<Rightarrow> string \<Rightarrow> nat \<Rightarrow> 'j http_response" where
  "error_response J message status =
     (json_response (json_object J (nullValue J) [(''error'', stringValue J message)]))
       \<lparr>status_code := status\<rparr>"

definition session_cookie_name :: string where
  "session_cookie_name = ''algorithm_trainer_session''"

definition session_cookie_lifetime_seconds :: int where
  "session_cookie_lifetime_seconds = 60 * 60 * 24 * 30"

definition session_cookie :: "string \<Rightarrow> bool \<Rightarrow> int \<Rightarrow> cookie" where
  "session_cookie token secure_cookie age = \<lparr>cookie_name = session_cookie_name, cookie_value = token,
     cookie_path = ''/'', http_only = True, secure = secure_cookie, same_site_lax = True, max_age = age\<rparr>"

section \<open>Accounts\<close>

definition auth_status :: "auth_error_code \<Rightarrow> nat" where
  "auth_status c = (if c = invalid_credentials then 401 else if c = duplicate_user then 409 else 400)"

definition auth_result :: "'j json_lib \<Rightarrow> bool \<Rightarrow> auth_error + auth_session \<Rightarrow> 'j http_response" where
  "auth_result J secure_cookie result =
     (case result of
        Inr session \<Rightarrow> (json_response (user_to_json J (as_user session)))
          \<lparr>cookies := [session_cookie (as_token session) secure_cookie session_cookie_lifetime_seconds]\<rparr>
      | Inl error \<Rightarrow>
          if ae_code error = auth_internal
          then error_response J ''Authentication service is unavailable'' 500
          else error_response J (ae_message error) (auth_status (ae_code error)))"

text \<open>The user name and password of a body; \<open>Raises\<close> when it cannot be indexed.\<close>

definition credentials :: "'j json_lib \<Rightarrow> 'j option \<Rightarrow> (string \<times> string) option parse_outcome" where
  "credentials J body =
     (case body of None \<Rightarrow> Value None
      | Some json \<Rightarrow>
          if \<not> indexable J json then Raises
          else if \<not> isString J (member J json ''username'') \<or> \<not> isString J (member J json ''password'')
          then Value None
          else Value (Some (asString J (member J json ''username''), asString J (member J json ''password''))))"

definition http_register_user ::
    "'j json_lib \<Rightarrow> ('a, 's) auth_provider \<Rightarrow> bool \<Rightarrow> ('a, 'p, 'q) request_env \<Rightarrow> 'j http_request \<Rightarrow> 's
       \<Rightarrow> 'j reply \<times> 's" where
  "http_register_user J auth secure_cookie e request s =
     (case credentials J (json_body request) of
        Value (Some (name, password)) \<Rightarrow>
          (case register_user_op auth (auth_call e 0) name password s of
             (result, s') \<Rightarrow> (Reply (auth_result J secure_cookie result), s'))
      | Value None \<Rightarrow> (Reply (error_response J ''Username and password are required'' 400), s)
      | _ \<Rightarrow> (Handler_throws, s))"

definition http_login ::
    "'j json_lib \<Rightarrow> ('a, 's) auth_provider \<Rightarrow> bool \<Rightarrow> ('a, 'p, 'q) request_env \<Rightarrow> 'j http_request \<Rightarrow> 's
       \<Rightarrow> 'j reply \<times> 's" where
  "http_login J auth secure_cookie e request s =
     (case credentials J (json_body request) of
        Value (Some (name, password)) \<Rightarrow>
          (case login_op auth (auth_call e 0) name password s of
             (result, s') \<Rightarrow> (Reply (auth_result J secure_cookie result), s'))
      | Value None \<Rightarrow> (Reply (error_response J ''Invalid username or password'' 401), s)
      | _ \<Rightarrow> (Handler_throws, s))"

text \<open>The response to a caller whose session was not resolved, shared by several handlers.\<close>

definition session_refusal :: "'j json_lib \<Rightarrow> auth_error \<Rightarrow> 'j http_response" where
  "session_refusal J error =
     (if ae_code error = auth_internal then error_response J ''Authentication service is unavailable'' 500
      else error_response J ''Authentication required'' 401)"

definition http_current_user ::
    "'j json_lib \<Rightarrow> ('a, 's) auth_provider \<Rightarrow> ('a, 'p, 'q) request_env \<Rightarrow> 'j http_request \<Rightarrow> 's
       \<Rightarrow> 'j reply" where
  "http_current_user J auth e request s =
     (case current_user_op auth (auth_call e 0) (session_token request) s of
        Inr user \<Rightarrow> Reply (json_response (user_to_json J user))
      | Inl error \<Rightarrow> Reply (session_refusal J error))"

definition http_logout ::
    "'j json_lib \<Rightarrow> ('a, 's) auth_provider \<Rightarrow> bool \<Rightarrow> ('a, 'p, 'q) request_env \<Rightarrow> 'j http_request \<Rightarrow> 's
       \<Rightarrow> 'j reply \<times> 's" where
  "http_logout J auth secure_cookie e request s =
     (case logout_op auth (auth_call e 0) (session_token request) s of
        (Inl error, s') \<Rightarrow> (Reply (error_response J ''Authentication service is unavailable'' 500), s')
      | (Inr _, s') \<Rightarrow>
          (Reply ((json_response (json_object J (nullValue J) [(''ok'', boolValue J True)]))
             \<lparr>cookies := [session_cookie [] secure_cookie 0]\<rparr>), s'))"

section \<open>Public pages\<close>

definition http_get_problem ::
    "'j json_lib \<Rightarrow> ('p, 's) problem_repository \<Rightarrow> ('a, 'p, 'q) request_env \<Rightarrow> string \<Rightarrow> 's \<Rightarrow> 'j reply" where
  "http_get_problem J problem_service e slug s =
     (case service_find_problem problem_service (problem_call e 0) slug s of
        Inl error \<Rightarrow> Reply (error_response J ''Problem could not be retrieved'' 500)
      | Inr None \<Rightarrow> Reply (error_response J ''Problem not found'' 404)
      | Inr (Some problem) \<Rightarrow> Reply (json_response (problem_to_json J problem)))"

definition http_list_problems ::
    "'j json_lib \<Rightarrow> ('p, 's) problem_repository \<Rightarrow> ('a, 'p, 'q) request_env \<Rightarrow> 's \<Rightarrow> 'j reply" where
  "http_list_problems J problem_service e s =
     (case service_list problem_service (problem_call e 0) s of
        Inl error \<Rightarrow> Reply (error_response J ''Problems could not be retrieved'' 500)
      | Inr ps \<Rightarrow> Reply (json_response (json_array J (map (problem_summary_to_json J) ps))))"

text \<open>The account a submission belongs to: none without a cookie or with one that is not recognised.\<close>

definition submission_owner ::
    "('a, 's) auth_provider \<Rightarrow> ('a, 'p, 'q) request_env \<Rightarrow> string \<Rightarrow> 's \<Rightarrow> auth_error + int64 option" where
  "submission_owner auth e token s =
     (if token = [] then Inr None
      else case current_user_op auth (auth_call e 0) token s of
        Inr user \<Rightarrow> Inr (Some (au_id user))
      | Inl error \<Rightarrow> if ae_code error = auth_internal then Inl error else Inr None)"

definition submit_response ::
    "'j json_lib \<Rightarrow> submission_service_error + submission_record \<Rightarrow> 'j http_response" where
  "submit_response J result =
     (case result of
        Inr submission \<Rightarrow> (json_response (submission_to_json J submission False))\<lparr>status_code := 202\<rparr>
      | Inl error \<Rightarrow>
          if se_code error = rate_limited \<or> se_code error = service_queue_full
          then (error_response J (se_message error) 429)\<lparr>headers := [(''Retry-After'', ''2'')]\<rparr>
          else error_response J ''Submission could not be judged'' 500)"

definition http_submit ::
    "'j json_lib \<Rightarrow> ('q, 's) submission_repository \<Rightarrow> ('a, 's) auth_provider \<Rightarrow> ('p, 's) problem_repository
       \<Rightarrow> ('a, 'p, 'q) request_env \<Rightarrow> 'j http_request \<Rightarrow> 's \<Rightarrow> nat \<Rightarrow> 'j reply \<times> 's \<times> nat" where
  "http_submit J repo auth problem_service e request s n =
     (case json_body request of
        None \<Rightarrow> (Reply (error_response J ''Request body must contain valid JSON'' 400), s, n)
      | Some json \<Rightarrow> (case validate_submission J json of
        Inl message \<Rightarrow> (Reply (error_response J message 400), s, n)
      | Inr submission \<Rightarrow> (case service_find_problem problem_service (problem_call e 0) (rq_problem_id submission) s of
        Inl error \<Rightarrow> (Reply (error_response J ''Submission could not be accepted'' 500), s, n)
      | Inr None \<Rightarrow> (Reply (error_response J ''Unsupported problemId'' 400), s, n)
      | Inr (Some problem) \<Rightarrow>
          if rq_language submission \<notin> set (pb_languages problem)
          then (Reply (error_response J ''Unsupported language'' 400), s, n)
          else (case submission_owner auth e (session_token request) s of
            Inl error \<Rightarrow> (Reply (error_response J ''Submission could not be accepted'' 500), s, n)
          | Inr owner \<Rightarrow>
              (case submit repo (Some Suc) (submission_call e 0) (submission\<lparr>rq_user_id := owner\<rparr>) s n of
                 (result, s', n') \<Rightarrow> (Reply (submit_response J result), s', n'))))))"

definition http_submission_history ::
    "'j json_lib \<Rightarrow> ('q, 's) submission_repository \<Rightarrow> ('a, 's) auth_provider \<Rightarrow> ('p, 's) problem_repository
       \<Rightarrow> ('a, 'p, 'q) request_env \<Rightarrow> 'j http_request \<Rightarrow> string \<Rightarrow> 's \<Rightarrow> 'j reply" where
  "http_submission_history J repo auth problem_service e request problem_id s =
     (case service_find_problem problem_service (problem_call e 0) problem_id s of
        Inl error \<Rightarrow> Reply (error_response J ''Problem could not be retrieved'' 500)
      | Inr None \<Rightarrow> Reply (error_response J ''Problem not found'' 404)
      | Inr (Some _) \<Rightarrow> (case current_user_op auth (auth_call e 0) (session_token request) s of
        Inl error \<Rightarrow> Reply (session_refusal J error)
      | Inr user \<Rightarrow> (case service_history repo (submission_call e 0) (au_id user) problem_id s of
          Inl error \<Rightarrow> Reply (error_response J ''Submission history could not be retrieved'' 500)
        | Inr rs \<Rightarrow> Reply (json_response (json_array J (map (\<lambda>r. submission_to_json J r True) rs))))))"

definition http_get_submission ::
    "'j json_lib \<Rightarrow> ('q, 's) submission_repository \<Rightarrow> ('a, 'p, 'q) request_env \<Rightarrow> string \<Rightarrow> 's \<Rightarrow> 'j reply" where
  "http_get_submission J repo e raw_id s =
     (case positive_id raw_id of
        None \<Rightarrow> Reply (error_response J ''Submission id must be a positive integer'' 400)
      | Some i \<Rightarrow> (case service_find repo (submission_call e 0) i s of
          Inl error \<Rightarrow> Reply (error_response J ''Submission could not be retrieved'' 500)
        | Inr None \<Rightarrow> Reply (error_response J ''Submission not found'' 404)
        | Inr (Some submission) \<Rightarrow> Reply (json_response (submission_to_json J submission True))))"

text \<open>The \<open>k\<close>-th completed problem is looked up by the \<open>k\<close>-th call of the problem service.\<close>

definition completed_to_json ::
    "'j json_lib \<Rightarrow> ('p, 's) problem_repository \<Rightarrow> ('a, 'p, 'q) request_env \<Rightarrow> 's \<Rightarrow> nat \<times> completed_problem \<Rightarrow> 'j" where
  "completed_to_json J problem_service e s = (\<lambda>(k, c). json_object J (nullValue J)
     [(''id'', stringValue J (cp_problem_id c)),
      (''title'', stringValue J (case service_find_for_judging problem_service (problem_call e k) (cp_problem_id c) s of
         Inr (Some problem) \<Rightarrow> pb_title problem | _ \<Rightarrow> cp_problem_id c)),
      (''completedAt'', stringValue J (cp_completed_at c))])"

definition http_profile ::
    "'j json_lib \<Rightarrow> ('q, 's) submission_repository \<Rightarrow> ('a, 's) auth_provider \<Rightarrow> ('p, 's) problem_repository
       \<Rightarrow> ('a, 'p, 'q) request_env \<Rightarrow> 'j http_request \<Rightarrow> 's \<Rightarrow> 'j reply" where
  "http_profile J repo auth problem_service e request s =
     (case current_user_op auth (auth_call e 0) (session_token request) s of
        Inl error \<Rightarrow> Reply (session_refusal J error)
      | Inr user \<Rightarrow> (case service_progress repo (submission_call e 0) (au_id user) s of
          Inl error \<Rightarrow> Reply (error_response J ''Profile could not be retrieved'' 500)
        | Inr progress \<Rightarrow> Reply (json_response (json_object J (nullValue J)
            [(''user'', user_to_json J user),
             (''activity'', json_object J (nullValue J)
               [(''totalSubmissions'', int64Value J (total_submissions progress)),
                (''acceptedSubmissions'', int64Value J (accepted_submissions progress)),
                (''currentStreakDays'', int64Value J (current_streak_days progress)),
                (''completedProblems'', int64Value J (int (length (completed_problems progress))))]),
             (''mostRecentSubmissionProblemId'', case most_recent_submission_problem_id progress of
                Some i \<Rightarrow> stringValue J i | None \<Rightarrow> nullValue J),
             (''completedProblems'', json_array J (map (completed_to_json J problem_service e s)
                (zip [0..<length (completed_problems progress)] (completed_problems progress))))]))))"

section \<open>Administration\<close>

text \<open>None admits the caller; otherwise the response that was sent.\<close>

definition require_admin ::
    "'j json_lib \<Rightarrow> ('a, 's) auth_provider \<Rightarrow> ('a, 'p, 'q) request_env \<Rightarrow> 'j http_request \<Rightarrow> 's
       \<Rightarrow> 'j http_response option" where
  "require_admin J auth e request s =
     (case current_user_op auth (auth_call e 0) (session_token request) s of
        Inr user \<Rightarrow> if has_admin_access user then None
          else Some (error_response J ''Administrator access required'' 403)
      | Inl error \<Rightarrow> Some (session_refusal J error))"

text \<open>\<^verbatim>\<open>std::get\<close> throws when the session is no longer recognised.\<close>

definition authenticated_admin_id ::
    "('a, 's) auth_provider \<Rightarrow> ('a, 'p, 'q) request_env \<Rightarrow> 'j http_request \<Rightarrow> 's \<Rightarrow> int64 option" where
  "authenticated_admin_id auth e request s =
     (case current_user_op auth (auth_call e 1) (session_token request) s of
        Inr user \<Rightarrow> Some (au_id user) | Inl _ \<Rightarrow> None)"

definition audit_admin_change ::
    "('q, 's) submission_repository \<Rightarrow> ('a, 'p, 'q) request_env \<Rightarrow> int64 \<Rightarrow> string \<Rightarrow> string \<Rightarrow> string
       \<Rightarrow> 's \<Rightarrow> 's" where
  "audit_admin_change repo e admin_id action entity_type entity_id s =
     snd (audit_op repo (submission_call e 0) admin_id action entity_type entity_id ''{}'' s)"

text \<open>A response that is sent after the change was written to the audit log.\<close>

definition audited ::
    "('q, 's) submission_repository \<Rightarrow> ('a, 's) auth_provider \<Rightarrow> ('a, 'p, 'q) request_env \<Rightarrow> 'j http_request
       \<Rightarrow> string \<Rightarrow> string \<Rightarrow> string \<Rightarrow> 'j http_response \<Rightarrow> 's \<Rightarrow> 'j reply \<times> 's" where
  "audited repo auth e request action entity_type entity_id response s =
     (case authenticated_admin_id auth e request s of
        None \<Rightarrow> (Handler_throws, s)
      | Some admin_id \<Rightarrow> (Reply response, audit_admin_change repo e admin_id action entity_type entity_id s))"

definition admin_list_problems ::
    "'j json_lib \<Rightarrow> ('a, 's) auth_provider \<Rightarrow> ('p, 's) problem_repository \<Rightarrow> ('a, 'p, 'q) request_env
       \<Rightarrow> 'j http_request \<Rightarrow> 's \<Rightarrow> 'j reply" where
  "admin_list_problems J auth repository e request s =
     (case require_admin J auth e request s of
        Some refusal \<Rightarrow> Reply refusal
      | None \<Rightarrow> (case list_all_problems_op repository (problem_call e 0) s of
          Inl error \<Rightarrow> Reply (error_response J ''Problems could not be retrieved'' 500)
        | Inr ps \<Rightarrow> Reply (json_response (json_array J (map (\<lambda>p. json_object J
            (problem_summary_to_json J p) [(''enabled'', boolValue J (pb_enabled p))]) ps)))))"

definition admin_get_problem ::
    "'j json_lib \<Rightarrow> ('a, 's) auth_provider \<Rightarrow> ('p, 's) problem_repository \<Rightarrow> ('a, 'p, 'q) request_env
       \<Rightarrow> 'j http_request \<Rightarrow> string \<Rightarrow> 's \<Rightarrow> 'j reply" where
  "admin_get_problem J auth repository e request i s =
     (case require_admin J auth e request s of
        Some refusal \<Rightarrow> Reply refusal
      | None \<Rightarrow> (case find_any_op repository (problem_call e 0) i s of
          Inl error \<Rightarrow> Reply (error_response J ''Problem could not be retrieved'' 500)
        | Inr None \<Rightarrow> Reply (error_response J ''Problem not found'' 404)
        | Inr (Some problem) \<Rightarrow> Reply (json_response (admin_problem_to_json J problem))))"

definition problem_message :: "problem_repository_error \<Rightarrow> string" where
  "problem_message error = (case error of ProblemRepositoryError message \<Rightarrow> message)"

definition admin_write_problem ::
    "'j json_lib \<Rightarrow> ('a, 's) auth_provider \<Rightarrow> ('p, 's) problem_repository \<Rightarrow> ('q, 's) submission_repository
       \<Rightarrow> ('a, 'p, 'q) request_env \<Rightarrow> 'j http_request \<Rightarrow> string option \<Rightarrow> 's \<Rightarrow> 'j reply \<times> 's" where
  "admin_write_problem J auth repository audit_repository e request i s =
     (case require_admin J auth e request s of
        Some refusal \<Rightarrow> (Reply refusal, s)
      | None \<Rightarrow> (case json_body request of
        None \<Rightarrow> (Reply (error_response J ''Request body must contain valid JSON'' 400), s)
      | Some json \<Rightarrow> (case parse_admin_problem J json i of
        Raises \<Rightarrow> (Handler_throws, s)
      | Message message \<Rightarrow> (Reply (error_response J message 400), s)
      | Value parsed \<Rightarrow>
          (case (if i \<noteq> None then update_problem_op repository else create_problem_op repository)
                  (problem_call e 0) parsed s of
             (Inl error, s') \<Rightarrow> (Reply (error_response J (problem_message error)
               (if problem_message error = ''Problem not found'' then 404 else 409)), s')
           | (Inr written, s') \<Rightarrow>
               audited audit_repository auth e request
                 (if i \<noteq> None then ''problem.update'' else ''problem.create'') ''problem'' (pb_id written)
                 (if i = None then (json_response (admin_problem_to_json J written))\<lparr>status_code := 201\<rparr>
                  else json_response (admin_problem_to_json J written)) s'))))"

definition admin_delete_problem ::
    "'j json_lib \<Rightarrow> ('a, 's) auth_provider \<Rightarrow> ('p, 's) problem_repository \<Rightarrow> ('q, 's) submission_repository
       \<Rightarrow> ('a, 'p, 'q) request_env \<Rightarrow> 'j http_request \<Rightarrow> string \<Rightarrow> 's \<Rightarrow> 'j reply \<times> 's" where
  "admin_delete_problem J auth repository audit_repository e request i s =
     (case require_admin J auth e request s of
        Some refusal \<Rightarrow> (Reply refusal, s)
      | None \<Rightarrow> (case remove_problem_op repository (problem_call e 0) i s of
          (Inl error, s') \<Rightarrow> (Reply (error_response J ''Problem could not be deleted'' 409), s')
        | (Inr removed, s') \<Rightarrow>
            (if \<not> removed then (Reply (error_response J ''Problem not found'' 404), s')
             else audited audit_repository auth e request ''problem.delete'' ''problem'' i no_content s')))"

definition test_entity :: "string \<Rightarrow> int64 \<Rightarrow> string" where
  "test_entity problem_id n = problem_id @ '':'' @ to_string n"

definition admin_write_test ::
    "'j json_lib \<Rightarrow> ('a, 's) auth_provider \<Rightarrow> ('p, 's) problem_repository \<Rightarrow> ('q, 's) submission_repository
       \<Rightarrow> ('a, 'p, 'q) request_env \<Rightarrow> 'j http_request \<Rightarrow> string \<Rightarrow> string option \<Rightarrow> 's \<Rightarrow> 'j reply \<times> 's" where
  "admin_write_test J auth repository audit_repository e request problem_id raw_test_id s =
     (case require_admin J auth e request s of
        Some refusal \<Rightarrow> (Reply refusal, s)
      | None \<Rightarrow> (case (case raw_test_id of None \<Rightarrow> Some 0 | Some raw \<Rightarrow> positive_id raw) of
        None \<Rightarrow> (Reply (error_response J ''Test id must be a positive integer'' 400), s)
      | Some test_id \<Rightarrow> (case json_body request of
        None \<Rightarrow> (Reply (error_response J ''Request body must contain valid JSON'' 400), s)
      | Some json \<Rightarrow> (case parse_admin_test J json test_id of
        Raises \<Rightarrow> (Handler_throws, s)
      | Message message \<Rightarrow> (Reply (error_response J message 400), s)
      | Value parsed \<Rightarrow>
          (case (if raw_test_id \<noteq> None then update_test_op repository else create_test_op repository)
                  (problem_call e 0) problem_id parsed s of
             (Inl error, s') \<Rightarrow> (Reply (error_response J (problem_message error) 409), s')
           | (Inr written, s') \<Rightarrow>
               audited audit_repository auth e request
                 (if raw_test_id \<noteq> None then ''problem-test.update'' else ''problem-test.create'') ''problem-test''
                 (test_entity problem_id (tc_id written))
                 (if raw_test_id = None
                  then (json_response (admin_problem_test_to_json J written))\<lparr>status_code := 201\<rparr>
                  else json_response (admin_problem_test_to_json J written)) s')))))"

definition admin_delete_test ::
    "'j json_lib \<Rightarrow> ('a, 's) auth_provider \<Rightarrow> ('p, 's) problem_repository \<Rightarrow> ('q, 's) submission_repository
       \<Rightarrow> ('a, 'p, 'q) request_env \<Rightarrow> 'j http_request \<Rightarrow> string \<Rightarrow> string \<Rightarrow> 's \<Rightarrow> 'j reply \<times> 's" where
  "admin_delete_test J auth repository audit_repository e request problem_id raw_test_id s =
     (case require_admin J auth e request s of
        Some refusal \<Rightarrow> (Reply refusal, s)
      | None \<Rightarrow> (case positive_id raw_test_id of
        None \<Rightarrow> (Reply (error_response J ''Test id must be a positive integer'' 400), s)
      | Some test_id \<Rightarrow> (case remove_test_op repository (problem_call e 0) problem_id test_id s of
          (Inl error, s') \<Rightarrow> (Reply (error_response J ''Hidden test could not be deleted'' 409), s')
        | (Inr removed, s') \<Rightarrow>
            (if \<not> removed then (Reply (error_response J ''Hidden test not found'' 404), s')
             else audited audit_repository auth e request ''problem-test.delete'' ''problem-test''
               (test_entity problem_id test_id) no_content s'))))"

text \<open>The filter of the submission list; the error message when a parameter is not accepted.\<close>

definition optional_parameter :: "'j http_request \<Rightarrow> string \<Rightarrow> string option" where
  "optional_parameter request name = (if parameter request name = [] then None else Some (parameter request name))"

definition filter_status :: "string option \<Rightarrow> string + submission_status option" where
  "filter_status value = (case value of None \<Rightarrow> Inr None
     | Some st \<Rightarrow>
         if st = ''Failed'' then Inr (Some failed) else if st = ''Queued'' then Inr (Some queued)
         else if st = ''Running'' then Inr (Some running) else if st = ''Completed'' then Inr (Some completed)
         else Inl ''Unknown submission status filter'')"

definition filter_user :: "string option \<Rightarrow> string + int64 option" where
  "filter_user value = (case value of None \<Rightarrow> Inr None
     | Some raw \<Rightarrow> (case positive_id raw of None \<Rightarrow> Inl ''User id must be a positive integer''
         | Some i \<Rightarrow> Inr (Some i)))"

definition submission_filter :: "'j http_request \<Rightarrow> string + submission_admin_filter" where
  "submission_filter request =
     (case filter_status (optional_parameter request ''status'') of Inl message \<Rightarrow> Inl message
      | Inr st \<Rightarrow> (case filter_user (optional_parameter request ''userId'') of Inl message \<Rightarrow> Inl message
      | Inr user \<Rightarrow> Inr \<lparr>fl_status = st, fl_error_type = optional_parameter request ''errorType'',
          fl_language = optional_parameter request ''language'',
          fl_problem_id = optional_parameter request ''problemId'', fl_user_id = user,
          fl_created_from = optional_parameter request ''from'',
          fl_created_to = optional_parameter request ''to''\<rparr>))"

definition admin_submissions ::
    "'j json_lib \<Rightarrow> ('a, 's) auth_provider \<Rightarrow> ('q, 's) submission_repository \<Rightarrow> ('a, 'p, 'q) request_env
       \<Rightarrow> 'j http_request \<Rightarrow> string option \<Rightarrow> 's \<Rightarrow> 'j reply" where
  "admin_submissions J auth repository e request raw_id s =
     (case require_admin J auth e request s of
        Some refusal \<Rightarrow> Reply refusal
      | None \<Rightarrow> (case raw_id of
        Some raw \<Rightarrow> (case positive_id raw of
            None \<Rightarrow> Reply (error_response J ''Submission id must be a positive integer'' 400)
          | Some i \<Rightarrow> (case find_op repository (submission_call e 0) i s of
              Inl error \<Rightarrow> Reply (error_response J ''Submission could not be retrieved'' 500)
            | Inr None \<Rightarrow> Reply (error_response J ''Submission not found'' 404)
            | Inr (Some r) \<Rightarrow> Reply (json_response (admin_submission_to_json J r))))
      | None \<Rightarrow> (case submission_filter request of
            Inl message \<Rightarrow> Reply (error_response J message 400)
          | Inr fl \<Rightarrow> (case list_filtered_op repository (submission_call e 0) fl s of
              Inl error \<Rightarrow> Reply (error_response J ''Submissions could not be retrieved'' 500)
            | Inr rs \<Rightarrow> Reply (json_response (json_array J (map (admin_submission_to_json J) rs)))))))"

definition admin_retry_submission ::
    "'j json_lib \<Rightarrow> ('a, 's) auth_provider \<Rightarrow> ('q, 's) submission_repository \<Rightarrow> ('a, 'p, 'q) request_env
       \<Rightarrow> 'j http_request \<Rightarrow> string \<Rightarrow> 's \<Rightarrow> nat \<Rightarrow> 'j reply \<times> 's \<times> nat" where
  "admin_retry_submission J auth repository e request raw_id s n =
     (case require_admin J auth e request s of
        Some refusal \<Rightarrow> (Reply refusal, s, n)
      | None \<Rightarrow> (case positive_id raw_id of
        None \<Rightarrow> (Reply (error_response J ''Submission id must be a positive integer'' 400), s, n)
      | Some i \<Rightarrow> (case authenticated_admin_id auth e request s of
        None \<Rightarrow> (Handler_throws, s, n)
      | Some admin \<Rightarrow> (case retry_op repository (submission_call e 0) i admin s of
          (Inl error, s') \<Rightarrow> (Reply (error_response J (re_message error) 409), s', n)
        | (Inr r, s') \<Rightarrow> (Reply ((json_response (admin_submission_to_json J r))\<lparr>status_code := 202\<rparr>), s', Suc n)))))"

section \<open>Routes\<close>

record ('a, 'p, 'q, 's) server =
  auth_service :: "('a, 's) auth_provider"
  problem_store_of :: "('p, 's) problem_repository"
  submission_store_of :: "('q, 's) submission_repository"
  secure_cookies :: bool

text \<open>
  The registered routes, in the order of \<^verbatim>\<open>main\<close>: the method, the path pattern with its
  placeholders, and the handler as a function of what the placeholders matched.
\<close>

datatype route =
    Register_route
  | Login_route
  | Logout_route
  | Me_route
  | Profile_route
  | Problems_route
  | Problem_route string
  | History_route string
  | Submission_route string
  | Submit_route
  | Admin_problems_route
  | Admin_problem_route string
  | Admin_create_problem_route
  | Admin_update_problem_route string
  | Admin_delete_problem_route string
  | Admin_create_test_route string
  | Admin_update_test_route string string
  | Admin_delete_test_route string string
  | Admin_submissions_route
  | Admin_submission_route string
  | Admin_retry_route string

datatype segment = Fixed string | Hole

fun match_path :: "segment list \<Rightarrow> string list \<Rightarrow> string list option" where
  "match_path [] [] = Some []"
| "match_path (Fixed f # ps) (x # xs) = (if f = x then match_path ps xs else None)"
| "match_path (Hole # ps) (x # xs) = map_option (\<lambda>args. x # args) (match_path ps xs)"
| "match_path _ _ = None"

abbreviation api :: "segment list \<Rightarrow> segment list" where
  "api ps \<equiv> Fixed ''api'' # ps"

abbreviation admin_api :: "segment list \<Rightarrow> segment list" where
  "admin_api ps \<equiv> Fixed ''api'' # Fixed ''admin'' # ps"

definition route_table :: "(http_method \<times> segment list \<times> (string list \<Rightarrow> route)) list" where
  "route_table =
     [(Post, api [Fixed ''auth'', Fixed ''register''], \<lambda>_. Register_route),
      (Post, api [Fixed ''auth'', Fixed ''login''], \<lambda>_. Login_route),
      (Post, api [Fixed ''auth'', Fixed ''logout''], \<lambda>_. Logout_route),
      (Get, api [Fixed ''auth'', Fixed ''me''], \<lambda>_. Me_route),
      (Get, api [Fixed ''profile''], \<lambda>_. Profile_route),
      (Get, api [Fixed ''problems''], \<lambda>_. Problems_route),
      (Get, api [Fixed ''problems'', Hole], \<lambda>xs. Problem_route (xs ! 0)),
      (Get, api [Fixed ''problems'', Hole, Fixed ''submissions''], \<lambda>xs. History_route (xs ! 0)),
      (Get, api [Fixed ''submissions'', Hole], \<lambda>xs. Submission_route (xs ! 0)),
      (Post, api [Fixed ''submissions''], \<lambda>_. Submit_route),
      (Get, admin_api [Fixed ''problems''], \<lambda>_. Admin_problems_route),
      (Post, admin_api [Fixed ''problems''], \<lambda>_. Admin_create_problem_route),
      (Get, admin_api [Fixed ''problems'', Hole], \<lambda>xs. Admin_problem_route (xs ! 0)),
      (Put, admin_api [Fixed ''problems'', Hole], \<lambda>xs. Admin_update_problem_route (xs ! 0)),
      (Delete, admin_api [Fixed ''problems'', Hole], \<lambda>xs. Admin_delete_problem_route (xs ! 0)),
      (Post, admin_api [Fixed ''problems'', Hole, Fixed ''tests''], \<lambda>xs. Admin_create_test_route (xs ! 0)),
      (Put, admin_api [Fixed ''problems'', Hole, Fixed ''tests'', Hole],
         \<lambda>xs. Admin_update_test_route (xs ! 0) (xs ! 1)),
      (Delete, admin_api [Fixed ''problems'', Hole, Fixed ''tests'', Hole],
         \<lambda>xs. Admin_delete_test_route (xs ! 0) (xs ! 1)),
      (Get, admin_api [Fixed ''submissions''], \<lambda>_. Admin_submissions_route),
      (Get, admin_api [Fixed ''submissions'', Hole], \<lambda>xs. Admin_submission_route (xs ! 0)),
      (Post, admin_api [Fixed ''submissions'', Hole, Fixed ''retry''], \<lambda>xs. Admin_retry_route (xs ! 0))]"

fun find_route :: "(http_method \<times> segment list \<times> (string list \<Rightarrow> route)) list \<Rightarrow> http_method
    \<Rightarrow> string list \<Rightarrow> route option" where
  "find_route [] verb path = None"
| "find_route ((v, pattern, f) # rest) verb path =
     (case (if v = verb then match_path pattern path else None) of
        Some args \<Rightarrow> Some (f args) | None \<Rightarrow> find_route rest verb path)"

text \<open>The handlers the routes name; one that only reads leaves the state as it is.\<close>

definition reading :: "'s \<Rightarrow> nat \<Rightarrow> 'j reply \<Rightarrow> 'j reply \<times> 's \<times> nat" where
  "reading s n r = (r, s, n)"

definition quietly :: "nat \<Rightarrow> 'j reply \<times> 's \<Rightarrow> 'j reply \<times> 's \<times> nat" where
  "quietly n out = (fst out, snd out, n)"

fun handle ::
    "'j json_lib \<Rightarrow> ('a, 'p, 'q, 's) server \<Rightarrow> ('a, 'p, 'q) request_env \<Rightarrow> 'j http_request \<Rightarrow> route \<Rightarrow> 's \<Rightarrow> nat
       \<Rightarrow> 'j reply \<times> 's \<times> nat" where
  "handle J srv e r Register_route s n =
     quietly n (http_register_user J (auth_service srv) (secure_cookies srv) e r s)"
| "handle J srv e r Login_route s n = quietly n (http_login J (auth_service srv) (secure_cookies srv) e r s)"
| "handle J srv e r Logout_route s n = quietly n (http_logout J (auth_service srv) (secure_cookies srv) e r s)"
| "handle J srv e r Me_route s n = reading s n (http_current_user J (auth_service srv) e r s)"
| "handle J srv e r Profile_route s n = reading s n (http_profile J (submission_store_of srv) (auth_service srv)
     (problem_store_of srv) e r s)"
| "handle J srv e r Problems_route s n = reading s n (http_list_problems J (problem_store_of srv) e s)"
| "handle J srv e r (Problem_route slug) s n = reading s n (http_get_problem J (problem_store_of srv) e slug s)"
| "handle J srv e r (History_route i) s n = reading s n (http_submission_history J (submission_store_of srv)
     (auth_service srv) (problem_store_of srv) e r i s)"
| "handle J srv e r (Submission_route i) s n = reading s n (http_get_submission J (submission_store_of srv) e i s)"
| "handle J srv e r Submit_route s n = http_submit J (submission_store_of srv) (auth_service srv)
     (problem_store_of srv) e r s n"
| "handle J srv e r Admin_problems_route s n =
     reading s n (admin_list_problems J (auth_service srv) (problem_store_of srv) e r s)"
| "handle J srv e r (Admin_problem_route i) s n =
     reading s n (admin_get_problem J (auth_service srv) (problem_store_of srv) e r i s)"
| "handle J srv e r Admin_create_problem_route s n = quietly n (admin_write_problem J (auth_service srv)
     (problem_store_of srv) (submission_store_of srv) e r None s)"
| "handle J srv e r (Admin_update_problem_route i) s n = quietly n (admin_write_problem J (auth_service srv)
     (problem_store_of srv) (submission_store_of srv) e r (Some i) s)"
| "handle J srv e r (Admin_delete_problem_route i) s n = quietly n (admin_delete_problem J (auth_service srv)
     (problem_store_of srv) (submission_store_of srv) e r i s)"
| "handle J srv e r (Admin_create_test_route i) s n = quietly n (admin_write_test J (auth_service srv)
     (problem_store_of srv) (submission_store_of srv) e r i None s)"
| "handle J srv e r (Admin_update_test_route i t) s n = quietly n (admin_write_test J (auth_service srv)
     (problem_store_of srv) (submission_store_of srv) e r i (Some t) s)"
| "handle J srv e r (Admin_delete_test_route i t) s n = quietly n (admin_delete_test J (auth_service srv)
     (problem_store_of srv) (submission_store_of srv) e r i t s)"
| "handle J srv e r Admin_submissions_route s n =
     reading s n (admin_submissions J (auth_service srv) (submission_store_of srv) e r None s)"
| "handle J srv e r (Admin_submission_route i) s n =
     reading s n (admin_submissions J (auth_service srv) (submission_store_of srv) e r (Some i) s)"
| "handle J srv e r (Admin_retry_route i) s n =
     admin_retry_submission J (auth_service srv) (submission_store_of srv) e r i s n"

text \<open>None when no route is registered: Drogon answers then.\<close>

definition serve ::
    "'j json_lib \<Rightarrow> ('a, 'p, 'q, 's) server \<Rightarrow> ('a, 'p, 'q) request_env \<Rightarrow> http_method \<Rightarrow> string list
       \<Rightarrow> 'j http_request \<Rightarrow> 's \<Rightarrow> nat \<Rightarrow> ('j reply \<times> 's \<times> nat) option" where
  "serve J srv e verb path request s n =
     map_option (\<lambda>r. handle J srv e request r s n) (find_route route_table verb path)"

section \<open>An accepted submission\<close>

lemma status_error_response [simp]: "status_code (error_response J m st) = st"
  by (simp add: error_response_def)

lemma submit_response_accepted:
  assumes "status_code (submit_response J result) = 202"
  shows "\<exists>x. result = Inr x \<and> content (submit_response J result) = Some (submission_to_json J x False)"
  using assms by (cases result) (auto simp: submit_response_def json_response_def split: if_splits)

lemma http_submit_accepted:
  assumes run: "http_submit J repo auth ps e request s n = (Reply r, s', n')" and accepted: "status_code r = 202"
  shows "\<exists>body q owner x. json_body request = Some body \<and> validate_submission J body = Inr q
    \<and> submission_owner auth e (session_token request) s = Inr owner
    \<and> submit repo (Some Suc) (submission_call e 0) (q\<lparr>rq_user_id := owner\<rparr>) s n = (Inr x, s', n')
    \<and> content r = Some (submission_to_json J x False)"
proof -
  obtain body q owner result where "json_body request = Some body" "validate_submission J body = Inr q"
    "submission_owner auth e (session_token request) s = Inr owner"
    "submit repo (Some Suc) (submission_call e 0) (q\<lparr>rq_user_id := owner\<rparr>) s n = (result, s', n')"
    "r = submit_response J result"
    using run accepted
    by (auto simp: http_submit_def split: option.splits sum.splits if_splits prod.splits)
  then show ?thesis using submit_response_accepted [of J result] accepted by auto
qed

text \<open>An accepted submission is to an enabled problem, in one of its languages.\<close>

lemma http_submit_checked:
  assumes "http_submit J repo auth ps e request s n = (Reply r, s', n')" and "status_code r = 202"
    and "json_body request = Some body" and "validate_submission J body = Inr q"
  shows "\<exists>p. service_find_problem ps (problem_call e 0) (rq_problem_id q) s = Inr (Some p)
    \<and> rq_language q \<in> set (pb_languages p)"
  using assms by (auto simp: http_submit_def split: option.splits sum.splits if_splits prod.splits)

text \<open>Every other answer: refused before anything was done, refused for the limits, or failed.\<close>

lemma http_submit_refused:
  assumes "http_submit J repo auth ps e request s n = (Reply r, s', n')" and "status_code r \<noteq> 202"
  obtains (bad_request) "status_code r = 400" "s' = s" "n' = n"
  | (failed) "status_code r = 500" "n' = n"
  | (limited) q err where "status_code r = 429" "create_op repo (submission_call e 0) q s = (Inl err, s')" "n' = n"
  using assms
  by (auto simp: http_submit_def submit_def submit_response_def json_response_def
      split: option.splits sum.splits if_splits prod.splits)

section \<open>Which requests are for administrators\<close>

fun admin_route :: "route \<Rightarrow> bool" where
  "admin_route Admin_problems_route = True"
| "admin_route (Admin_problem_route i) = True"
| "admin_route Admin_create_problem_route = True"
| "admin_route (Admin_update_problem_route i) = True"
| "admin_route (Admin_delete_problem_route i) = True"
| "admin_route (Admin_create_test_route i) = True"
| "admin_route (Admin_update_test_route i t) = True"
| "admin_route (Admin_delete_test_route i t) = True"
| "admin_route Admin_submissions_route = True"
| "admin_route (Admin_submission_route i) = True"
| "admin_route (Admin_retry_route i) = True"
| "admin_route _ = False"

lemma match_path_Cons:
  "match_path (Fixed f # ps) xs = (case xs of x # xs' \<Rightarrow> if f = x then match_path ps xs' else None | [] \<Rightarrow> None)"
  "match_path (Hole # ps) xs = (case xs of x # xs' \<Rightarrow> map_option (\<lambda>args. x # args) (match_path ps xs') | [] \<Rightarrow> None)"
  "match_path [] xs = (case xs of [] \<Rightarrow> Some [] | _ # _ \<Rightarrow> None)"
  by (cases xs; simp)+

lemma find_route_Some:
  assumes "find_route table verb path = Some r"
  shows "\<exists>v pattern f args. (v, pattern, f) \<in> set table \<and> match_path pattern path = Some args \<and> r = f args"
  using assms
proof (induction table)
  case (Cons t table)
  obtain v pattern f where t: "t = (v, pattern, f)" by (cases t)
  show ?case
  proof (cases "if v = verb then match_path pattern path else None")
    case None
    then have "find_route table verb path = Some r" using Cons.prems by (simp add: t)
    then show ?thesis using Cons.IH by auto
  next
    case (Some args)
    then have "r = f args" "match_path pattern path = Some args" using Cons.prems by (auto simp: t split: if_splits)
    then show ?thesis using t by auto
  qed
qed simp

text \<open>The routes under \<^verbatim>\<open>/api/admin\<close> are exactly those of the administrator's handlers.\<close>

lemma find_route_admin:
  assumes "find_route route_table verb path = Some r"
  shows "admin_route r \<longleftrightarrow> (\<exists>rest. path = ''api'' # ''admin'' # rest)"
proof -
  have entry: "admin_route (f args) \<longleftrightarrow> (\<exists>rest. path = ''api'' # ''admin'' # rest)"
    if "(v, pattern, f) \<in> set route_table" "match_path pattern path = Some args" for v pattern f args
    using that unfolding route_table_def list.set insert_iff empty_iff prod.inject
    by (elim disjE conjE FalseE; hypsubst;
        auto simp del: match_path.simps simp: match_path_Cons split: list.splits if_splits)
  from find_route_Some [OF assms] show ?thesis using entry by blast
qed

text \<open>A caller who is not an administrator gets the refusal from each of them, and nothing else happens.\<close>

lemma handle_refused:
  assumes "admin_route r" "require_admin J (auth_service srv) e request s = Some refusal"
  shows "handle J srv e request r s n = (Reply refusal, s, n)"
  using assms
  by (cases r) (simp_all add: reading_def quietly_def admin_list_problems_def admin_get_problem_def
      admin_write_problem_def admin_delete_problem_def admin_write_test_def admin_delete_test_def
      admin_submissions_def admin_retry_submission_def)

definition visitor :: "('a, 'p, 'q, 's) server \<Rightarrow> ('a, 'p, 'q) request_env \<Rightarrow> 'j http_request \<Rightarrow> 's \<Rightarrow> bool" where
  "visitor srv e request s \<longleftrightarrow>
     (case current_user_op (auth_service srv) (auth_call e 0) (session_token request) s of
        Inr user \<Rightarrow> \<not> has_admin_access user | Inl _ \<Rightarrow> True)"

lemma visitor_handle:
  assumes "visitor srv e request s" "admin_route r" "handle J srv e request r s n = (reply, s', n')"
  shows "s' = s \<and> n' = n
    \<and> (\<exists>message status. status \<in> {401, 403, 500} \<and> reply = Reply (error_response J message status))"
proof -
  obtain message status where "status \<in> {401, 403, 500}"
    and refused: "require_admin J (auth_service srv) e request s = Some (error_response J message status)"
  proof -
    have "\<exists>message status. status \<in> {401, 403, 500}
        \<and> require_admin J (auth_service srv) e request s = Some (error_response J message status)"
      using assms(1) unfolding visitor_def require_admin_def session_refusal_def
      by (cases "current_user_op (auth_service srv) (auth_call e 0) (session_token request) s") auto
    then show ?thesis using that by blast
  qed
  then show ?thesis using handle_refused [OF assms(2) refused, of n] assms(3) by auto
qed

section \<open>What visitors cannot change\<close>

text \<open>
  \<open>protected\<close> is the part of the state that belongs to the administrators. The account and
  submission components promise not to touch it; then no sequence of visitors' requests does.
\<close>

inductive visitor_step ::
    "'j json_lib \<Rightarrow> ('a, 'p, 'q, 's) server \<Rightarrow> 's \<times> nat \<Rightarrow> 's \<times> nat \<Rightarrow> bool" for J srv where
  Request: "serve J srv e verb path request s n = Some (reply, s', n') \<Longrightarrow> visitor srv e request s \<Longrightarrow>
     visitor_step J srv (s, n) (s', n')"

inductive_cases visitor_stepE: "visitor_step J srv (s, n) (s', n')"

locale guarded_site =
  fixes srv :: "('a, 'p, 'q, 's) server" and protected :: "'s \<Rightarrow> 'v"
  assumes register_protected:
      "register_user_op (auth_service srv) e name password s = (res, s') \<Longrightarrow> protected s' = protected s"
    and login_protected:
      "login_op (auth_service srv) e name password s = (res, s') \<Longrightarrow> protected s' = protected s"
    and logout_protected:
      "logout_op (auth_service srv) e token s = (ended, s') \<Longrightarrow> protected s' = protected s"
    and create_protected:
      "create_op (submission_store_of srv) e' q s = (sub, s') \<Longrightarrow> protected s' = protected s"
begin

lemma submit_protected:
  "http_submit J (submission_store_of srv) auth ps e request s n = (reply, s', n') \<Longrightarrow> protected s' = protected s"
  by (auto simp: http_submit_def submit_def dest: create_protected
      split: option.splits sum.splits if_splits prod.splits)

lemma account_handlers_protected:
  "http_register_user J (auth_service srv) sec e request s = (reply, s') \<Longrightarrow> protected s' = protected s"
  "http_login J (auth_service srv) sec e request s = (reply, s') \<Longrightarrow> protected s' = protected s"
  "http_logout J (auth_service srv) sec e request s = (reply, s') \<Longrightarrow> protected s' = protected s"
  by (auto simp: http_register_user_def http_login_def http_logout_def
      dest: register_protected login_protected logout_protected
      split: parse_outcome.splits option.splits prod.splits sum.splits)

lemma handle_protected:
  assumes "\<not> admin_route r" "handle J srv e request r s n = (reply, s', n')"
  shows "protected s' = protected s"
  using assms
  by (cases r) (auto simp: reading_def quietly_def dest: account_handlers_protected submit_protected
      intro: account_handlers_protected [OF surjective_pairing])

lemma visitor_step_protected:
  assumes "visitor_step J srv (s, n) (s', n')"
  shows "protected s' = protected s"
  using assms
proof (rule visitor_stepE)
  fix e verb path request reply
  assume serve: "serve J srv e verb path request s n = Some (reply, s', n')" and "visitor srv e request s"
  obtain r where r: "handle J srv e request r s n = (reply, s', n')" using serve by (auto simp: serve_def)
  show ?thesis
  proof (cases "admin_route r")
    case True
    then show ?thesis using visitor_handle [OF \<open>visitor srv e request s\<close> True r] by simp
  qed (rule handle_protected [OF _ r])
qed

lemma visitors_protected:
  "(visitor_step J srv)\<^sup>*\<^sup>* y z \<Longrightarrow> protected (fst z) = protected (fst y)"
proof (induction rule: rtranclp_induct)
  case (step z z')
  then show ?case using visitor_step_protected [of J "fst z" "snd z" "fst z'" "snd z'"] by simp
qed simp

end

end
