(* ===== verification/Pg_Server.thy ===== *)
theory Pg_Server
  imports Http_Server Pg_Auth Pg_Problems Pg_Submissions
begin

text \<open>
  The server as \<^verbatim>\<open>main\<close> assembles it: the HTTP handlers over the PostgreSQL account
  service, problem repository and submission repository, which share one database. The theorems
  follow requests through all of them.
\<close>

definition pg_server ::
    "'j json_lib \<Rightarrow> 'j json_text_lib \<Rightarrow> (pg_env \<Rightarrow> nat) \<Rightarrow> pg_auth_service \<Rightarrow> queue_limits \<Rightarrow> bool
       \<Rightarrow> (pg_auth_env, pg_env, pg_env, int database) server" where
  "pg_server J W gap A lim secure_cookie = \<lparr>auth_service = pg_auth_provider A,
     problem_store_of = pg_problems J W gap, submission_store_of = pg_repository (timestamp_text A) lim,
     secure_cookies = secure_cookie\<rparr>"

section \<open>What the account and submission services leave alone\<close>

text \<open>The problems, their hidden tests, the audit log and the administrators' accounts.\<close>

definition protected_tables ::
    "int database \<Rightarrow> int problem_row list \<times> test_row list \<times> int audit_row list \<times> int user_row list" where
  "protected_tables db = (problems db, problem_tests db, admin_audit_log db, filter usr_is_admin (users db))"

lemma pg_execute_frame:
  assumes "pg_execute e n effect s = (r, s')" "\<forall>out. effect = Some out \<longrightarrow> f (snd out) = f s"
  shows "f s' = f s"
  using assms by (auto simp: pg_execute_def split: option.splits)

lemma pg_execute_locked_frame:
  assumes "pg_execute_locked e n effect s = (r, s')" "\<forall>out. effect = Some out \<longrightarrow> f (snd out) = f s"
  shows "f s' = f s"
  using assms pg_execute_frame [of e n effect s _ _ f]
  by (auto simp: pg_execute_locked_def split: if_splits prod.splits)

lemma insert_session_protected:
  "insert_session gap user hash t expires db = Some db' \<Longrightarrow> protected_tables db' = protected_tables db"
  by (auto simp: insert_session_def protected_tables_def Let_def split: if_splits)

lemma pg_create_session_protected:
  assumes "pg_create_session A e user db = (res, db')"
  shows "protected_tables db' = protected_tables db"
  using assms by (cases rule: pg_create_session_cases) (auto dest: insert_session_protected)

lemma insert_user_protected:
  assumes "insert_user key gap r db = Some (r', db')" "\<not> usr_is_admin r"
  shows "protected_tables db' = protected_tables db"
  using insert_user_Some [OF assms(1)] assms(2) by (simp add: protected_tables_def)

lemma pg_register_protected:
  assumes "pg_register_user A e name password db = (res, db')"
  shows "protected_tables db' = protected_tables db"
  using assms
proof (cases rule: pg_register_cases)
  case (added u db1)
  have "\<not> usr_is_admin (new_user (clock (server e)) name (c_str (password_hash e password)) False)"
    by (simp add: new_user_def)
  from insert_user_protected [OF added(2) this] show ?thesis
    using pg_create_session_protected [OF added(3)] by simp
qed simp

lemma pg_login_protected:
  assumes "pg_login A e name password db = (res, db')"
  shows "protected_tables db' = protected_tables db"
  using assms by (auto simp: pg_login_def Let_def dest: pg_create_session_protected split: if_splits prod.splits)

lemma pg_logout_protected:
  assumes "pg_logout A e token db = (res, db')"
  shows "protected_tables db' = protected_tables db"
  using assms pg_logout_cases [OF assms] by (auto simp: delete_sessions_def protected_tables_def)

lemma insert_returning_protected:
  "insert_returning c gap r db = Some (x, db') \<Longrightarrow> protected_tables db' = protected_tables db"
  by (auto simp: insert_returning_def insert_submission_def protected_tables_def Let_def split: if_splits option.splits)

lemma pg_create_protected:
  assumes "pg_create ts lim e q db = (res, db')"
  shows "protected_tables db' = protected_tables db"
proof -
  let ?effect = "pg_returned ts (insert_returning (has_capacity lim (rq_user_id q) db) (sequence_gap e)
    (queue_row (clock e) (c_str (rq_problem_id q)) (c_str (rq_language q)) (c_str (rq_code q)) (rq_user_id q) None) db)"
  obtain result where "pg_execute_locked e 0 ?effect db = (result, db')"
    using assms by (auto simp: pg_create_def Let_def split: prod.splits if_splits)
  then show ?thesis
    by (rule pg_execute_locked_frame)
      (auto simp: pg_returned_def dest: insert_returning_protected split: option.splits)
qed

interpretation pg_site: guarded_site "pg_server J W gap A lim sec" protected_tables for J W gap A lim sec
  by unfold_locales (auto simp: pg_server_def pg_auth_provider_def pg_repository_def
      dest: pg_register_protected pg_login_protected pg_logout_protected pg_create_protected)

section \<open>Properties\<close>

text \<open>
  C6: No handler under /api/admin does anything for a caller whose session does not belong to an
  administrator: the stored state and the workers are untouched, and the reply is an error message
  with status 401, 403 or 500.
\<close>

theorem admin_routes_guarded:
  assumes "serve J srv e verb (''api'' # ''admin'' # rest) request s n = Some (reply, s', n')"
    and "visitor srv e request s"
  shows "s' = s \<and> n' = n
    \<and> (\<exists>message status. status \<in> {401, 403, 500} \<and> reply = Reply (error_response J message status))"
proof -
  obtain r where r: "find_route route_table verb (''api'' # ''admin'' # rest) = Some r"
    and out: "handle J srv e request r s n = (reply, s', n')"
    using assms(1) by (auto simp: serve_def)
  have "admin_route r" using find_route_admin [OF r] by blast
  then show ?thesis by (rule visitor_handle [OF assms(2) _ out])
qed

text \<open>
  C5: Whatever requests visitors send, to any route and in any order, the problems, the hidden tests,
  the audit log and the administrators' accounts stay as they were. (A visitor is a caller whose
  session is not an administrator's at the time of the request.)
\<close>

theorem pg_visitors_change_nothing_protected:
  assumes "(visitor_step J (pg_server J W gap A lim sec))\<^sup>*\<^sup>* (db, n) (db', n')"
  shows "problems db' = problems db \<and> problem_tests db' = problem_tests db
    \<and> admin_audit_log db' = admin_audit_log db
    \<and> filter usr_is_admin (users db') = filter usr_is_admin (users db)"
  using pg_site.visitors_protected [OF assms] by (simp add: protected_tables_def)

lemma positive_id_to_string: "0 < i \<Longrightarrow> int64_range i \<Longrightarrow> positive_id (to_string i) = Some i"
  by (simp add: positive_id_def)

lemma pg_server_fields [simp]:
  "auth_service (pg_server J W gap A lim sec) = pg_auth_provider A"
  "problem_store_of (pg_server J W gap A lim sec) = pg_problems J W gap"
  "submission_store_of (pg_server J W gap A lim sec) = pg_repository (timestamp_text A) lim"
  "secure_cookies (pg_server J W gap A lim sec) = sec"
  by (simp_all add: pg_server_def)

lemma serve_routes:
  "serve J srv e Get [''api'', ''problems'', slug] request s n
     = Some (reading s n (http_get_problem J (problem_store_of srv) e slug s))"
  "serve J srv e Get [''api'', ''submissions'', raw] request s n
     = Some (reading s n (http_get_submission J (submission_store_of srv) e raw s))"
  "serve J srv e Post [''api'', ''submissions''] request s n = Some (http_submit J (submission_store_of srv)
     (auth_service srv) (problem_store_of srv) e request s n)"
  "serve J srv e Post [''api'', ''auth'', ''login''] request s n
     = Some (quietly n (http_login J (auth_service srv) (secure_cookies srv) e request s))"
  "serve J srv e Get [''api'', ''auth'', ''me''] request s n
     = Some (reading s n (http_current_user J (auth_service srv) e request s))"
  by (simp_all add: serve_def route_table_def)

text \<open>
  C8: The public page of a problem shows the stored problem only while it is enabled, and never its
  hidden tests: a 200 reply is the JSON of the stored problem with the tests removed.
\<close>

theorem pg_public_problem_hides_tests:
  assumes "wf_problems db" "nul \<notin> set slug"
    and "serve J (pg_server J W gap A lim sec) e Get [''api'', ''problems'', slug] request db n
      = Some (Reply r, db', n')" "status_code r = 200"
  shows "\<exists>p. pg_catalogue J W db slug = Some p \<and> pb_enabled p
    \<and> content r = Some (problem_to_json J (without_tests p)) \<and> db' = db"
proof -
  have reply: "http_get_problem J (pg_problems J W gap) e slug db = Reply r" "db' = db"
    using assms(3) by (auto simp: serve_routes reading_def)
  then obtain p where found: "service_find_problem (pg_problems J W gap) (problem_call e 0) slug db = Inr (Some p)"
    and r: "r = json_response (problem_to_json J p)"
    using assms(4) by (auto simp: http_get_problem_def error_response_def split: sum.splits option.splits)
  from pg_problem.service_find_hides_tests [OF assms(1,2) found] r reply(2) show ?thesis
    by (auto simp: json_response_def without_tests_def)
qed

text \<open>What a submission that was answered with 202 has left in the database.\<close>

lemma pg_submission_stored:
  assumes wf: "wf_submissions db"
    and post: "serve J (pg_server J W gap A lim sec) e Post [''api'', ''submissions''] request db n
      = Some (Reply r, db', n')" "status_code r = 202"
  obtains body q owner x where "json_body request = Some body" and "validate_submission J body = Inr q"
    and "submission_owner (pg_auth_provider A) e (session_token request) db = Inr owner"
    and "content r = Some (submission_to_json J x False)" and "n' = Suc n" and "wf_submissions db'"
    and "records_of (timestamp_text A) db' = records_of (timestamp_text A) db @ [x]" and "fresh_record x"
    and "stores_request c_str (q\<lparr>rq_user_id := owner\<rparr>) x" and "admitted lim owner (records_of (timestamp_text A) db)"
proof -
  note run = post(1) [unfolded serve_routes pg_server_fields option.inject]
  obtain body q owner x where body: "json_body request = Some body" "validate_submission J body = Inr q"
    and owner: "submission_owner (pg_auth_provider A) e (session_token request) db = Inr owner"
    and x: "submit (pg_repository (timestamp_text A) lim) (Some Suc) (submission_call e 0)
      (q\<lparr>rq_user_id := owner\<rparr>) db n = (Inr x, db', n')" "content r = Some (submission_to_json J x False)"
    using http_submit_accepted [OF run post(2)] by blast
  then have create: "create_op (pg_repository (timestamp_text A) lim) (submission_call e 0)
      (q\<lparr>rq_user_id := owner\<rparr>) db = (Inr x, db')" and n': "n' = Suc n"
    by (auto simp: submit_def split: prod.splits sum.splits)
  from pg.create_stores [OF wf create] pg.create_keeps_ok [OF wf create] body owner x(2) n' show ?thesis
    by (intro that) auto
qed

text \<open>A stored record is what anyone who asks for its number gets.\<close>

lemma pg_stored_is_served:
  assumes wf: "wf_submissions db" and healthy: "pg_healthy (submission_call e 0)"
    and x: "x \<in> set (records_of (timestamp_text A) db)"
  shows "serve J (pg_server J W gap A lim sec) e Get [''api'', ''submissions'', to_string (sr_id x)] request db m
       = Some (Reply (json_response (submission_to_json J x True)), db, m)"
proof -
  obtain found where find: "pg_find (timestamp_text A) (submission_call e 0) (sr_id x) db = Inr found"
    using pg_find_healthy [OF wf healthy] by blast
  then have op: "find_op (pg_repository (timestamp_text A) lim) (submission_call e 0) (sr_id x) db = Inr found"
    by (simp add: pg_repository_def)
  have "found = List.find (\<lambda>y. sr_id y = sr_id x) (records_of (timestamp_text A) db)"
    by (rule pg.find_finds [OF wf op])
  then have "found = Some x"
    using find_key_iff [OF ascending_distinct [OF pg.ascending_ids [OF wf]], where i = "sr_id x" and x = x] x by simp
  then have "service_find (pg_repository (timestamp_text A) lim) (submission_call e 0) (sr_id x) db = Inr (Some x)"
    using op by (simp add: service_find_def)
  then show ?thesis
    by (simp add: serve_routes http_get_submission_def positive_id_to_string wf_record_id [OF wf x] reading_def)
qed

text \<open>
  C7: What submitting does for a logged-in user. When the answer is 202, the request was valid and for
  an enabled problem in one of its languages, and exactly one record was stored, behind all others:
  queued, without a verdict, with the problem, language and code that were sent and the account of the
  session, within the limits of the queue; it is the record of the reply, and the workers are notified.
  A request refused with 400 changes nothing, one refused with 429 stores nothing, and neither wakes a
  worker.
\<close>

theorem pg_submit_stores_once:
  assumes wf: "wf_submissions db"
    and current: "pg_current_user A (auth_call e 0) (session_token request) db = Inr user"
    and post: "serve J (pg_server J W gap A lim sec) e Post [''api'', ''submissions''] request db n
      = Some (Reply r, db', n')"
  shows "if status_code r = 202
     then \<exists>body q p x. json_body request = Some body \<and> validate_submission J body = Inr q
       \<and> service_find_problem (pg_problems J W gap) (problem_call e 0) (rq_problem_id q) db = Inr (Some p)
       \<and> rq_language q \<in> set (pb_languages p)
       \<and> records_of (timestamp_text A) db' = records_of (timestamp_text A) db @ [x]
       \<and> sr_status x = queued \<and> sr_verdict x = None \<and> sr_problem_id x = c_str (rq_problem_id q)
       \<and> sr_language x = c_str (rq_language q) \<and> sr_source_code x = c_str (asString J (member J body ''code''))
       \<and> sr_user_id x = Some (au_id user) \<and> admitted lim (Some (au_id user)) (records_of (timestamp_text A) db)
       \<and> content r = Some (submission_to_json J x False) \<and> n' = Suc n
     else status_code r \<in> {400, 429, 500} \<and> n' = n \<and> (status_code r = 400 \<longrightarrow> db' = db)
       \<and> (status_code r = 429 \<longrightarrow> records_of (timestamp_text A) db' = records_of (timestamp_text A) db)"
proof -
  have run: "http_submit J (pg_repository (timestamp_text A) lim) (pg_auth_provider A) (pg_problems J W gap)
      e request db n = (Reply r, db', n')"
    using post unfolding serve_routes pg_server_fields option.inject .
  show ?thesis
  proof (cases "status_code r = 202")
    case True
    obtain body q owner x where stored: "json_body request = Some body" "validate_submission J body = Inr q"
      "submission_owner (pg_auth_provider A) e (session_token request) db = Inr owner"
      "content r = Some (submission_to_json J x False)" "n' = Suc n" "wf_submissions db'"
      "records_of (timestamp_text A) db' = records_of (timestamp_text A) db @ [x]" "fresh_record x"
      "stores_request c_str (q\<lparr>rq_user_id := owner\<rparr>) x" "admitted lim owner (records_of (timestamp_text A) db)"
      using wf post True by (rule pg_submission_stored)
    have code: "rq_code q = asString J (member J body ''code'')"
      using stored(2) by (auto simp: validate_submission_def Let_def split: if_splits option.splits)
    have "session_token request \<noteq> []"
      using current by (auto simp: pg_current_user_def)
    then have owner: "owner = Some (au_id user)"
      using stored(3) current by (simp add: submission_owner_def pg_auth_provider_def)
    obtain p where "service_find_problem (pg_problems J W gap) (problem_call e 0) (rq_problem_id q) db = Inr (Some p)"
      "rq_language q \<in> set (pb_languages p)"
      using http_submit_checked [OF run True stored(1,2)] by blast
    with stored code owner True show ?thesis
      by (auto simp: stores_request_def fresh_record_def)
  next
    case False
    from run False show ?thesis
    proof (cases rule: http_submit_refused)
      case (limited q err)
      then show ?thesis using pg.create_error [OF wf limited(2)] by simp
    qed simp_all
  qed
qed

section \<open>An example\<close>

text \<open>A site with one account and one problem in Python, whose two JSON texts read back.\<close>

definition site_text :: "json json_text_lib" where
  "site_text = \<lparr>writeString = \<lambda>v. if v = JArray [] then ''[]'' else ''[python]'',
     parseText = \<lambda>t. Some (if t = ''[]'' then JArray [] else JArray [JString ''python''])\<rparr>"

definition site :: "(pg_auth_env, pg_env, pg_env, int database) server" where
  "site = pg_server plain_json site_text (\<lambda>_. 0) sample_auth default_limits True"

definition site_env :: "(pg_auth_env, pg_env, pg_env) request_env" where
  "site_env = \<lparr>auth_call = \<lambda>_. sample_auth_env ''r'', problem_call = \<lambda>_. quiet_server,
     submission_call = \<lambda>_. quiet_server\<rparr>"

definition site_database :: "int database" where
  "site_database = sample_users\<lparr>problems := [problem_columns 7 bare_problem ''[]'' ''[python]'' ''[]'']\<rparr>"

definition anonymous :: "json option \<Rightarrow> json http_request" where
  "anonymous body = \<lparr>json_body = body, session_token = [], parameter = \<lambda>_. []\<rparr>"

definition site_registration :: json where
  "site_registration = JObject [(''username'', JString ''bob''), (''password'', JString ''password'')]"

definition site_submission :: json where
  "site_submission = JObject [(''problemId'', JString ''two-sum''), (''language'', JString ''python''),
     (''code'', JString ''print(3)'')]"

lemma site_visitor: "visitor site site_env (anonymous body) db"
  by (simp add: visitor_def site_def anonymous_def pg_auth_provider_def pg_current_user_def)

lemma wf_site_problems: "wf_problems site_database"
  by (simp add: wf_problems_def site_database_def sample_users_def empty_database_def problem_check_def
      problem_columns_def bare_problem_def sample_problem_def int64_range_def)

lemma wf_site_submissions: "wf_submissions site_database"
  by (simp add: wf_submissions_def site_database_def sample_users_def empty_database_def int64_range_def)

theorem admin_routes_guarded_witness:
  "serve plain_json site site_env Delete [''api'', ''admin'', ''problems'', ''two-sum''] (anonymous None)
     site_database 0 = Some (Reply (error_response plain_json ''Authentication required'' 401), site_database, 0)"
proof -
  obtain reply s' n' where out: "serve plain_json site site_env Delete
      [''api'', ''admin'', ''problems'', ''two-sum''] (anonymous None) site_database 0 = Some (reply, s', n')"
    and reply: "reply = Reply (error_response plain_json ''Authentication required'' 401)"
    by (simp add: serve_def route_table_def quietly_def admin_delete_problem_def require_admin_def site_def
        anonymous_def pg_auth_provider_def pg_current_user_def session_refusal_def)
  from admin_routes_guarded [OF out site_visitor] out reply show ?thesis by simp
qed

definition site_registered :: "int database" where
  "site_registered = snd (snd (the (map_option (\<lambda>(r, d, n). (r, n, d)) (serve plain_json site site_env Post
     [''api'', ''auth'', ''register''] (anonymous (Some site_registration)) site_database 0))))"

theorem pg_visitors_change_nothing_protected_witness:
  "length (users site_registered) = 2 \<and> problems site_registered = problems site_database"
proof -
  let ?out = "serve plain_json site site_env Post [''api'', ''auth'', ''register'']
    (anonymous (Some site_registration)) site_database 0"
  have two: "length (users site_registered) = 2" by code_simp
  have "?out \<noteq> None" by (simp add: serve_def route_table_def)
  then obtain reply n' where "?out = Some (reply, site_registered, n')"
    by (auto simp: site_registered_def)
  from visitor_step.Request [OF this site_visitor]
  have "(visitor_step plain_json site)\<^sup>*\<^sup>* (site_database, 0) (site_registered, n')" by (rule r_into_rtranclp)
  from pg_visitors_change_nothing_protected [OF this [unfolded site_def]] two show ?thesis by blast
qed

theorem pg_public_problem_hides_tests_witness:
  "\<exists>p. pg_catalogue plain_json site_text site_database ''two-sum'' = Some p \<and> pb_enabled p"
proof -
  let ?out = "serve plain_json site site_env Get [''api'', ''problems'', ''two-sum''] (anonymous None) site_database 0"
  have "(case ?out of Some (Reply r, d, n) \<Rightarrow> status_code r = 200 | _ \<Rightarrow> False)" by code_simp
  then obtain r d n where "?out = Some (Reply r, d, n)" "status_code r = 200"
    by (auto split: option.splits prod.splits reply.splits)
  from pg_public_problem_hides_tests [OF wf_site_problems _ this [unfolded site_def]] show ?thesis by auto
qed

definition site_request :: submission_request where
  "site_request = \<lparr>rq_problem_id = ''two-sum'', rq_language = ''python'', rq_code = ''print(3)'', rq_user_id = None\<rparr>"

lemma site_valid: "validate_submission plain_json site_submission = Inr site_request"
  by (simp add: validate_submission_def site_submission_def site_request_def plain_json_def json_member_def
      maximum_code_size_def)

text \<open>The account of the site with an open session.\<close>

definition session_database :: "int database" where
  "session_database = site_database\<lparr>sessions := sessions (with_session ''r''), sessions_seq := 1\<rparr>"

definition from_ann :: "json option \<Rightarrow> json http_request" where
  "from_ann body = (anonymous body)\<lparr>session_token := ''r''\<rparr>"

lemma session_user: "pg_current_user sample_auth (auth_call site_env 0) ''r'' session_database = Inr sample_account"
  by code_simp

lemma session_finds:
  "map_sum (\<lambda>err. err) (map_option pb_languages)
     (service_find_problem (problem_store_of site) (problem_call site_env 0) ''two-sum'' session_database)
   = Inr (Some [''python''])"
  by code_simp

lemma session_creates:
  "case fst (create_op (submission_store_of site) (submission_call site_env 0)
      (site_request\<lparr>rq_user_id := Some 1\<rparr>) session_database) of Inr _ \<Rightarrow> True | Inl _ \<Rightarrow> False"
  by code_simp

lemma session_accepts:
  obtains r d n where "serve plain_json site site_env Post [''api'', ''submissions'']
      (from_ann (Some site_submission)) session_database 0 = Some (Reply r, d, n)" "status_code r = 202"
proof -
  obtain p where p: "service_find_problem (problem_store_of site) (problem_call site_env 0) ''two-sum'' session_database
      = Inr (Some p)" "pb_languages p = [''python'']"
    using session_finds
    by (cases "service_find_problem (problem_store_of site) (problem_call site_env 0) ''two-sum'' session_database") auto
  obtain x d where x: "create_op (submission_store_of site) (submission_call site_env 0)
      (site_request\<lparr>rq_user_id := Some 1\<rparr>) session_database = (Inr x, d)"
    using session_creates
    by (cases "create_op (submission_store_of site) (submission_call site_env 0)
        (site_request\<lparr>rq_user_id := Some 1\<rparr>) session_database") (auto split: sum.splits)
  have q: "rq_problem_id site_request = ''two-sum''" "rq_language site_request = ''python''"
    by (simp_all add: site_request_def)
  have owner: "submission_owner (auth_service site) site_env ''r'' session_database = Inr (Some 1)"
    using session_user by (simp add: submission_owner_def site_def pg_auth_provider_def sample_account_def)
  have "serve plain_json site site_env Post [''api'', ''submissions''] (from_ann (Some site_submission)) session_database 0
      = Some (Reply (submit_response plain_json (Inr x)), d, Suc 0)"
    using site_valid p x owner
    by (simp add: serve_routes http_submit_def from_ann_def anonymous_def submit_def q)
  then show ?thesis by (rule that) (simp add: submit_response_def json_response_def)
qed

theorem pg_submit_stores_once_witness:
  "\<exists>d n x. map_option snd (serve plain_json site site_env Post [''api'', ''submissions'']
       (from_ann (Some site_submission)) session_database 0) = Some (d, n)
     \<and> records_of (timestamp_text sample_auth) d = [x] \<and> sr_status x = queued \<and> sr_user_id x = Some 1
     \<and> sr_source_code x = ''print(3)'' \<and> n = Suc 0"
proof -
  obtain r d n where post: "serve plain_json site site_env Post [''api'', ''submissions'']
      (from_ann (Some site_submission)) session_database 0 = Some (Reply r, d, n)" "status_code r = 202"
    by (rule session_accepts)
  have wf: "wf_submissions session_database"
    by (simp add: wf_submissions_def session_database_def site_database_def sample_users_def with_session_def
        empty_database_def int64_range_def)
  have current: "pg_current_user sample_auth (auth_call site_env 0)
      (session_token (from_ann (Some site_submission))) session_database = Inr sample_account"
    using session_user by (simp add: from_ann_def)
  have before: "records_of (timestamp_text sample_auth) session_database = []"
    by (simp add: records_of_def session_database_def site_database_def sample_users_def empty_database_def)
  have "asString plain_json (member plain_json site_submission ''code'') = ''print(3)''" "c_str ''print(3)'' = ''print(3)''"
    by code_simp+
  with pg_submit_stores_once [OF wf current post(1) [unfolded site_def]] post before show ?thesis
    by (auto simp: from_ann_def anonymous_def sample_account_def)
qed

end
