(* ===== verification/Migrations.thy ===== *)
theory Migrations
  imports Sqlite_Submissions Sqlite_Auth Pg_Client
begin

text \<open>
  Schema migrations: \<^verbatim>\<open>apply_migrations\<close> of \<^verbatim>\<open>postgresql-client.cpp\<close>, and for
  SQLite the two copies of \<^verbatim>\<open>apply_migration\<close> with the functions that call them, the
  \<^verbatim>\<open>open\<close> of \<^verbatim>\<open>SQLiteSubmissionRepository\<close> and of
  \<^verbatim>\<open>AuthService\<close>.

  The scripts are data, not part of the program: \<open>script\<close> gives the text of a file (None when
  it cannot be read) and \<open>run\<close> what the engine does with a text, both arguments of the model. The
  state is the content of the database with the table \<^verbatim>\<open>schema_migrations\<close>.
\<close>

section \<open>State\<close>

record 's schema =
  tables :: 's
  versions :: "int list"

text \<open>One migration as it should be: its script runs on the tables and its version is recorded.\<close>

inductive upgrade :: "(string \<Rightarrow> string option) \<Rightarrow> (string \<Rightarrow> 's \<Rightarrow> 's option) \<Rightarrow> 's schema \<Rightarrow> 's schema \<Rightarrow> bool"
  for script run where
  Upgrade: "script name = Some sql \<Longrightarrow> run sql (tables st) = Some t \<Longrightarrow> v \<notin> set (versions st) \<Longrightarrow>
     upgrade script run st \<lparr>tables = t, versions = versions st @ [v]\<rparr>"

lemma upgrade_versions:
  assumes "(upgrade script run)\<^sup>*\<^sup>* st st'"
  shows "\<exists>vs. versions st' = versions st @ vs \<and> distinct vs \<and> set vs \<inter> set (versions st) = {}"
  using assms
proof (induction rule: rtranclp_induct)
  case (step st1 st2)
  from step(3) obtain vs where vs: "versions st1 = versions st @ vs" "distinct vs" "set vs \<inter> set (versions st) = {}"
    by blast
  from step(2) obtain v where "versions st2 = versions st1 @ [v]" "v \<notin> set (versions st1)"
    by (auto elim: upgrade.cases)
  with vs show ?case by (intro exI [of _ "vs @ [v]"]) auto
qed simp

section \<open>SQLite\<close>

text \<open>
  The skeleton of both copies, with the errors each of them makes of a failing
  \<^verbatim>\<open>sqlite3_exec\<close>, a statement that cannot be prepared, a missing file and a version that
  cannot be recorded. The \<^verbatim>\<open>sqlite3_exec\<close> calls are numbered 0 (create the table), 1 (begin),
  2 (the script) and 3 (commit), the statements 0 (check) and 1 (record). A failing check counts as
  not applied. After a failed commit the caller closes the connection, which rolls back.
\<close>

definition migration_transaction ::
    "(string \<Rightarrow> 'err) \<Rightarrow> (string \<Rightarrow> 'err) \<Rightarrow> 'err \<Rightarrow> (string \<Rightarrow> 'err) \<Rightarrow> 'err
       \<Rightarrow> (string \<Rightarrow> string option) \<Rightarrow> (string \<Rightarrow> 's \<Rightarrow> 's option) \<Rightarrow> sqlite_env \<Rightarrow> int \<Rightarrow> string \<Rightarrow> 's schema
       \<Rightarrow> 'err option \<times> 's schema" where
  "migration_transaction exec_error check_error unavailable prepare_error record_error script run e version file st =
     (case exec_fault e 0 of Some m \<Rightarrow> (Some (exec_error m), st)
      | None \<Rightarrow> (case prepare_fault e 0 of Some m \<Rightarrow> (Some (check_error m), st)
      | None \<Rightarrow>
        if \<not> step_fault e 0 0 \<and> version \<in> set (versions st) then (None, st)
        else (case script file of None \<Rightarrow> (Some unavailable, st)
      | Some sql \<Rightarrow> (case exec_fault e 1 of Some m \<Rightarrow> (Some (exec_error m), st)
      | None \<Rightarrow> (case (exec_fault e 2, run sql (tables st)) of
          (Some m, _) \<Rightarrow> (Some (exec_error m), st)
        | (None, None) \<Rightarrow> (Some (exec_error (errmsg e 2)), st)
        | (None, Some t) \<Rightarrow> (case prepare_fault e 1 of Some m \<Rightarrow> (Some (prepare_error m), st)
          | None \<Rightarrow>
              if step_fault e 1 0 \<or> version \<in> set (versions st) then (Some record_error, st)
              else (case exec_fault e 3 of Some m \<Rightarrow> (Some (exec_error m), st)
                | None \<Rightarrow> (None, \<lparr>tables = t, versions = versions st @ [version]\<rparr>))))))))"

text \<open>\<^verbatim>\<open>apply_migration\<close> of the submission repository.\<close>

definition apply_migration ::
    "(string \<Rightarrow> string option) \<Rightarrow> (string \<Rightarrow> 's \<Rightarrow> 's option) \<Rightarrow> sqlite_env \<Rightarrow> int \<Rightarrow> string \<Rightarrow> 's schema
       \<Rightarrow> repository_error option \<times> 's schema" where
  "apply_migration script run e = migration_transaction execute_error RepositoryError
     (RepositoryError ''Submission migration file is unavailable'') RepositoryError
     (database_error e 1 ''Could not record migration'') script run e"

text \<open>\<^verbatim>\<open>apply_migration\<close> of the account service.\<close>

definition auth_apply_migration ::
    "(string \<Rightarrow> string option) \<Rightarrow> (string \<Rightarrow> 's \<Rightarrow> 's option) \<Rightarrow> sqlite_env \<Rightarrow> int \<Rightarrow> string \<Rightarrow> 's schema
       \<Rightarrow> auth_error option \<times> 's schema" where
  "auth_apply_migration script run e = migration_transaction
     (\<lambda>m. internal_error (''SQLite operation failed: '' @ m)) internal_error
     (internal_error ''Authentication migration file is unavailable'')
     (\<lambda>_. internal_error ''Could not record authentication migration'')
     (internal_error ''Could not record authentication migration'') script run e"

text \<open>A list of migrations; the \<open>k\<close>-th one runs with engine \<open>es k\<close>, the first error ends.\<close>

fun run_migrations ::
    "(sqlite_env \<Rightarrow> int \<Rightarrow> string \<Rightarrow> 's schema \<Rightarrow> 'err option \<times> 's schema) \<Rightarrow> (nat \<Rightarrow> sqlite_env) \<Rightarrow> nat
       \<Rightarrow> (int \<times> string) list \<Rightarrow> 's schema \<Rightarrow> 'err option \<times> 's schema" where
  "run_migrations apply_one es k [] st = (None, st)"
| "run_migrations apply_one es k ((v, file) # rest) st =
     (case apply_one (es k) v file st of
        (Some err, st') \<Rightarrow> (Some err, st')
      | (None, st') \<Rightarrow> run_migrations apply_one es (Suc k) rest st')"

definition submission_migrations :: "(int \<times> string) list" where
  "submission_migrations =
     [(1, ''001-create-submissions.sql''), (2, ''002-create-auth.sql''),
      (3, ''003-link-submissions-to-users.sql''), (4, ''004-add-submission-error-type.sql''),
      (5, ''005-add-submission-queue.sql''), (6, ''006-add-admin-users.sql''),
      (7, ''007-create-problems.sql''), (8, ''008-add-admin-operations.sql'')]"

definition auth_migrations :: "(int \<times> string) list" where
  "auth_migrations = [(2, ''002-create-auth.sql''), (6, ''006-add-admin-users.sql'')]"

text \<open>
  \<open>directory\<close> and \<open>opened\<close> are the messages when the directory cannot be created or the
  file not opened, \<open>pragma\<close> when the first \<^verbatim>\<open>PRAGMA\<close> fails.
\<close>

definition sqlite_open_submissions ::
    "string option \<Rightarrow> string option \<Rightarrow> string option \<Rightarrow> (string \<Rightarrow> string option) \<Rightarrow> (string \<Rightarrow> 's \<Rightarrow> 's option)
       \<Rightarrow> (nat \<Rightarrow> sqlite_env) \<Rightarrow> 's schema \<Rightarrow> repository_error option \<times> 's schema" where
  "sqlite_open_submissions directory opened pragma script run es st =
     (case directory of Some m \<Rightarrow> (Some (RepositoryError (''Could not create database directory: '' @ m)), st)
      | None \<Rightarrow> (case opened of Some m \<Rightarrow> (Some (RepositoryError (''Could not open submission database: '' @ m)), st)
      | None \<Rightarrow> (case pragma of Some m \<Rightarrow> (Some (execute_error m), st)
      | None \<Rightarrow> run_migrations (apply_migration script run) es 0 submission_migrations st)))"

text \<open>\<open>hashed\<close> is the placeholder hash that libsodium computes, None when it fails.\<close>

definition sqlite_open_auth ::
    "int \<Rightarrow> string option \<Rightarrow> string option \<Rightarrow> string option \<Rightarrow> string option \<Rightarrow> (string \<Rightarrow> string option)
       \<Rightarrow> (string \<Rightarrow> 's \<Rightarrow> 's option) \<Rightarrow> (nat \<Rightarrow> sqlite_env) \<Rightarrow> sodium \<Rightarrow> 's schema
       \<Rightarrow> (auth_error + sqlite_auth_service) \<times> 's schema" where
  "sqlite_open_auth init directory opened hashed pragma script run es k st =
     (if init < 0 then (Inl (internal_error ''Cryptographic library initialization failed''), st)
      else case directory of Some m \<Rightarrow> (Inl (internal_error (''Could not create database directory: '' @ m)), st)
      | None \<Rightarrow> (case opened of Some m \<Rightarrow> (Inl (internal_error (''Could not open authentication database: '' @ m)), st)
      | None \<Rightarrow> (case hashed of None \<Rightarrow> (Inl (internal_error ''Password hashing initialization failed''), st)
      | Some h \<Rightarrow> (case pragma of Some m \<Rightarrow> (Inl (internal_error (''SQLite operation failed: '' @ m)), st)
      | None \<Rightarrow> (case run_migrations (auth_apply_migration script run) es 0 auth_migrations st of
          (Some err, st') \<Rightarrow> (Inl err, st')
        | (None, st') \<Rightarrow> (Inr \<lparr>sq_crypto = k, sq_dummy_password_hash = c_str h\<rparr>, st'))))))"

text \<open>What both copies promise, and what follows for a list of migrations.\<close>

locale migrator =
  fixes apply_one :: "sqlite_env \<Rightarrow> int \<Rightarrow> string \<Rightarrow> 's schema \<Rightarrow> 'err option \<times> 's schema"
    and script :: "string \<Rightarrow> string option" and run :: "string \<Rightarrow> 's \<Rightarrow> 's option"
  assumes apply_one_cases: "apply_one e v file st = (err, st') \<Longrightarrow>
      st' = st \<and> (err = None \<longrightarrow> v \<in> set (versions st))
      \<or> err = None \<and> upgrade script run st st' \<and> versions st' = versions st @ [v]"
    and apply_one_again: "sqlite_healthy e \<Longrightarrow> v \<in> set (versions st) \<Longrightarrow> apply_one e v file st = (None, st)"
begin

lemma run_migrations_steps:
  assumes "run_migrations apply_one es k ms st = (err, st')"
  shows "(upgrade script run)\<^sup>*\<^sup>* st st' \<and> (err = None \<longrightarrow> fst ` set ms \<subseteq> set (versions st'))"
  using assms
proof (induction ms arbitrary: k st)
  case (Cons m ms)
  obtain v name where m: "m = (v, name)" by (cases m)
  obtain err1 st1 where one: "apply_one (es k) v name st = (err1, st1)" by fastforce
  note step = apply_one_cases [OF one]
  have first: "(upgrade script run)\<^sup>*\<^sup>* st st1" using step by auto
  show ?case
  proof (cases err1)
    case (Some err')
    then show ?thesis using Cons.prems one first by (auto simp: m)
  next
    case None
    then have rest: "run_migrations apply_one es (Suc k) ms st1 = (err, st')" using Cons.prems one by (simp add: m)
    have "v \<in> set (versions st1)" using step None by auto
    then have "v \<in> set (versions st')" using Cons.IH [OF rest] upgrade_versions by fastforce
    then show ?thesis using Cons.IH [OF rest] first by (auto simp: m)
  qed
qed simp

lemma run_migrations_again:
  assumes "fst ` set ms \<subseteq> set (versions st)" "\<forall>k. sqlite_healthy (es k)"
  shows "run_migrations apply_one es k ms st = (None, st)"
  using assms(1)
proof (induction ms arbitrary: k)
  case (Cons m ms)
  then show ?case using apply_one_again assms(2) by (cases m) simp
qed simp

end

lemma migration_transaction_cases:
  assumes "migration_transaction a b c d f script run e v file st = (err, st')"
  shows "st' = st \<and> (err = None \<longrightarrow> v \<in> set (versions st))
      \<or> err = None \<and> upgrade script run st st' \<and> versions st' = versions st @ [v]"
proof -
  have "st' = st \<and> (err = None \<longrightarrow> v \<in> set (versions st))
      \<or> (\<exists>sql t. err = None \<and> script file = Some sql \<and> run sql (tables st) = Some t
          \<and> v \<notin> set (versions st) \<and> st' = \<lparr>tables = t, versions = versions st @ [v]\<rparr>)"
    using assms by (auto simp: migration_transaction_def split: option.splits if_splits)
  then show ?thesis by (auto intro: upgrade.Upgrade)
qed

lemma migration_transaction_again:
  "sqlite_healthy e \<Longrightarrow> v \<in> set (versions st) \<Longrightarrow>
     migration_transaction a b c d f script run e v file st = (None, st)"
  by (simp add: migration_transaction_def sqlite_healthy_def)

interpretation submission_migrator: migrator "apply_migration script run" script run for script run
  by unfold_locales (auto simp: apply_migration_def migration_transaction_again dest: migration_transaction_cases)

interpretation auth_migrator: migrator "auth_apply_migration script run" script run for script run
  by unfold_locales (auto simp: auth_apply_migration_def migration_transaction_again dest: migration_transaction_cases)

text \<open>
  Opening the SQLite submission repository brings the schema to version 8 by complete upgrades, each
  at most once; a failure stops after some of them; opening again changes nothing.
\<close>

lemma sqlite_open_submissions_migrates:
  assumes "sqlite_open_submissions directory opened pragma script run es st = (err, st')" "\<forall>k. sqlite_healthy (es' k)"
  shows "(upgrade script run)\<^sup>*\<^sup>* st st'
    \<and> (err = None \<longrightarrow> {1..8} \<subseteq> set (versions st')
        \<and> sqlite_open_submissions None None None script run es' st' = (None, st'))"
proof -
  have all: "fst ` set submission_migrations = {1..8}" by (auto simp: submission_migrations_def)
  have steps: "(upgrade script run)\<^sup>*\<^sup>* st st' \<and> (err = None \<longrightarrow> {1..8} \<subseteq> set (versions st'))"
    using assms(1) submission_migrator.run_migrations_steps [of script run es 0 submission_migrations st err st']
    by (auto simp: sqlite_open_submissions_def all split: option.splits)
  then show ?thesis
    using submission_migrator.run_migrations_again [of submission_migrations st' es' script run 0] assms(2)
    by (simp add: sqlite_open_submissions_def all)
qed

lemma sqlite_open_auth_migrates:
  assumes "sqlite_open_auth init directory opened hashed pragma script run es k st = (res, st')"
  shows "(upgrade script run)\<^sup>*\<^sup>* st st' \<and> ((\<exists>A. res = Inr A) \<longrightarrow> {2, 6} \<subseteq> set (versions st'))"
  using assms auth_migrator.run_migrations_steps [of script run es 0 auth_migrations st _ st']
  by (auto simp: sqlite_open_auth_def auth_migrations_def split: if_splits option.splits prod.splits)

section \<open>PostgreSQL\<close>

text \<open>
  The version of a file name is the number before its first hyphen, read as a 32-bit integer; what
  follows the digits before the hyphen is not looked at.
\<close>

definition int32_range :: "int \<Rightarrow> bool" where
  "int32_range i \<longleftrightarrow> - (2 ^ 31) \<le> i \<and> i < 2 ^ 31"

definition migration_version :: "string \<Rightarrow> int option" where
  "migration_version name =
     (if CHR ''-'' \<notin> set name then None
      else case from_chars_int64 (takeWhile (\<lambda>c. c \<noteq> CHR ''-'') name) of
        Parsed v _ \<Rightarrow> if int32_range v \<and> 0 < v then Some v else None
      | _ \<Rightarrow> None)"

text \<open>
  One file, in its transaction. The statements are numbered 0 (check), 1 (the script) and 2 (record).
  A script that ends with a query, which returns tuples, counts as failed.
\<close>

definition pg_apply_file ::
    "(string \<Rightarrow> string option) \<Rightarrow> (string \<Rightarrow> 's \<Rightarrow> (pg_result \<times> 's) option) \<Rightarrow> pg_env \<Rightarrow> string \<Rightarrow> 's schema
       \<Rightarrow> string option \<times> 's schema" where
  "pg_apply_file script run e name st =
     (case migration_version name of
        None \<Rightarrow> (Some (''PostgreSQL migration has an invalid numbered filename: '' @ name), st)
      | Some version \<Rightarrow>
        let applied = fst (pg_execute e 0
              (Some (Tuples_ok (if version \<in> set (versions st) then [[Some ''1'']] else []), st)) st)
        in if \<not> pg_tuples_ok applied
           then (Some (''Could not inspect PostgreSQL migration state: '' @ pg_error applied), st)
           else if pg_rows applied \<noteq> 0 then (None, st)
           else case script name of
             None \<Rightarrow> (Some (''PostgreSQL migration file is unavailable: '' @ name), st)
           | Some sql \<Rightarrow>
               if begin_fault e then (Some (''Could not begin PostgreSQL migration: '' @ name), st)
               else let (migrated, t) = pg_execute e 1 (run sql (tables st)) (tables st);
                        recorded = (if pg_command_ok migrated
                          then fst (pg_execute e 2 (if version \<in> set (versions st) then None else Some (Command_ok, ())) ())
                          else No_result)
                    in if \<not> pg_command_ok migrated \<or> \<not> pg_command_ok recorded \<or> commit_fault e
                       then (Some (''PostgreSQL migration failed: '' @ name @ '': '' @ pg_error migrated), st)
                       else (None, \<lparr>tables = t, versions = versions st @ [version]\<rparr>))"

fun pg_apply_files ::
    "(string \<Rightarrow> string option) \<Rightarrow> (string \<Rightarrow> 's \<Rightarrow> (pg_result \<times> 's) option) \<Rightarrow> (nat \<Rightarrow> pg_env) \<Rightarrow> nat
       \<Rightarrow> string list \<Rightarrow> 's schema \<Rightarrow> string option \<times> 's schema" where
  "pg_apply_files script run es k [] st = (None, st)"
| "pg_apply_files script run es k (name # names) st =
     (case pg_apply_file script run (es k) name st of
        (Some err, st') \<Rightarrow> (Some err, st')
      | (None, st') \<Rightarrow> pg_apply_files script run es (Suc k) names st')"

text \<open>
  \<open>listing\<close> is the \<^verbatim>\<open>.sql\<close> files of the directory, or the message when it cannot be
  read. Statement 0 takes the lock and 1 creates the table of versions; file \<open>k\<close> runs with
  \<open>es k\<close>.
\<close>

definition pg_apply_migrations ::
    "string option \<Rightarrow> string + string list \<Rightarrow> (string \<Rightarrow> string option)
       \<Rightarrow> (string \<Rightarrow> 's \<Rightarrow> (pg_result \<times> 's) option) \<Rightarrow> pg_env \<Rightarrow> (nat \<Rightarrow> pg_env) \<Rightarrow> 's schema
       \<Rightarrow> string option \<times> 's schema" where
  "pg_apply_migrations refusal listing script run e es st =
     (case refusal of Some m \<Rightarrow> (Some (''Could not connect to PostgreSQL: '' @ m), st)
      | None \<Rightarrow>
        if \<not> pg_tuples_ok (fst (pg_execute e 0 (Some (Tuples_ok [[Some []]], st)) st))
        then (Some ''Could not acquire the PostgreSQL migration lock'', st)
        else let created = fst (pg_execute e 1 (Some (Command_ok, st)) st)
          in if \<not> pg_command_ok created
             then (Some (''Could not initialize PostgreSQL migration tracking: '' @ pg_error created), st)
             else case listing of
               Inl m \<Rightarrow> (Some (''Could not enumerate PostgreSQL migrations: '' @ m), st)
             | Inr names \<Rightarrow> pg_apply_files script run es 0 (sort names) st)"

section \<open>Each migration at most once, entirely or not at all\<close>

definition pg_effect :: "(string \<Rightarrow> 's \<Rightarrow> (pg_result \<times> 's) option) \<Rightarrow> string \<Rightarrow> 's \<Rightarrow> 's option" where
  "pg_effect run sql t = map_option snd (run sql t)"

lemma pg_apply_file_cases:
  assumes "pg_apply_file script run e name st = (err, st')"
  shows "st' = st \<and> (err = None \<longrightarrow> (\<exists>v. migration_version name = Some v \<and> v \<in> set (versions st)))
    \<or> err = None \<and> upgrade script (pg_effect run) st st'
      \<and> (\<exists>v. migration_version name = Some v \<and> versions st' = versions st @ [v])"
proof (cases "migration_version name")
  case None
  then show ?thesis using assms by (auto simp: pg_apply_file_def)
next
  case (Some v)
  define applied where "applied = fst (pg_execute e 0
    (Some (Tuples_ok (if v \<in> set (versions st) then [[Some ''1'']] else []), st)) st)"
  have rows: "pg_rows applied \<noteq> 0 \<longleftrightarrow> v \<in> set (versions st)" if "pg_tuples_ok applied"
    using that by (auto simp: applied_def pg_execute_def split: option.splits if_splits)
  note def = assms [unfolded pg_apply_file_def Some option.case Let_def applied_def [symmetric]]
  show ?thesis
  proof (cases "pg_tuples_ok applied \<and> pg_rows applied = 0 \<and> script name \<noteq> None \<and> \<not> begin_fault e")
    case False
    then show ?thesis using def Some rows by (auto split: if_splits option.splits)
  next
    case True
    then obtain sql where sql: "script name = Some sql" by blast
    obtain migrated t where ex: "pg_execute e 1 (run sql (tables st)) (tables st) = (migrated, t)"
      by fastforce
    show ?thesis
    proof (cases "err = None")
      case False
      then show ?thesis using def True sql ex by (auto split: if_splits)
    next
      case ok: True
      then have good: "pg_command_ok migrated" and st': "st' = \<lparr>tables = t, versions = versions st @ [v]\<rparr>"
        using def True sql ex by (auto split: if_splits)
      have "run sql (tables st) = Some (migrated, t)" using pg_execute_good [OF ex] good by blast
      then have "pg_effect run sql (tables st) = Some t" by (simp add: pg_effect_def)
      then have "upgrade script (pg_effect run) st st'"
        unfolding st' using sql rows True by (intro upgrade.Upgrade) simp_all
      then show ?thesis using ok Some st' by simp
    qed
  qed
qed

lemma pg_apply_files_steps:
  assumes "pg_apply_files script run es k names st = (err, st')"
  shows "(upgrade script (pg_effect run))\<^sup>*\<^sup>* st st'
    \<and> (err = None \<longrightarrow> (\<forall>name \<in> set names. \<exists>v. migration_version name = Some v \<and> v \<in> set (versions st')))"
  using assms
proof (induction names arbitrary: k st)
  case (Cons name names)
  obtain err1 st1 where one: "pg_apply_file script run (es k) name st = (err1, st1)" by fastforce
  note step = pg_apply_file_cases [OF one]
  have first: "(upgrade script (pg_effect run))\<^sup>*\<^sup>* st st1" using step by auto
  show ?case
  proof (cases err1)
    case (Some m)
    then show ?thesis using Cons.prems one first by auto
  next
    case None
    then have rest: "pg_apply_files script run es (Suc k) names st1 = (err, st')" using Cons.prems one by simp
    obtain v where v: "migration_version name = Some v" "v \<in> set (versions st1)" using step None by auto
    have "v \<in> set (versions st')" using Cons.IH [OF rest] upgrade_versions v(2) by fastforce
    then show ?thesis using Cons.IH [OF rest] first v(1) by auto
  qed
qed simp

lemma pg_apply_files_again:
  assumes "\<forall>name \<in> set names. \<exists>v. migration_version name = Some v \<and> v \<in> set (versions st)" "\<forall>k. pg_healthy (es k)"
  shows "pg_apply_files script run es k names st = (None, st)"
  using assms(1)
proof (induction names arbitrary: k)
  case (Cons name names)
  then obtain v where "migration_version name = Some v" "v \<in> set (versions st)" by auto
  then have "pg_apply_file script run (es k) name st = (None, st)"
    using assms(2) by (simp add: pg_apply_file_def pg_execute_healthy(1))
  then show ?case using Cons by simp
qed simp

lemma pg_apply_migrations_steps:
  assumes "pg_apply_migrations refusal listing script run e es st = (err, st')"
  shows "(upgrade script (pg_effect run))\<^sup>*\<^sup>* st st'
    \<and> (err = None \<longrightarrow> (\<exists>names. listing = Inr names
        \<and> (\<forall>name \<in> set names. \<exists>v. migration_version name = Some v \<and> v \<in> set (versions st'))))"
  using assms pg_apply_files_steps [of script run es 0 _ st err st']
  by (auto simp: pg_apply_migrations_def Let_def split: option.splits if_splits sum.splits)

text \<open>
  C10: Migrations are applied each at most once, in whole or not at all: whatever fails, the database
  has gone through a sequence of complete upgrades and its version table records exactly those; after
  a success every migration file is recorded, and applying again changes nothing.
\<close>

theorem pg_migrations_once:
  assumes "pg_apply_migrations refusal listing script run e es st = (err, st')"
    and "pg_healthy e'" "\<forall>k. pg_healthy (es' k)"
  shows "(upgrade script (pg_effect run))\<^sup>*\<^sup>* st st'
    \<and> (distinct (versions st) \<longrightarrow> distinct (versions st'))
    \<and> (err = None \<longrightarrow> pg_apply_migrations None listing script run e' es' st' = (None, st'))"
proof -
  note steps = pg_apply_migrations_steps [OF assms(1)]
  have "distinct (versions st')" if "distinct (versions st)" using upgrade_versions steps that by fastforce
  moreover have "pg_apply_migrations None listing script run e' es' st' = (None, st')" if none: "err = None"
  proof -
    obtain names where names: "listing = Inr names"
      "\<forall>name \<in> set (sort names). \<exists>v. migration_version name = Some v \<and> v \<in> set (versions st')"
      using steps none by auto
    show ?thesis
      using pg_apply_files_again [OF names(2) assms(3)]
      by (simp add: pg_apply_migrations_def names(1) pg_execute_healthy(1) [OF assms(2)])
  qed
  ultimately show ?thesis using steps by blast
qed

section \<open>An example\<close>

theorem pg_migrations_once_witness:
  "pg_apply_migrations None (Inr [''001-initial-schema.sql'']) (\<lambda>_. Some ''create'')
     (\<lambda>_ t. Some (Command_ok, t + 1 :: nat)) quiet_server (\<lambda>_. quiet_server) \<lparr>tables = 1, versions = [1]\<rparr>
   = (None, \<lparr>tables = 1, versions = [1]\<rparr>)"
proof -
  have "pg_apply_migrations None (Inr [''001-initial-schema.sql'']) (\<lambda>_. Some ''create'')
      (\<lambda>_ t. Some (Command_ok, t + 1 :: nat)) quiet_server (\<lambda>_. quiet_server) \<lparr>tables = 0, versions = []\<rparr>
    = (None, \<lparr>tables = 1, versions = [1]\<rparr>)"
    by code_simp
  from pg_migrations_once [OF this quiet_server_healthy, of "\<lambda>_. quiet_server"] show ?thesis by simp
qed

end
