(* ===== verification/Startup.thy ===== *)
theory Startup
  imports Pg_Server Migrations Submission_Worker
begin

text \<open>
  \<^verbatim>\<open>main\<close> of \<^verbatim>\<open>backend/src/main.cpp\<close> up to the registration of the routes: each
  check that makes the server refuse to start, and the calls that prepare the database. What the
  outside decides (the judge process, the environment variables, the connections, the migration files)
  is a record \<open>start_env\<close>. The workers are running once the pool is started; what they do is the
  subject of \<^verbatim>\<open>Judging_System\<close>.
\<close>

definition pg_open_submissions :: "string option \<Rightarrow> pg_env \<Rightarrow> int list \<Rightarrow> repository_error option" where
  "pg_open_submissions refusal e vs =
     (case refusal of Some m \<Rightarrow> Some (RepositoryError (''Could not connect to PostgreSQL: '' @ m))
      | None \<Rightarrow>
        let probe = fst (pg_execute e 0 (Some (Tuples_ok (map (\<lambda>_. [Some ''1'']) (filter (\<lambda>v. v = 1) vs)), ())) ())
        in if \<not> pg_tuples_ok probe \<or> pg_rows probe \<noteq> 1
           then Some (RepositoryError (''PostgreSQL schema is missing; apply ''
             @ ''migrations/postgresql/001-initial-schema.sql first''))
           else None)"

record start_env =
  executor_error :: "string option"
  database_url :: "string option"
  migration_refusal :: "string option"
  migration_files :: "string + string list"
  migration_script :: "string \<Rightarrow> string option"
  migration_run :: "string \<Rightarrow> int database \<Rightarrow> (pg_result \<times> int database) option"
  migration_env :: pg_env
  migration_envs :: "nat \<Rightarrow> pg_env"
  submissions_refusal :: "string option"
  submissions_env :: pg_env
  problems_refusal :: "string option"
  problems_gap :: "nat \<Rightarrow> nat"
  problems_answer_lost :: bool
  problems_env :: pg_env
  recovery_env :: pg_env
  sodium_status :: int
  auth_refusal :: "string option"
  auth_env :: pg_auth_env
  admin_username :: "string option"
  admin_password :: "string option"
  admin_env :: pg_auth_env
  secure_setting :: "string option"

datatype start_outcome =
    Exit string
  | Serving "(pg_auth_env, pg_env, pg_env, int database) server" worker_pool pg_auth_service

definition new_pool :: worker_pool where
  "new_pool = \<lparr>worker_count = 2, stopping_flag = False, started = False, workers = 0\<rparr>"

text \<open>The last part: the account service and the administrator.\<close>

definition start_accounts ::
    "'j json_lib \<Rightarrow> 'j json_text_lib \<Rightarrow> (pg_env \<Rightarrow> nat) \<Rightarrow> sodium \<Rightarrow> (string \<Rightarrow> string) \<Rightarrow> (int \<Rightarrow> string)
       \<Rightarrow> start_env \<Rightarrow> worker_pool \<Rightarrow> int list \<Rightarrow> int database \<Rightarrow> start_outcome \<times> int database" where
  "start_accounts J W gap k lw ts env pool vs db =
     (case pg_auth_open k lw ts (auth_env env) (sodium_status env) (auth_refusal env) vs of
        Inl error \<Rightarrow> (Exit (''Authentication initialization failed: '' @ ae_message error), db)
      | Inr A \<Rightarrow> (case (admin_username env, admin_password env) of
          (Some name, Some password) \<Rightarrow>
            (case pg_ensure_admin A (admin_env env) name password db of
               (Inl error, db') \<Rightarrow> (Exit (''Admin account initialization failed: '' @ ae_message error), db')
             | (Inr _, db') \<Rightarrow>
                 (Serving (pg_server J W gap A default_limits (secure_setting env = Some ''1'')) pool A, db'))
        | _ \<Rightarrow> (Exit (''ALGORITHM_TRAINER_ADMIN_USERNAME and ''
            @ ''ALGORITHM_TRAINER_ADMIN_PASSWORD are required''), db)))"

definition server_main ::
    "'j json_lib \<Rightarrow> 'j json_text_lib \<Rightarrow> (pg_env \<Rightarrow> nat) \<Rightarrow> sodium \<Rightarrow> (string \<Rightarrow> string) \<Rightarrow> (int \<Rightarrow> string)
       \<Rightarrow> start_env \<Rightarrow> int database schema \<Rightarrow> start_outcome \<times> int database schema" where
  "server_main J W gap k lw ts env st =
     (case executor_error env of
        Some m \<Rightarrow> (Exit (''Judge isolation initialization failed: '' @ m), st)
      | None \<Rightarrow>
        if database_url env = None \<or> database_url env = Some []
        then (Exit ''ALGORITHM_TRAINER_DATABASE_URL is required'', st)
        else (case pg_apply_migrations (migration_refusal env) (migration_files env) (migration_script env)
               (migration_run env) (migration_env env) (migration_envs env) st of
          (Some m, st1) \<Rightarrow> (Exit (''Database migration failed: '' @ m), st1)
        | (None, st1) \<Rightarrow> (case pg_open_submissions (submissions_refusal env) (submissions_env env) (versions st1) of
          Some error \<Rightarrow> (Exit (''Database initialization failed: '' @ re_message error), st1)
        | None \<Rightarrow> (case pg_open_problems J W (problems_gap env) (problems_refusal env) (problems_answer_lost env) (problems_env env) (tables st1) of
          (Some error, db2) \<Rightarrow> (Exit (''Problem database initialization failed: '' @ problem_message error),
             st1\<lparr>tables := db2\<rparr>)
        | (None, db2) \<Rightarrow> (case pool_start (pg_repository ts default_limits) (recovery_env env) new_pool db2 of
          (Some m, _, db3) \<Rightarrow> (Exit (''Submission worker startup failed: '' @ m), st1\<lparr>tables := db3\<rparr>)
        | (None, pool, db3) \<Rightarrow>
            (case start_accounts J W gap k lw ts env pool (versions st1) db3 of
               (out, db4) \<Rightarrow> (out, st1\<lparr>tables := db4\<rparr>)))))))"

section \<open>What each step leaves alone\<close>

lemma tests_added_other:
  "tests_added i db db' \<Longrightarrow> users db' = users db \<and> users_seq db' = users_seq db \<and> sessions db' = sessions db"
  by (induction rule: tests_added.induct) (auto dest: insert_test_Some(2))

lemma seeded_other:
  "seeded ps db db' \<Longrightarrow> users db' = users db \<and> users_seq db' = users_seq db \<and> sessions db' = sessions db"
  by (induction rule: seeded.induct) (auto simp: insert_problem_def dest: tests_added_other split: if_splits)

lemma update_submissions_other:
  "update_submissions P f db = Some db' \<Longrightarrow> \<exists>rs. db' = db\<lparr>submissions := rs\<rparr>"
  by (auto simp: update_submissions_def Let_def split: if_splits)

lemma pool_start_other:
  assumes "pool_start (pg_repository ts lim) e p db = (err, p', db')"
  shows "\<exists>rs. db' = db\<lparr>submissions := rs\<rparr>"
proof -
  have same: "\<exists>rs. db = db\<lparr>submissions := rs\<rparr>" by (intro exI [of _ "submissions db"]) simp
  show ?thesis
  proof (cases "pg_recover_running e db")
    case (Pair res d)
    have "\<exists>rs. d = db\<lparr>submissions := rs\<rparr>"
      using Pair by (cases rule: pg_recoverE) (use same update_submissions_other in auto)
    then show ?thesis
      using assms Pair same by (auto simp: pool_start_def pg_repository_def split: if_splits sum.splits)
  qed
qed

lemma wf_auth_other:
  assumes "users db' = users db" "users_seq db' = users_seq db" "sessions db' = sessions db"
  shows "wf_auth key db' = wf_auth key db"
  by (simp add: wf_auth_def assms)

lemma catalogue_submissions: "pg_catalogue J W (db\<lparr>submissions := rs\<rparr>) = pg_catalogue J W db"
  by (simp add: pg_catalogue_def catalogue_of_def select_tests_def fun_eq_iff)

lemma pg_ensure_admin_other:
  assumes "wf_auth (lower A) db" "pg_ensure_admin A e name password db = (res, db')"
  shows "problems db' = problems db" "problem_tests db' = problem_tests db"
  using assms by (cases rule: pg_ensure_admin_cases; auto dest: insert_user_Some(2))+

lemma pg_ensure_admin_name:
  assumes "wf_auth (lower A) db" "pg_ensure_admin A e name password db = (Inr user, db')"
  shows "lower A (au_username user) = lower A name"
  using assms
  by (cases rule: pg_ensure_admin_cases)
    (auto simp: account_def make_admin_def same_name_def new_user_def dest: insert_user_Some(1))

lemma upgrade_keeps:
  assumes "(upgrade script (pg_effect run))\<^sup>*\<^sup>* st st'" "P (tables st)"
    and "\<And>sql t r t'. run sql t = Some (r, t') \<Longrightarrow> P t \<Longrightarrow> P t'"
  shows "P (tables st')"
  using assms(1,2)
proof (induction rule: rtranclp_induct)
  case (step st1 st2)
  then show ?case using assms(3) by (auto simp: pg_effect_def elim!: upgrade.cases)
qed simp

section \<open>A server that serves is ready\<close>

lemma server_main_Serving:
  assumes "server_main J W gap k lw ts env st = (Serving srv pool A, st')"
  obtains st1 db2 db3 name password user where
    "pg_apply_migrations (migration_refusal env) (migration_files env) (migration_script env)
       (migration_run env) (migration_env env) (migration_envs env) st = (None, st1)"
    "pg_open_submissions (submissions_refusal env) (submissions_env env) (versions st1) = None"
    "pg_open_problems J W (problems_gap env) (problems_refusal env) (problems_answer_lost env) (problems_env env) (tables st1) = (None, db2)"
    "pool_start (pg_repository ts default_limits) (recovery_env env) new_pool db2 = (None, pool, db3)"
    "pg_auth_open k lw ts (auth_env env) (sodium_status env) (auth_refusal env) (versions st1) = Inr A"
    "admin_username env = Some name" "admin_password env = Some password"
    "pg_ensure_admin A (admin_env env) name password db3 = (Inr user, tables st')"
    "srv = pg_server J W gap A default_limits (secure_setting env = Some ''1'')" "versions st' = versions st1"
  using assms
  by (auto simp: server_main_def start_accounts_def split: option.splits if_splits prod.splits sum.splits)

lemma pg_open_submissions_version:
  "pg_open_submissions refusal e vs = None \<Longrightarrow> 1 \<in> set vs"
proof (rule ccontr)
  assume none: "pg_open_submissions refusal e vs = None" and "1 \<notin> set vs"
  then have "filter (\<lambda>v. v = 1) vs = []" by (auto simp: filter_empty_conv)
  with none show False
    by (auto simp: pg_open_submissions_def pg_execute_def Let_def split: option.splits if_splits)
qed

text \<open>
  C9: When the server starts to serve, it is ready: the schema is recorded, the two workers are
  started, every built-in problem is in the catalogue, and there is an administrator account with the
  configured name.
\<close>

theorem server_ready:
  assumes "server_main J W gap k lw ts env st = (Serving srv pool A, st')"
    and "wf_problems (tables st)" "wf_auth lw (tables st)"
    and scripts: "\<And>sql t r t'. migration_run env sql t = Some (r, t') \<Longrightarrow>
      wf_problems t \<and> wf_auth lw t \<Longrightarrow> wf_problems t' \<and> wf_auth lw t'"
  shows "1 \<in> set (versions st') \<and> started pool \<and> workers pool = 2
    \<and> pb_id ` set default_problems \<subseteq> dom (pg_catalogue J W (tables st'))
    \<and> (\<exists>admin \<in> set (pg_accounts A (tables st')). au_is_admin admin
         \<and> admin_username env \<noteq> None \<and> lw (au_username admin) = lw (the (admin_username env)))"
  using assms(1)
proof (rule server_main_Serving)
  fix st1 db2 db3 name password user
  assume mig: "pg_apply_migrations (migration_refusal env) (migration_files env) (migration_script env)
       (migration_run env) (migration_env env) (migration_envs env) st = (None, st1)"
    and opened: "pg_open_submissions (submissions_refusal env) (submissions_env env) (versions st1) = None"
    and seed: "pg_open_problems J W (problems_gap env) (problems_refusal env) (problems_answer_lost env) (problems_env env) (tables st1) = (None, db2)"
    and start: "pool_start (pg_repository ts default_limits) (recovery_env env) new_pool db2 = (None, pool, db3)"
    and auth: "pg_auth_open k lw ts (auth_env env) (sodium_status env) (auth_refusal env) (versions st1) = Inr A"
    and name: "admin_username env = Some name"
    and admin: "pg_ensure_admin A (admin_env env) name password db3 = (Inr user, tables st')"
    and vs: "versions st' = versions st1"
  have lw: "lower A = lw" using auth by (auto simp: pg_auth_open_def Let_def split: if_splits option.splits)
  have wf1: "wf_problems (tables st1) \<and> wf_auth lw (tables st1)"
  proof (rule upgrade_keeps [where P = "\<lambda>t. wf_problems t \<and> wf_auth lw t"])
    show "(upgrade (migration_script env) (pg_effect (migration_run env)))\<^sup>*\<^sup>* st st1"
      using pg_apply_migrations_steps [OF mig] by (rule conjunct1)
    show "wf_problems (tables st) \<and> wf_auth lw (tables st)" using assms(2,3) by (rule conjI)
  qed (rule scripts)
  have seeded: "seeded default_problems (tables st1) db2" using pg_open_None seed wf1 by blast
  obtain rs where db3: "db3 = db2\<lparr>submissions := rs\<rparr>" using pool_start_other [OF start] by blast
  have wf3: "wf_auth (lower A) db3"
    using wf1 seeded_other [OF seeded] wf_auth_other [of db3 "tables st1" lw] by (simp add: db3 lw)
  have "pg_catalogue J W (tables st') = pg_catalogue J W db3"
    using pg_ensure_admin_other [OF wf3 admin]
    by (simp add: pg_catalogue_def catalogue_of_def select_tests_def fun_eq_iff)
  also have "\<dots> = pg_catalogue J W db2" by (simp only: db3 catalogue_submissions)
  finally have "pb_id ` set default_problems \<subseteq> dom (pg_catalogue J W (tables st'))"
    using pg_row.cat_seeded [OF seeded, where J = J and W = W] wf1 by (simp add: pg_catalogue_def)
  moreover have "started pool \<and> workers pool = 2"
    using start by (auto simp: pool_start_def new_pool_def split: if_splits prod.splits sum.splits)
  moreover have "au_is_admin user \<and> user \<in> set (pg_accounts A (tables st'))"
    using pg_ensure_admin_contract(2) [OF wf3 admin] by blast
  moreover have "lw (au_username user) = lw name" using pg_ensure_admin_name [OF wf3 admin] by (simp add: lw)
  ultimately show ?thesis using pg_open_submissions_version [OF opened] vs name by auto
qed

section \<open>An example\<close>

definition sample_start :: start_env where
  "sample_start = \<lparr>executor_error = None, database_url = Some ''postgres'', migration_refusal = None,
     migration_files = Inr [], migration_script = \<lambda>_. None, migration_run = \<lambda>_ _. None,
     migration_env = quiet_server, migration_envs = \<lambda>_. quiet_server, submissions_refusal = None,
     submissions_env = quiet_server, problems_refusal = None, problems_gap = \<lambda>_. 0, problems_answer_lost = False,
     problems_env = quiet_server, recovery_env = quiet_server, sodium_status = 0, auth_refusal = None,
     auth_env = sample_auth_env [], admin_username = Some ''root'', admin_password = Some ''password'',
     admin_env = sample_auth_env [], secure_setting = None\<rparr>"

definition sample_schema :: "int database schema" where
  "sample_schema = \<lparr>tables = pg_stocked, versions = [1]\<rparr>"

lemma sample_recovery:
  "pool_start (pg_repository to_string default_limits) quiet_server new_pool pg_stocked
    = (None, \<lparr>worker_count = 2, stopping_flag = False, started = True, workers = 2\<rparr>, pg_stocked)"
proof -
  have "submissions pg_stocked = []" by (simp add: pg_stocked_def empty_database_def)
  moreover have "pg_stocked\<lparr>submissions := []\<rparr> = pg_stocked" by (simp add: pg_stocked_def empty_database_def)
  ultimately show ?thesis
    by (simp add: pool_start_def new_pool_def pg_repository_def pg_recover_running_def
        pg_execute_healthy(1) update_submissions_def update_where_def Let_def)
qed

lemma sample_admin:
  "\<exists>user db. pg_ensure_admin A (sample_auth_env []) ''root'' ''password'' pg_stocked = (Inr user, db)"
proof -
  have users: "users pg_stocked = []" "users_seq pg_stocked = 0" by (simp_all add: pg_stocked_def empty_database_def)
  have "pg_validate ''root'' ''password'' = None" by code_simp
  moreover have "pg_execute (server (sample_auth_env [])) 0 (Some out) s = out" for out and s :: "int database"
    by (rule pg_execute_healthy(1) [OF sample_env_healthy])
  ultimately show ?thesis
    using users by (simp add: pg_ensure_admin_def password_hash_def sample_auth_env_def pg_upsert_admin_def
        username_taken_def insert_user_def new_user_def int64_range_def Let_def)
qed

theorem server_ready_witness:
  "\<exists>srv pool A st'. server_main plain_json bare_text (\<lambda>_. 0) sample_sodium (\<lambda>n. n) to_string sample_start sample_schema
       = (Serving srv pool A, st')
     \<and> pb_id ` set default_problems \<subseteq> dom (pg_catalogue plain_json bare_text (tables st'))"
proof -
  obtain A where A: "pg_auth_open sample_sodium (\<lambda>n. n) to_string (sample_auth_env []) 0 None [1] = Inr A"
    by (simp add: pg_auth_open_def password_hash_def sample_auth_env_def pg_execute_healthy(1))
  obtain user db where admin: "pg_ensure_admin A (sample_auth_env []) ''root'' ''password'' pg_stocked = (Inr user, db)"
    using sample_admin by blast
  have "pg_open_submissions None quiet_server [1] = None"
    by (simp add: pg_open_submissions_def pg_execute_healthy(1))
  then have main: "server_main plain_json bare_text (\<lambda>_. 0) sample_sodium (\<lambda>n. n) to_string sample_start sample_schema
      = (Serving (pg_server plain_json bare_text (\<lambda>_. 0) A default_limits False)
          \<lparr>worker_count = 2, stopping_flag = False, started = True, workers = 2\<rparr> A, sample_schema\<lparr>tables := db\<rparr>)"
    using pg_stocked_opens sample_recovery A admin
    by (simp add: server_main_def sample_start_def sample_schema_def start_accounts_def pg_apply_migrations_def
        pg_execute_healthy(1))
  have "wf_problems (tables sample_schema)" "wf_auth (\<lambda>n. n) (tables sample_schema)"
    using wf_pg_stocked by (simp_all add: sample_schema_def pg_stocked_def wf_auth_def empty_database_def int64_range_def)
  from server_ready [OF main this] main show ?thesis by (simp add: sample_start_def)
qed

end
