(* ===== verification/Judge_Channel.thy ===== *)
theory Judge_Channel
  imports Problem_Judge Problem_Queries
begin

text \<open>
  The process boundary of the judge: \<^verbatim>\<open>IsolatedProcessExecutor\<close>
  (\<^verbatim>\<open>backend/src/isolated-process-executor.cpp\<close>), which forks a worker for each run and
  exchanges one framed JSON message with it, and the worker's \<^verbatim>\<open>main\<close>
  (\<^verbatim>\<open>backend/src/judge-worker-main.cpp\<close>).

  The kernel is a parameter: the answers of the calls of \<^verbatim>\<open>read\<close> and
  \<^verbatim>\<open>write\<close> on the socket are a list, consumed in order, and a function that would wait for
  an answer which never comes has the value None. The bytes on the socket are a string. The two
  processes alternate: the worker reads the whole request before it writes, and the parent reads after
  it wrote. JsonCpp is the parameter it is elsewhere.
\<close>

section \<open>System calls on a stream socket\<close>

text \<open>
  \<open>Transferred n\<close>: at most \<open>n\<close> bytes are moved, fewer when fewer are asked for or, reading,
  are there. A call that reads no byte has reached the end of the stream.
\<close>

datatype io_result =
    Transferred nat
  | Interrupted
  | Io_failed

fun write_all :: "io_result list \<Rightarrow> string \<Rightarrow> string \<Rightarrow> (bool \<times> io_result list \<times> string) option" where
  "write_all answers data stream =
     (if data = [] then Some (True, answers, stream)
      else case answers of [] \<Rightarrow> None
        | Io_failed # rest \<Rightarrow> Some (False, rest, stream)
        | Interrupted # rest \<Rightarrow> write_all rest data stream
        | Transferred n # rest \<Rightarrow> write_all rest (drop n data) (stream @ take n data))"

fun read_all ::
    "io_result list \<Rightarrow> string \<Rightarrow> nat \<Rightarrow> string \<Rightarrow> (string option \<times> io_result list \<times> string) option" where
  "read_all answers output n stream =
     (if n = 0 then Some (Some output, answers, stream)
      else case answers of [] \<Rightarrow> None
        | Io_failed # rest \<Rightarrow> Some (None, rest, stream)
        | Interrupted # rest \<Rightarrow> read_all rest output n stream
        | Transferred m # rest \<Rightarrow>
            let got = take (min m n) stream
            in if got = [] then Some (None, rest, stream)
               else read_all rest (output @ got) (n - length got) (drop (length got) stream))"

declare write_all.simps [simp del]
declare read_all.simps [simp del]

text \<open>
  The worker's one loop for both directions. Writing, \<open>buffer\<close> is what is left to write; reading,
  it is what has been read.
\<close>

fun transfer ::
    "bool \<Rightarrow> io_result list \<Rightarrow> string \<Rightarrow> nat \<Rightarrow> string
       \<Rightarrow> (bool \<times> string \<times> io_result list \<times> string) option" where
  "transfer writing answers buffer n stream =
     (if n = 0 then Some (True, buffer, answers, stream)
      else case answers of [] \<Rightarrow> None
        | Io_failed # rest \<Rightarrow> Some (False, buffer, rest, stream)
        | Interrupted # rest \<Rightarrow> transfer writing rest buffer n stream
        | Transferred m # rest \<Rightarrow>
            let moved = take (min m n) (if writing then buffer else stream)
            in if \<not> writing \<and> moved = [] then Some (False, buffer, rest, stream)
               else if writing
               then transfer writing rest (drop (length moved) buffer) (n - length moved) (stream @ moved)
               else transfer writing rest (buffer @ moved) (n - length moved) (drop (length moved) stream))"

declare transfer.simps [simp del]

section \<open>Frames\<close>

definition maximum_message_size :: nat where
  "maximum_message_size = 2 * 1024 * 1024"

text \<open>\<^verbatim>\<open>htonl\<close> and \<^verbatim>\<open>ntohl\<close> with the four bytes in memory: the most significant first.\<close>

type_synonym uint32 = "32 word"

definition size_bytes :: "uint32 \<Rightarrow> string" where
  "size_bytes w = map (\<lambda>k. char_of (unat (drop_bit k w))) [24, 16, 8, 0]"

definition bytes_size :: "string \<Rightarrow> uint32" where
  "bytes_size bs = word_of_nat (foldl (\<lambda>acc c. acc * 256 + of_char c) 0 bs)"

definition uint32_of_size :: "nat \<Rightarrow> uint32" where
  "uint32_of_size n = word_of_nat n"

definition send_message ::
    "'j json_text_lib \<Rightarrow> io_result list \<Rightarrow> 'j \<Rightarrow> string \<Rightarrow> (bool \<times> io_result list \<times> string) option" where
  "send_message W answers v stream =
     (let body = writeString W v
      in if length body > maximum_message_size then Some (False, answers, stream)
         else case write_all answers (size_bytes (uint32_of_size (length body))) stream of
             None \<Rightarrow> None
           | Some (False, rest, stream') \<Rightarrow> Some (False, rest, stream')
           | Some (True, rest, stream') \<Rightarrow> write_all rest body stream')"

text \<open>The last argument of \<open>read_all\<close> is the stream; the frame carries its size in four bytes.\<close>

definition receive_message ::
    "'j json_lib \<Rightarrow> 'j json_text_lib \<Rightarrow> io_result list \<Rightarrow> string \<Rightarrow> (string + 'j) option" where
  "receive_message J W answers stream =
     (case read_all answers [] 4 stream of
        None \<Rightarrow> None
      | Some (None, _, _) \<Rightarrow> Some (Inl ''Judge worker closed its response channel'')
      | Some (Some encoded, rest, stream') \<Rightarrow>
          let n = unat (bytes_size encoded)
          in if n = 0 \<or> n > maximum_message_size
             then Some (Inl ''Judge worker returned an invalid response size'')
             else case read_all rest [] n stream' of
                 None \<Rightarrow> None
               | Some (None, _, _) \<Rightarrow> Some (Inl ''Judge worker returned a truncated response'')
               | Some (Some body, _, _) \<Rightarrow>
                   (case parseText W body of
                      None \<Rightarrow> Some (Inl ''Judge worker returned malformed JSON'')
                    | Some v \<Rightarrow> if \<not> isObject J v then Some (Inl ''Judge worker returned malformed JSON'')
                                else Some (Inr v)))"

text \<open>The worker's side: a request that cannot be read has no description.\<close>

definition receive ::
    "'j json_lib \<Rightarrow> 'j json_text_lib \<Rightarrow> io_result list \<Rightarrow> string \<Rightarrow> 'j option option" where
  "receive J W answers stream =
     (case transfer False answers [] 4 stream of
        None \<Rightarrow> None
      | Some (False, _, _, _) \<Rightarrow> Some None
      | Some (True, encoded, rest, stream') \<Rightarrow>
          let n = unat (bytes_size encoded)
          in if n = 0 \<or> n > maximum_message_size then Some None
             else case transfer False rest [] n stream' of
                 None \<Rightarrow> None
               | Some (False, _, _, _) \<Rightarrow> Some None
               | Some (True, body, _, _) \<Rightarrow>
                   (case parseText W body of None \<Rightarrow> Some None
                    | Some v \<Rightarrow> if \<not> isObject J v then Some None else Some (Some v)))"

definition send :: "'j json_text_lib \<Rightarrow> io_result list \<Rightarrow> 'j \<Rightarrow> string \<Rightarrow> (bool \<times> string) option" where
  "send W answers v stream =
     (let body = writeString W v
      in case transfer True answers (size_bytes (uint32_of_size (length body))) 4 stream of
          None \<Rightarrow> None
        | Some (False, _, _, stream') \<Rightarrow> Some (False, stream')
        | Some (True, _, rest, stream') \<Rightarrow>
            map_option (\<lambda>(sent, _, _, stream''). (sent, stream''))
              (transfer True rest body (length body) stream'))"

section \<open>The worker process\<close>

definition int32_range :: "int \<Rightarrow> bool" where
  "int32_range i \<longleftrightarrow> - (2 ^ 31) \<le> i \<and> i < 2 ^ 31"

text \<open>\<^verbatim>\<open>std::from_chars\<close> into an \<^verbatim>\<open>int\<close>, and \<^verbatim>\<open>Json::Value::isInt\<close>.\<close>

definition from_chars_int :: "string \<Rightarrow> from_chars_result" where
  "from_chars_int s = (case from_chars_int64 s of
     Parsed i rest \<Rightarrow> if int32_range i then Parsed i rest else Out_of_range rest
   | other \<Rightarrow> other)"

definition isInt :: "'j json_lib \<Rightarrow> 'j \<Rightarrow> bool" where
  "isInt J v \<longleftrightarrow> isInt64 J v \<and> int32_range (asInt64 J v)"

definition worker_descriptor :: "string list \<Rightarrow> int option" where
  "worker_descriptor argv =
     (if length argv \<noteq> 5 \<or> argv ! 1 \<noteq> ''--ipc-fd'' \<or> argv ! 3 \<noteq> ''--cgroupv2-mount'' then None
      else case from_chars_int (argv ! 2) of
          Parsed i rest \<Rightarrow> if rest \<noteq> [] \<or> i < 3 then None else Some i
        | _ \<Rightarrow> None)"

definition worker_request :: "'j json_lib \<Rightarrow> 'j \<Rightarrow> execution_request option" where
  "worker_request J v =
     (if \<not> isString J (member J v ''language'') \<or> \<not> isString J (member J v ''source'')
        \<or> \<not> isString J (member J v ''input'') then None
      else Some \<lparr>xr_language = asString J (member J v ''language''),
        xr_source_code = asString J (member J v ''source''),
        xr_standard_input = asString J (member J v ''input'')\<rparr>)"

definition worker_response :: "'j json_lib \<Rightarrow> executor_result \<Rightarrow> 'j" where
  "worker_response J result = (case result of
     Inl (ExecutorError m) \<Rightarrow> json_object J (nullValue J) [(''error'', stringValue J m)]
   | Inr ex \<Rightarrow> json_object J (nullValue J)
       ([(''exitCode'', int64Value J (exit_code ex)), (''stdout'', stringValue J (standard_output ex)),
         (''stderr'', stringValue J (standard_error ex)), (''timedOut'', boolValue J (timed_out ex))]
        @ (case execution_error_type ex of None \<Rightarrow> [] | Some t \<Rightarrow> [(''errorType'', stringValue J t)])))"

text \<open>
  \<open>run\<close> is the executor of the worker, given the control group its fourth argument names; None
  when it does not return. The result is the exit code and the bytes written to the socket.
\<close>

definition worker_main ::
    "'j json_lib \<Rightarrow> 'j json_text_lib \<Rightarrow> (string \<Rightarrow> execution_request \<Rightarrow> executor_result option)
       \<Rightarrow> string list \<Rightarrow> io_result list \<Rightarrow> io_result list \<Rightarrow> string \<Rightarrow> (nat \<times> string) option" where
  "worker_main J W run argv reads writes incoming =
     (if worker_descriptor argv = None then Some (2, [])
      else case receive J W reads incoming of
          None \<Rightarrow> None
        | Some None \<Rightarrow> Some (3, [])
        | Some (Some v) \<Rightarrow>
            (case worker_request J v of
               None \<Rightarrow> Some (3, [])
             | Some request \<Rightarrow>
                 (case run (argv ! 4) request of
                    None \<Rightarrow> None
                  | Some result \<Rightarrow>
                      map_option (\<lambda>(sent, written). (if sent then 0 else 4, written))
                        (send W writes (worker_response J result) []))))"

text \<open>The status \<^verbatim>\<open>waitpid\<close> stores, and the macros that read it.\<close>

type_synonym wait_status = "32 word"

definition WIFEXITED :: "wait_status \<Rightarrow> bool" where
  "WIFEXITED status \<longleftrightarrow> take_bit 7 status = 0"

definition WEXITSTATUS :: "wait_status \<Rightarrow> int" where
  "WEXITSTATUS status = uint (take_bit 8 (drop_bit 8 status))"

definition WIFSIGNALED :: "wait_status \<Rightarrow> bool" where
  "WIFSIGNALED status \<longleftrightarrow> take_bit 7 status \<noteq> 0 \<and> take_bit 7 status \<noteq> 127"

definition WTERMSIG :: "wait_status \<Rightarrow> int" where
  "WTERMSIG status = uint (take_bit 7 status)"

text \<open>The status of a process that exits with a code: \<^verbatim>\<open>_exit\<close> keeps its low byte.\<close>

definition exit_status :: "nat \<Rightarrow> wait_status" where
  "exit_status code = push_bit 8 (take_bit 8 (word_of_nat code))"

text \<open>
  \<^verbatim>\<open>while (waitpid(child, &status, 0) < 0 && errno == EINTR)\<close>: a call that fails otherwise
  leaves the status as it was initialized, zero.
\<close>

fun wait_for_child :: "io_result list \<Rightarrow> wait_status \<Rightarrow> wait_status option" where
  "wait_for_child [] status = None"
| "wait_for_child (Interrupted # answers) status = wait_for_child answers status"
| "wait_for_child (Io_failed # answers) status = Some 0"
| "wait_for_child (Transferred n # answers) status = Some status"

section \<open>The parent\<close>

record channel_env =
  socketpair_result :: "(int \<times> int) option"
  open_descriptors :: "int list"
  closes_on_exec :: "int \<Rightarrow> bool"
  configured_maximum :: int
  fork_succeeds :: bool
  fcntl_succeeds :: bool
  execve_succeeds :: bool
  send_answers :: "io_result list"
  receive_answers :: "io_result list"
  wait_answers :: "io_result list"

definition close_untrusted_descriptors :: "int \<Rightarrow> int \<Rightarrow> int list \<Rightarrow> int list" where
  "close_untrusted_descriptors preserved maximum descriptors =
     filter (\<lambda>d. \<not> (3 \<le> d \<and> d < maximum \<and> d \<noteq> preserved)) descriptors"

text \<open>The descriptors the worker has after \<^verbatim>\<open>execve\<close>.\<close>

definition inherited_descriptors :: "channel_env \<Rightarrow> int \<times> int \<Rightarrow> int list" where
  "inherited_descriptors e sockets =
     (let maximum = (if configured_maximum e > 3 then configured_maximum e else 65536)
      in filter (\<lambda>d. d = snd sockets \<or> \<not> closes_on_exec e d)
           (close_untrusted_descriptors (snd sockets) maximum
              (filter (\<lambda>d. d \<noteq> fst sockets) (open_descriptors e))))"

text \<open>
  A process: its arguments, its descriptors and what it reads from the socket give what it writes
  there and its status; None when it does not end.
\<close>

type_synonym process = "string list \<Rightarrow> int list \<Rightarrow> string \<Rightarrow> (string \<times> wait_status) option"

definition launch :: "channel_env \<Rightarrow> process \<Rightarrow> int \<times> int \<Rightarrow> string list \<Rightarrow> string \<Rightarrow> (string \<times> wait_status) option" where
  "launch e worker sockets argv incoming =
     (if \<not> fcntl_succeeds e then Some ([], exit_status 126)
      else if \<not> execve_succeeds e then Some ([], exit_status 127)
      else worker argv (inherited_descriptors e sockets) incoming)"

text \<open>The worker of the program; a descriptor it does not have cannot be read.\<close>

definition worker_process ::
    "'j json_lib \<Rightarrow> 'j json_text_lib \<Rightarrow> (string \<Rightarrow> execution_request \<Rightarrow> executor_result option)
       \<Rightarrow> io_result list \<Rightarrow> io_result list \<Rightarrow> process" where
  "worker_process J W run reads writes argv descriptors incoming =
     (let reads' = (case worker_descriptor argv of Some d \<Rightarrow> if d \<in> set descriptors then reads else [Io_failed]
                    | None \<Rightarrow> reads)
      in map_option (\<lambda>(code, written). (written, exit_status code)) (worker_main J W run argv reads' writes incoming))"

definition request_payload :: "'j json_lib \<Rightarrow> execution_request \<Rightarrow> 'j" where
  "request_payload J request = json_object J (nullValue J)
     [(''language'', stringValue J (xr_language request)), (''source'', stringValue J (xr_source_code request)),
      (''input'', stringValue J (xr_standard_input request))]"

definition worker_arguments :: "string \<Rightarrow> int \<Rightarrow> string \<Rightarrow> string list" where
  "worker_arguments worker_path descriptor cgroup_mount =
     [worker_path, ''--ipc-fd'', to_string descriptor, ''--cgroupv2-mount'', cgroup_mount]"

definition decode_response :: "'j json_lib \<Rightarrow> wait_status \<Rightarrow> 'j \<Rightarrow> executor_result" where
  "decode_response J status json =
     (if isString J (member J json ''error'') then Inl (ExecutorError (asString J (member J json ''error'')))
      else if \<not> WIFEXITED status \<or> WEXITSTATUS status \<noteq> 0 \<or> \<not> isInt J (member J json ''exitCode'')
        \<or> \<not> isString J (member J json ''stdout'') \<or> \<not> isString J (member J json ''stderr'')
        \<or> \<not> isBool J (member J json ''timedOut'')
      then Inl (ExecutorError ''Judge worker failed or returned an invalid result'')
      else Inr \<lparr>exit_code = asInt64 J (member J json ''exitCode''),
        standard_output = asString J (member J json ''stdout''),
        standard_error = asString J (member J json ''stderr''),
        timed_out = asBool J (member J json ''timedOut''),
        execution_error_type = (if isString J (member J json ''errorType'')
           then Some (asString J (member J json ''errorType'')) else None)\<rparr>)"

record isolated_executor =
  worker_path :: string
  cgroupv2_mount :: string
  delegation_error :: "string option"

definition isolated_run ::
    "'j json_lib \<Rightarrow> 'j json_text_lib \<Rightarrow> isolated_executor \<Rightarrow> channel_env \<Rightarrow> process \<Rightarrow> execution_request
       \<Rightarrow> executor_result option" where
  "isolated_run J W x e worker request =
     (case delegation_error x of
        Some m \<Rightarrow> Some (Inl (ExecutorError m))
      | None \<Rightarrow> (case socketpair_result e of
          None \<Rightarrow> Some (Inl (ExecutorError ''Could not create the judge worker channel''))
        | Some sockets \<Rightarrow>
            if \<not> fork_succeeds e then Some (Inl (ExecutorError ''Could not launch the judge worker''))
            else (case send_message W (send_answers e) (request_payload J request) [] of
                None \<Rightarrow> None
              | Some (False, _, _) \<Rightarrow> Some (Inl (ExecutorError ''Could not send work to the judge worker''))
              | Some (True, _, sent) \<Rightarrow>
                  (case launch e worker sockets
                          (worker_arguments (worker_path x) (snd sockets) (cgroupv2_mount x)) sent of
                     None \<Rightarrow> None
                   | Some (written, status) \<Rightarrow>
                       (case receive_message J W (receive_answers e) written of
                          None \<Rightarrow> None
                        | Some response \<Rightarrow>
                            (case wait_for_child (wait_answers e) status of
                               None \<Rightarrow> None
                             | Some status' \<Rightarrow>
                                 (case response of
                                    Inl m \<Rightarrow> Some (Inl (ExecutorError m))
                                  | Inr json \<Rightarrow> Some (decode_response J status' json))))))))"

section \<open>Delegated control groups\<close>

text \<open>The lines \<^verbatim>\<open>std::getline\<close> reads: the last one need not end in a line feed.\<close>

fun getlines :: "string \<Rightarrow> string list" where
  "getlines s =
     (if s = [] then []
      else takeWhile (\<lambda>c. c \<noteq> newline) s #
        (case dropWhile (\<lambda>c. c \<noteq> newline) s of [] \<Rightarrow> [] | _ # rest \<Rightarrow> getlines rest))"

declare getlines.simps [simp del]

text \<open>\<^verbatim>\<open>operator/\<close> of \<^verbatim>\<open>std::filesystem::path\<close> on a non-empty left path.\<close>

definition path_append :: "string \<Rightarrow> string \<Rightarrow> string" where
  "path_append a b =
     (if starts_with b ''/'' then b else if ends_with a ''/'' then a @ b else a @ ''/'' @ b)"

definition cgroup_line :: "string \<Rightarrow> bool" where
  "cgroup_line line \<longleftrightarrow> starts_with line ''0::/'' \<and> \<not> contains line ''..''"

record delegation_env =
  cgroup_membership :: string
  root_writable :: "string \<Rightarrow> bool"
  process_id :: int
  manager_created :: "string \<Rightarrow> bool"
  processes_written :: "string \<Rightarrow> bool"
  controllers_written :: "string \<Rightarrow> bool"

definition prepare_cgroup_delegation :: "delegation_env \<Rightarrow> string + string" where
  "prepare_cgroup_delegation e =
     (let relative = (case List.find cgroup_line (getlines (cgroup_membership e)) of
            None \<Rightarrow> [] | Some line \<Rightarrow> drop 4 line)
      in if relative = [] then Inl ''The judge requires a delegated cgroup v2 hierarchy''
         else let root = path_append ''/sys/fs/cgroup'' relative;
                  manager = path_append root (''backend-'' @ to_string (process_id e))
              in if \<not> root_writable e root then Inl ''The judge service requires Delegate=cpu memory pids''
                 else if \<not> manager_created e manager then Inl ''Could not create the trusted backend cgroup''
                 else if \<not> processes_written e (path_append manager ''cgroup.procs'')
                 then Inl ''Could not separate the backend from judge cgroups''
                 else if \<not> controllers_written e (path_append root ''cgroup.subtree_control'')
                 then Inl ''The delegated cgroup lacks cpu, memory, or pids control''
                 else Inr root)"

definition new_isolated_executor :: "string \<Rightarrow> string + string \<Rightarrow> isolated_executor" where
  "new_isolated_executor path delegation = \<lparr>worker_path = path,
     cgroupv2_mount = (case delegation of Inl _ \<Rightarrow> [] | Inr root \<Rightarrow> root),
     delegation_error = (case delegation of Inl m \<Rightarrow> Some m | Inr _ \<Rightarrow> None)\<rparr>"

section \<open>Moving bytes\<close>

text \<open>The loops, one answer at a time.\<close>

lemma write_all_done [simp]: "write_all answers [] stream = Some (True, answers, stream)"
  and write_all_Nil [simp]: "write_all [] data stream = (if data = [] then Some (True, [], stream) else None)"
  and write_all_Cons [simp]: "data \<noteq> [] \<Longrightarrow> write_all (a # answers) data stream = (case a of
     Io_failed \<Rightarrow> Some (False, answers, stream) | Interrupted \<Rightarrow> write_all answers data stream
   | Transferred m \<Rightarrow> write_all answers (drop m data) (stream @ take m data))"
  by (subst write_all.simps; simp split: io_result.split)+

lemma read_all_done [simp]: "read_all answers out 0 stream = Some (Some out, answers, stream)"
  and read_all_Nil [simp]: "read_all [] out n stream = (if n = 0 then Some (Some out, [], stream) else None)"
  and read_all_Cons [simp]: "n \<noteq> 0 \<Longrightarrow> read_all (a # answers) out n stream = (case a of
     Io_failed \<Rightarrow> Some (None, answers, stream) | Interrupted \<Rightarrow> read_all answers out n stream
   | Transferred m \<Rightarrow> (let got = take (min m n) stream
       in if got = [] then Some (None, answers, stream)
          else read_all answers (out @ got) (n - length got) (drop (length got) stream)))"
  by (subst read_all.simps; simp split: io_result.split)+

lemma transfer_done [simp]: "transfer writing answers buffer 0 stream = Some (True, buffer, answers, stream)"
  and transfer_Nil [simp]: "transfer writing [] buffer n stream = (if n = 0 then Some (True, buffer, [], stream) else None)"
  and transfer_Cons [simp]: "n \<noteq> 0 \<Longrightarrow> transfer writing (a # answers) buffer n stream = (case a of
     Io_failed \<Rightarrow> Some (False, buffer, answers, stream) | Interrupted \<Rightarrow> transfer writing answers buffer n stream
   | Transferred m \<Rightarrow> (let moved = take (min m n) (if writing then buffer else stream)
       in if \<not> writing \<and> moved = [] then Some (False, buffer, answers, stream)
          else if writing
          then transfer writing answers (drop (length moved) buffer) (n - length moved) (stream @ moved)
          else transfer writing answers (buffer @ moved) (n - length moved) (drop (length moved) stream)))"
  by (subst transfer.simps; simp split: io_result.split)+

text \<open>
  Answers under which \<open>n\<close> bytes can be moved, one at a time in the worst case: no call fails, none
  moves nothing, and those that are not interrupted are at least \<open>n\<close>.
\<close>

definition plentiful :: "io_result list \<Rightarrow> nat \<Rightarrow> bool" where
  "plentiful answers n \<longleftrightarrow> list_all (\<lambda>a. a \<noteq> Io_failed \<and> a \<noteq> Transferred 0) answers
     \<and> n \<le> length (filter (\<lambda>a. a \<noteq> Interrupted) answers)"

lemma plentiful_mono: "plentiful answers n \<Longrightarrow> m \<le> n \<Longrightarrow> plentiful answers m"
  by (simp add: plentiful_def)

lemma plentiful_Nil [simp]: "plentiful [] n \<longleftrightarrow> n = 0"
  by (simp add: plentiful_def)

lemma plentiful_Cons [simp]:
  "plentiful (a # answers) n \<longleftrightarrow> (case a of Interrupted \<Rightarrow> plentiful answers n | Io_failed \<Rightarrow> False
     | Transferred m \<Rightarrow> m \<noteq> 0 \<and> plentiful answers (n - 1))"
  by (auto simp: plentiful_def split: io_result.splits)

lemma write_all_plentiful:
  assumes "plentiful answers n" "length data \<le> n"
  shows "\<exists>rest. write_all answers data stream = Some (True, rest, stream @ data)
    \<and> plentiful rest (n - length data)"
  using assms
proof (induction answers arbitrary: data stream n)
  case Nil
  then show ?case by simp
next
  case (Cons a answers)
  show ?case
  proof (cases "data = [] \<or> a = Interrupted")
    case True
    then show ?thesis using Cons by (cases "data = []") auto
  next
    case False
    then obtain m where a: "a = Transferred m" "0 < m" "plentiful answers (n - 1)" "data \<noteq> []"
      using Cons.prems(1) by (auto split: io_result.splits)
    then have "length (drop m data) \<le> n - 1" using Cons.prems(2) by (cases data) auto
    from Cons.IH [OF a(3) this, of "stream @ take m data"] obtain rest where
      "write_all answers (drop m data) (stream @ take m data) = Some (True, rest, stream @ data)"
      "plentiful rest (n - 1 - length (drop m data))" by auto
    moreover from this(2) have "plentiful rest (n - length data)"
      by (rule plentiful_mono) (use a(2,4) Cons.prems(2) in \<open>cases data; simp\<close>)
    ultimately show ?thesis using a by auto
  qed
qed

lemma read_all_plentiful:
  assumes "plentiful answers n" "k \<le> n" "k \<le> length stream"
  shows "\<exists>rest. read_all answers out k stream = Some (Some (out @ take k stream), rest, drop k stream)
    \<and> plentiful rest (n - k)"
  using assms
proof (induction answers arbitrary: out k stream n)
  case Nil
  then show ?case by simp
next
  case (Cons a answers)
  show ?case
  proof (cases "k = 0 \<or> a = Interrupted")
    case True
    then show ?thesis using Cons by (cases "k = 0") auto
  next
    case False
    then obtain m where a: "a = Transferred m" "0 < m" "plentiful answers (n - 1)" "0 < k"
      using Cons.prems(1) by (auto split: io_result.splits)
    define got where "got = take (min m k) stream"
    have got: "length got = min m k" "got \<noteq> []" "0 < length got"
      using a Cons.prems(3) by (auto simp: got_def)
    have "k - length got \<le> n - 1" "k - length got \<le> length (drop (length got) stream)"
      using got Cons.prems(2,3) a by auto
    from Cons.IH [OF a(3) this, of "out @ got"] obtain rest where
      rest: "read_all answers (out @ got) (k - length got) (drop (length got) stream)
        = Some (Some ((out @ got) @ take (k - length got) (drop (length got) stream)), rest,
            drop (k - length got) (drop (length got) stream))"
      "plentiful rest (n - 1 - (k - length got))" by blast
    have "take k stream = got @ take (k - length got) (drop (length got) stream)"
      using got(1) by (simp add: got_def take_add [symmetric] flip: take_add)
    moreover have "drop (k - length got) (drop (length got) stream) = drop k stream"
      using got(1) by simp
    moreover have "plentiful rest (n - k)"
      using rest(2) by (rule plentiful_mono) (use got(3) a(4) Cons.prems(2) in arith)
    ultimately show ?thesis
      using rest a got(2) by (simp add: got_def [symmetric] Let_def)
  qed
qed

text \<open>What was read is what was on the stream.\<close>

lemma read_all_prefix:
  assumes "read_all answers out k stream = Some (Some bytes, rest, stream')"
  shows "k \<le> length stream \<and> bytes = out @ take k stream \<and> stream' = drop k stream"
  using assms
proof (induction answers arbitrary: out k stream)
  case Nil
  then show ?case by (simp split: if_splits)
next
  case (Cons a answers)
  show ?case
  proof (cases "k = 0 \<or> a = Interrupted \<or> a = Io_failed")
    case True
    then show ?thesis
      using Cons.prems Cons.IH [of out k stream] by (cases "k = 0") auto
  next
    case False
    then obtain m where m: "a = Transferred m" "k \<noteq> 0" by (cases a) auto
    define got where "got = take (min m k) stream"
    from Cons.prems m have step:
      "read_all answers (out @ got) (k - length got) (drop (length got) stream) = Some (Some bytes, rest, stream')"
      by (auto simp: got_def Let_def split: if_splits)
    have len: "length got \<le> k" "length got \<le> length stream" by (auto simp: got_def)
    have "got = take (length got) stream" by (cases "min m k \<le> length stream") (auto simp: got_def min_def)
    note len = len(1) this len(2)
    have "take k stream = take (length got) stream @ take (k - length got) (drop (length got) stream)"
      using len(1) by (metis le_add_diff_inverse take_add)
    then show ?thesis using Cons.IH [OF step] len by auto
  qed
qed

lemma write_all_complete:
  "write_all answers data stream = Some (True, rest, stream') \<Longrightarrow> stream' = stream @ data"
proof (induction answers arbitrary: data stream)
  case (Cons a answers)
  then show ?case by (cases "data = []") (fastforce split: io_result.splits)+
qed (simp split: if_splits)

text \<open>The worker's loop is the parent's two loops.\<close>

lemma transfer_write:
  "map_option (\<lambda>(sent, _, rest, stream'). (sent, rest, stream')) (transfer True answers data (length data) stream)
    = write_all answers data stream"
proof (induction answers arbitrary: data stream)
  case Nil
  then show ?case by simp
next
  case (Cons a answers)
  then show ?case
    by (cases "data = []") (auto simp: Let_def min_def simp flip: Cons split: io_result.split)
qed

lemma transfer_read:
  "map_option (\<lambda>(ok, bytes, rest, stream'). (if ok then Some bytes else None, rest, stream'))
      (transfer False answers out n stream) = read_all answers out n stream"
proof (induction answers arbitrary: out n stream)
  case Nil
  then show ?case by simp
next
  case (Cons a answers)
  then show ?case
    by (cases "n = 0") (auto simp: Let_def split: io_result.split)
qed

section \<open>Frames\<close>

lemma size_bytes_length [simp]: "length (size_bytes w) = 4"
  by (simp add: size_bytes_def)

lemma bytes_size_bytes [simp]: "bytes_size (size_bytes w) = w"
proof -
  have "unat (drop_bit k w) = unat w div 2 ^ k" for k
    using unat_drop_bit_eq [of k w] unfolding drop_bit_eq_div [of k "unat w"] .
  then have bytes: "size_bytes w = map char_of [unat w div 16777216, unat w div 65536, unat w div 256, unat w]"
    by (simp only: size_bytes_def list.map) simp
  have split: "x = 256 * (x div 256) + x mod 256" "x div 256 = 256 * (x div 65536) + x div 256 mod 256"
    "x div 65536 = 256 * (x div 16777216) + x div 65536 mod 256" for x :: nat
    using mult_div_mod_eq [of 256 "x div 256"] mult_div_mod_eq [of 256 "x div 65536"]
    by (simp_all flip: div_mult2_eq)
  have "unat w < 2 ^ 32" using unsigned_less [of w] by simp
  then have top: "unat w div 16777216 < 256" by simp
  have "unat w div 16777216 * 256 * 256 * 256 + unat w div 65536 mod 256 * 256 * 256
      + unat w div 256 mod 256 * 256 + unat w mod 256 = unat w"
    using split [of "unat w"] by linarith
  then have "foldl (\<lambda>acc c. acc * 256 + of_char c) 0 (size_bytes w) = unat w"
    using top by (simp add: bytes algebra_simps)
  then show ?thesis by (simp add: bytes_size_def)
qed

definition frame :: "'j json_text_lib \<Rightarrow> 'j \<Rightarrow> string" where
  "frame W v = size_bytes (uint32_of_size (length (writeString W v))) @ writeString W v"

text \<open>
  A value that survives being written and read back, in a message of legal size. JsonCpp promises
  this for values whose strings are valid UTF-8.
\<close>

definition carried :: "'j json_text_lib \<Rightarrow> 'j \<Rightarrow> bool" where
  "carried W v \<longleftrightarrow> parseText W (writeString W v) = Some v
     \<and> writeString W v \<noteq> [] \<and> length (writeString W v) \<le> maximum_message_size"

abbreviation frame_length :: "'j json_text_lib \<Rightarrow> 'j \<Rightarrow> nat" where
  "frame_length W v \<equiv> 4 + length (writeString W v)"

lemma send_message_frame:
  assumes "plentiful answers (frame_length W v)" "length (writeString W v) \<le> maximum_message_size"
  shows "\<exists>rest. send_message W answers v stream = Some (True, rest, stream @ frame W v)"
proof -
  let ?size = "size_bytes (uint32_of_size (length (writeString W v)))"
  obtain rest where "write_all answers ?size stream = Some (True, rest, stream @ ?size)"
    "plentiful rest (length (writeString W v))"
    using write_all_plentiful [OF assms(1), of ?size stream] by auto
  then show ?thesis
    using write_all_plentiful [of rest "length (writeString W v)" "writeString W v" "stream @ ?size"] assms(2)
    by (auto simp: send_message_def frame_def Let_def)
qed

lemma receive_message_frame:
  assumes "carried W v" "isObject J v" "plentiful answers (frame_length W v)"
  shows "receive_message J W answers (frame W v @ tail) = Some (Inr v)"
proof -
  let ?body = "writeString W v" and ?size = "size_bytes (uint32_of_size (length (writeString W v)))"
  have len: "length ?body < 2 ^ 32" "0 < length ?body" "length ?body \<le> maximum_message_size"
    using assms(1) by (auto simp: carried_def maximum_message_size_def)
  then have size: "unat (uint32_of_size (length ?body)) = length ?body"
    by (simp add: uint32_of_size_def unsigned_of_nat take_bit_nat_eq_self)
  obtain rest where rest: "read_all answers [] 4 (frame W v @ tail) = Some (Some ?size, rest, ?body @ tail)"
    "plentiful rest (length ?body)"
    using read_all_plentiful [OF assms(3), of 4 "frame W v @ tail" "[]"] by (auto simp: frame_def)
  obtain rest' where "read_all rest [] (length ?body) (?body @ tail) = Some (Some ?body, rest', tail)"
    using read_all_plentiful [OF rest(2), of "length ?body" "?body @ tail" "[]"] by auto
  then show ?thesis
    using rest len size assms(1,2) by (simp add: receive_message_def carried_def Let_def)
qed

text \<open>The worker reads a frame as the parent does, and writes one as the parent does.\<close>

lemma transfer_readE:
  assumes "transfer False answers out n stream = r"
  shows "read_all answers out n stream
    = map_option (\<lambda>(ok, bytes, rest, stream'). (if ok then Some bytes else None, rest, stream')) r"
  using assms transfer_read by metis

lemma receive_as_parent:
  "receive J W answers stream
    = map_option (\<lambda>r. case r of Inl _ \<Rightarrow> None | Inr v \<Rightarrow> Some v) (receive_message J W answers stream)"
proof (cases "transfer False answers [] 4 stream")
  case None
  then show ?thesis using transfer_readE [OF None] by (simp add: receive_def receive_message_def)
next
  case (Some r)
  obtain ok encoded rest stream' where r: "r = (ok, encoded, rest, stream')" by (cases r)
  let ?n = "unat (bytes_size encoded)"
  show ?thesis
  proof (cases "ok \<and> \<not> (?n = 0 \<or> ?n > maximum_message_size)")
    case False
    then show ?thesis
      using Some r transfer_readE [OF Some] by (auto simp: receive_def receive_message_def Let_def)
  next
    case True
    then show ?thesis
      using Some r transfer_readE [OF Some] transfer_readE [of rest "[]" ?n stream', OF refl]
      by (auto simp: receive_def receive_message_def Let_def split: option.splits)
  qed
qed

lemma send_as_parent:
  assumes "length (writeString W v) \<le> maximum_message_size"
  shows "send W answers v stream
    = map_option (\<lambda>(sent, _, stream'). (sent, stream')) (send_message W answers v stream)"
proof -
  let ?body = "writeString W v" and ?size = "size_bytes (uint32_of_size (length (writeString W v)))"
  have size: "write_all answers ?size stream
      = map_option (\<lambda>(sent, _, rest, stream'). (sent, rest, stream')) (transfer True answers ?size 4 stream)"
    using transfer_write [of answers ?size stream] by simp
  have body: "write_all rest ?body stream'
      = map_option (\<lambda>(sent, _, rest', stream''). (sent, rest', stream'')) (transfer True rest ?body (length ?body) stream')"
    for rest stream' by (rule transfer_write [symmetric])
  show ?thesis
  proof (cases "transfer True answers ?size 4 stream")
    case (Some r)
    then show ?thesis
      using assms by (cases r) (auto simp: send_def send_message_def Let_def size body option.map_comp comp_def
          case_prod_unfold split: bool.splits)
  qed (use assms in \<open>simp add: send_def send_message_def Let_def size\<close>)
qed

section \<open>The worker answers what its executor answers\<close>

text \<open>\<^verbatim>\<open>Json::Value\<close> has null, which is not a string, for an absent member.\<close>

definition null_members :: "'j json_lib \<Rightarrow> bool" where
  "null_members J \<longleftrightarrow> \<not> isString J (nullValue J) \<and> (\<forall>k. member J (nullValue J) k = nullValue J)"

lemma null_members_plain: "null_members plain_json"
  by (auto simp: null_members_def plain_json_def json_member_def)

lemma worker_request_payload:
  assumes "json_laws J"
  shows "worker_request J (request_payload J q) = Some q"
  using assms by (simp add: worker_request_def request_payload_def json_object_read json_scalars)

lemma request_payload_object: "json_laws J \<Longrightarrow> isObject J (request_payload J q)"
  by (simp add: request_payload_def json_object_object json_scalars)

definition result_in_range :: "executor_result \<Rightarrow> bool" where
  "result_in_range r = (case r of Inl _ \<Rightarrow> True | Inr ex \<Rightarrow> int32_range (exit_code ex))"

lemma WIFEXITED_exit_status [simp]: "WIFEXITED (exit_status n)"
  by (simp add: WIFEXITED_def exit_status_def take_bit_push_bit)

lemma WEXITSTATUS_exit_status [simp]: "WEXITSTATUS (exit_status 0) = 0"
  by (simp add: WEXITSTATUS_def exit_status_def)

lemma decode_response_worker:
  assumes "json_laws J" "null_members J" "result_in_range r"
  shows "decode_response J (exit_status 0) (worker_response J r) = r"
proof (cases r)
  case (Inl err)
  then show ?thesis
    using assms(1) by (cases err) (simp add: decode_response_def worker_response_def json_object_read json_scalars)
next
  case (Inr ex)
  have "int64_range (exit_code ex)" "int32_range (exit_code ex)"
    using assms(3) Inr by (auto simp: result_in_range_def int32_range_def int64_range_def)
  moreover have "\<not> isString J (member J (nullValue J) k)" for k
    using assms(2) by (simp add: null_members_def)
  ultimately show ?thesis
    using assms(1) Inr
    by (cases ex; cases "execution_error_type ex")
      (simp_all add: decode_response_def worker_response_def json_object_read json_scalars isInt_def)
qed

lemma worker_response_object: "json_laws J \<Longrightarrow> isObject J (worker_response J r)"
  by (simp add: worker_response_def json_object_object json_scalars split: sum.splits executor_error.splits)

lemma worker_descriptor_arguments:
  assumes "3 \<le> d" "int32_range d"
  shows "worker_descriptor (worker_arguments path d mount) = Some d"
proof -
  have "int64_range d" using assms(2) by (auto simp: int32_range_def int64_range_def)
  then show ?thesis
    using assms by (simp add: worker_descriptor_def worker_arguments_def from_chars_int_def numeral_nat)
qed

lemma wait_for_child_plentiful: "plentiful answers 1 \<Longrightarrow> wait_for_child answers status = Some status"
  by (induction answers status rule: wait_for_child.induct) auto

text \<open>The kernel calls around the messages succeed.\<close>

definition healthy_channel :: "channel_env \<Rightarrow> bool" where
  "healthy_channel e \<longleftrightarrow> fork_succeeds e \<and> fcntl_succeeds e \<and> execve_succeeds e \<and> plentiful (wait_answers e) 1
     \<and> (case socketpair_result e of None \<Rightarrow> False
        | Some (a, b) \<Rightarrow> a \<noteq> b \<and> 3 \<le> b \<and> int32_range b \<and> b \<in> set (open_descriptors e))"

lemma healthy_channelE:
  assumes "healthy_channel e"
  obtains a b where "socketpair_result e = Some (a, b)" "a \<noteq> b" "3 \<le> b" "int32_range b"
    "b \<in> set (open_descriptors e)"
  using assms by (auto simp: healthy_channel_def split: option.splits)

lemma inherited_socket:
  "a \<noteq> b \<Longrightarrow> b \<in> set (open_descriptors e) \<Longrightarrow> b \<in> set (inherited_descriptors e (a, b))"
  by (auto simp: inherited_descriptors_def close_untrusted_descriptors_def)

text \<open>Besides its channel, the worker has the standard descriptors only.\<close>

lemma inherited_only:
  assumes "\<forall>d \<in> set (open_descriptors e). 0 \<le> d \<and> d < (if configured_maximum e > 3 then configured_maximum e else 65536)"
  shows "set (inherited_descriptors e (a, b)) \<subseteq> {0, 1, 2, b}"
  using assms by (auto simp: inherited_descriptors_def close_untrusted_descriptors_def Let_def split: if_splits)

lemma worker_main_runs:
  assumes "json_laws J" "worker_descriptor argv \<noteq> None" "run (argv ! 4) q = Some r"
    and "carried W (request_payload J q)" "carried W (worker_response J r)"
    and "plentiful reads (frame_length W (request_payload J q))"
    and "plentiful writes (frame_length W (worker_response J r))"
  shows "worker_main J W run argv reads writes (frame W (request_payload J q)) = Some (0, frame W (worker_response J r))"
proof -
  have "receive_message J W reads (frame W (request_payload J q) @ []) = Some (Inr (request_payload J q))"
    by (rule receive_message_frame) (use assms request_payload_object in auto)
  then have "receive J W reads (frame W (request_payload J q)) = Some (Some (request_payload J q))"
    by (simp add: receive_as_parent)
  moreover have size: "length (writeString W (worker_response J r)) \<le> maximum_message_size"
    using assms(5) by (simp add: carried_def)
  obtain rest where "send_message W writes (worker_response J r) [] = Some (True, rest, [] @ frame W (worker_response J r))"
    using send_message_frame [OF assms(7) size] by blast
  then have "send W writes (worker_response J r) [] = Some (True, frame W (worker_response J r))"
    by (simp add: send_as_parent size)
  ultimately show ?thesis
    using assms(1-3) by (simp add: worker_main_def worker_request_payload)
qed

text \<open>The parent's half: what it does once the worker has written its response and exited.\<close>

lemma isolated_run_reply:
  assumes "json_laws J" "null_members J" "delegation_error x = None" "healthy_channel e"
    and "socketpair_result e = Some (a, b)" "result_in_range r"
    and "carried W (request_payload J q)" "carried W (worker_response J r)"
    and "plentiful (send_answers e) (frame_length W (request_payload J q))"
    and "plentiful (receive_answers e) (frame_length W (worker_response J r))"
    and "launch e worker (a, b) (worker_arguments (worker_path x) b (cgroupv2_mount x)) (frame W (request_payload J q))
      = Some (frame W (worker_response J r), exit_status 0)"
  shows "isolated_run J W x e worker q = Some r"
proof -
  obtain rest where sent: "send_message W (send_answers e) (request_payload J q) []
      = Some (True, rest, [] @ frame W (request_payload J q))"
    using send_message_frame [OF assms(9), where stream = "[]"] assms(7) by (auto simp: carried_def)
  have "receive_message J W (receive_answers e) (frame W (worker_response J r) @ []) = Some (Inr (worker_response J r))"
    by (rule receive_message_frame) (use assms worker_response_object in auto)
  moreover have "wait_for_child (wait_answers e) (exit_status 0) = Some (exit_status 0)"
    by (rule wait_for_child_plentiful) (use assms(4) in \<open>simp add: healthy_channel_def\<close>)
  ultimately show ?thesis
    using assms(3-5,11) sent decode_response_worker [OF assms(1,2,6)]
    by (simp add: isolated_run_def healthy_channel_def)
qed

text \<open>
  Running a program in a worker process is transparent: when the kernel calls succeed, in however
  many pieces and with however many interruptions the bytes move, and the request and the response are
  messages of legal size that JsonCpp reads back, the executor of the parent returns exactly what the
  executor inside the worker returned, results and errors alike, for the control group the parent was
  given. In particular it returns.
\<close>

lemma isolated_run_transparent:
  assumes "json_laws J" "null_members J" "delegation_error x = None" "healthy_channel e"
    and "run (cgroupv2_mount x) q = Some r" "result_in_range r"
    and "carried W (request_payload J q)" "carried W (worker_response J r)"
    and "plentiful (send_answers e) (frame_length W (request_payload J q))"
    and "plentiful reads (frame_length W (request_payload J q))"
    and "plentiful writes (frame_length W (worker_response J r))"
    and "plentiful (receive_answers e) (frame_length W (worker_response J r))"
  shows "isolated_run J W x e (worker_process J W run reads writes) q = Some r"
proof -
  obtain a b where ab: "socketpair_result e = Some (a, b)" "a \<noteq> b" "3 \<le> b" "int32_range b"
    "b \<in> set (open_descriptors e)"
    using assms(4) by (rule healthy_channelE)
  let ?argv = "worker_arguments (worker_path x) b (cgroupv2_mount x)"
  have descriptor: "worker_descriptor ?argv = Some b" by (rule worker_descriptor_arguments) (use ab in auto)
  have "run (?argv ! 4) q = Some r" using assms(5) by (simp add: worker_arguments_def numeral_nat)
  then have "worker_main J W run ?argv reads writes (frame W (request_payload J q)) = Some (0, frame W (worker_response J r))"
    using descriptor assms by (intro worker_main_runs) auto
  then have "worker_process J W run reads writes ?argv (inherited_descriptors e (a, b)) (frame W (request_payload J q))
      = Some (frame W (worker_response J r), exit_status 0)"
    using inherited_socket [of a b e] ab descriptor by (simp add: worker_process_def)
  then have "launch e (worker_process J W run reads writes) (a, b) ?argv (frame W (request_payload J q))
      = Some (frame W (worker_response J r), exit_status 0)"
    using assms(4) by (simp add: launch_def healthy_channel_def)
  then show ?thesis
    using assms ab(1) by (intro isolated_run_reply)
qed

text \<open>A sandbox that answers one thing, and a channel on which every call moves two bytes.\<close>

definition two_messages :: "json \<Rightarrow> json \<Rightarrow> json json_text_lib" where
  "two_messages a b = \<lparr>writeString = \<lambda>v. if v = a then ''Q'' else ''R'',
     parseText = \<lambda>t. if t = ''Q'' then Some a else if t = ''R'' then Some b else None\<rparr>"

definition slow_answers :: "io_result list" where
  "slow_answers = [Transferred 2, Interrupted, Transferred 2, Transferred 2, Transferred 2, Transferred 2]"

definition slow_channel :: channel_env where
  "slow_channel = \<lparr>socketpair_result = Some (7, 8), open_descriptors = [0, 1, 2, 5, 7, 8],
     closes_on_exec = (\<lambda>d. d = 8), configured_maximum = 1024, fork_succeeds = True, fcntl_succeeds = True,
     execve_succeeds = True, send_answers = slow_answers, receive_answers = slow_answers,
     wait_answers = [Interrupted, Transferred 1]\<rparr>"

definition sample_run :: execution_request where
  "sample_run = \<lparr>xr_language = ''python'', xr_source_code = ''print(3)'', xr_standard_input = []\<rparr>"

definition sample_result :: execution_result where
  "sample_result = \<lparr>exit_code = 0, standard_output = ''3'', standard_error = [], timed_out = False,
     execution_error_type = None\<rparr>"

abbreviation sample_text :: "json json_text_lib" where
  "sample_text \<equiv> two_messages (request_payload plain_json sample_run) (worker_response plain_json (Inr sample_result))"

lemma sample_channel:
  "healthy_channel slow_channel" "socketpair_result slow_channel = Some (7, 8)" "result_in_range (Inr sample_result)"
  "carried sample_text (request_payload plain_json sample_run)"
  "carried sample_text (worker_response plain_json (Inr sample_result))"
  "plentiful slow_answers (frame_length sample_text v)"
  "plentiful (send_answers slow_channel) (frame_length sample_text v)"
  "plentiful (receive_answers slow_channel) (frame_length sample_text v)"
proof -
  have "worker_response plain_json (Inr sample_result) \<noteq> request_payload plain_json sample_run"
    by code_simp
  then show "carried sample_text (request_payload plain_json sample_run)"
    "carried sample_text (worker_response plain_json (Inr sample_result))"
    by (simp_all add: carried_def two_messages_def maximum_message_size_def)
qed (simp_all add: healthy_channel_def slow_channel_def int32_range_def result_in_range_def sample_result_def
    slow_answers_def two_messages_def)

section \<open>A worker that misbehaves\<close>

lemma receive_message_Inr:
  assumes "receive_message J W answers stream = Some (Inr v)"
  shows "\<exists>encoded body tail. stream = encoded @ body @ tail \<and> length encoded = 4
    \<and> length body = unat (bytes_size encoded) \<and> body \<noteq> [] \<and> length body \<le> maximum_message_size
    \<and> parseText W body = Some v \<and> isObject J v"
proof -
  obtain encoded rest stream' where head: "read_all answers [] 4 stream = Some (Some encoded, rest, stream')"
    using assms by (auto simp: receive_message_def split: option.splits)
  let ?n = "unat (bytes_size encoded)"
  obtain body rest' tail where body: "read_all rest [] ?n stream' = Some (Some body, rest', tail)"
      "?n \<noteq> 0" "?n \<le> maximum_message_size" "parseText W body = Some v" "isObject J v"
    using assms head by (auto simp: receive_message_def Let_def split: option.splits if_splits)
  from read_all_prefix [OF head] read_all_prefix [OF body(1)]
  have parts: "encoded = take 4 stream" "body = take ?n stream'" "tail = drop ?n stream'"
      "length encoded = 4" "length body = ?n"
    and "stream' = drop 4 stream"
    by auto
  then have "stream = encoded @ body @ tail" by (metis append_take_drop_id)
  moreover have "body \<noteq> []" using body(2) parts(5) by auto
  ultimately show ?thesis
    using body(3-5) parts(4,5) by (intro exI [of _ encoded] exI [of _ body] exI [of _ tail]) simp
qed

text \<open>
  C21: Whatever the worker process does (crash, be killed, write garbage or nothing), the parent reports
  an execution result only when a complete frame of legal size arrived whose JSON object has every
  member of a result with its type and no error, and the process was not seen to fail; the result is
  then what the frame says. Everything else is an executor error.
\<close>

theorem isolated_run_no_forged_result:
  assumes "isolated_run J W x e worker q = Some (Inr ex)"
  shows "\<exists>sockets sent written status encoded body tail v.
    socketpair_result e = Some sockets \<and> launch e worker sockets (worker_arguments (worker_path x) (snd sockets) (cgroupv2_mount x)) sent
       = Some (written, status)
    \<and> written = encoded @ body @ tail \<and> length encoded = 4 \<and> length body = unat (bytes_size encoded)
    \<and> 0 < length body \<and> length body \<le> maximum_message_size
    \<and> parseText W body = Some v \<and> isObject J v \<and> decode_response J (exit_status 0) v = Inr ex
    \<and> (if Io_failed \<in> set (wait_answers e) then True else WIFEXITED status \<and> WEXITSTATUS status = 0)"
proof -
  obtain sockets sent written status status' v where
    ran: "socketpair_result e = Some sockets \<and> launch e worker sockets (worker_arguments (worker_path x) (snd sockets) (cgroupv2_mount x)) sent
       = Some (written, status)" "receive_message J W (receive_answers e) written = Some (Inr v)"
    and wait: "wait_for_child (wait_answers e) status = Some status'" and decoded: "decode_response J status' v = Inr ex"
    using assms unfolding isolated_run_def
    by (auto split: option.splits if_splits prod.splits bool.splits sum.splits)
  have "wait_for_child as status = Some t \<Longrightarrow> Io_failed \<notin> set as \<Longrightarrow> t = status" for as status t
    by (induction as status rule: wait_for_child.induct) auto
  moreover have "WIFEXITED status' \<and> WEXITSTATUS status' = 0" and "decode_response J (exit_status 0) v = Inr ex"
    using decoded by (auto simp: decode_response_def split: if_splits)
  ultimately show ?thesis
    using ran(1) wait receive_message_Inr [OF ran(2)] by fastforce
qed

theorem isolated_run_no_forged_result_witness:
  "\<exists>sockets sent written status encoded body tail v.
    socketpair_result slow_channel = Some sockets \<and> launch slow_channel (\<lambda>_ _ _. Some (frame sample_text (worker_response plain_json (Inr sample_result)), exit_status 0))
      sockets (worker_arguments ''w'' (snd sockets) ''g'') sent = Some (written, status)
    \<and> written = encoded @ body @ tail \<and> length encoded = 4 \<and> length body = unat (bytes_size encoded)
    \<and> 0 < length body \<and> length body \<le> maximum_message_size
    \<and> parseText sample_text body = Some v \<and> isObject plain_json v
    \<and> decode_response plain_json (exit_status 0) v = Inr sample_result
    \<and> (if Io_failed \<in> set (wait_answers slow_channel) then True else WIFEXITED status \<and> WEXITSTATUS status = 0)"
proof -
  let ?worker = "\<lambda>_ _ _. Some (frame sample_text (worker_response plain_json (Inr sample_result)), exit_status 0)"
  have "isolated_run plain_json sample_text (new_isolated_executor ''w'' (Inr ''g'')) slow_channel ?worker sample_run
      = Some (Inr sample_result)"
    by (rule isolated_run_reply [where a = 7 and b = 8])
      (rule json_laws_plain null_members_plain sample_channel
        | simp add: new_isolated_executor_def launch_def slow_channel_def)+
  from isolated_run_no_forged_result [OF this] show ?thesis
    by (simp add: new_isolated_executor_def)
qed

end
