(* ===== verification/Supervisor.thy ===== *)
theory Supervisor
  imports Judge_Channel
begin

text \<open>
  The supervision of one sandboxed process, from \<^verbatim>\<open>backend/src/nsjail-python-executor.cpp\<close>:
  \<^verbatim>\<open>drain\<close> and the loop of \<^verbatim>\<open>run_isolated\<close>, which collects the output of the
  process up to a limit, asks it to end when the limit or the deadline is passed, kills it when it does
  not, and ends when it has been reaped and both pipes are closed.

  What the kernel answers in one round of the loop is a \<open>tick\<close>. The loop runs on the list of ticks
  that were observed and has the value None when they end before it does; when it ends is a theorem about
  a kernel that reacts to the signals sent (\<open>kernel_laws\<close>) and a program on it. Times are in
  milliseconds. Byte counts are natural numbers: they count bytes that were read, far fewer than
  \<^verbatim>\<open>std::size_t\<close> holds.
\<close>

section \<open>Reading a pipe\<close>

text \<open>A call of \<^verbatim>\<open>read\<close> on a non-blocking pipe; \<open>Bytes []\<close> is the end of the stream.\<close>

datatype pipe_read =
    Bytes string
  | Read_interrupted
  | Would_block
  | Read_failed

text \<open>
  \<^verbatim>\<open>drain\<close>: whether the pipe is still open, the text collected, the bytes read in total from
  both pipes, and whether they are more than the limit. None: the pipe never ran dry.
\<close>

fun drain :: "nat \<Rightarrow> pipe_read list \<Rightarrow> string \<Rightarrow> nat \<Rightarrow> bool \<Rightarrow> (bool \<times> string \<times> nat \<times> bool) option" where
  "drain limit [] destination seen exceeded = None"
| "drain limit (Bytes b # reads) destination seen exceeded =
     (if b \<noteq> [] then
        let remaining = (if seen < limit then limit - seen else 0)
        in drain limit reads (destination @ take (min (length b) remaining) b) (seen + length b)
             (exceeded \<or> seen + length b > limit)
      else Some (False, destination, seen, exceeded))"
| "drain limit (Read_interrupted # reads) destination seen exceeded = drain limit reads destination seen exceeded"
| "drain limit (Would_block # reads) destination seen exceeded = Some (True, destination, seen, exceeded)"
| "drain limit (Read_failed # reads) destination seen exceeded = Some (False, destination, seen, exceeded)"

section \<open>One round\<close>

datatype signal = SIGTERM | SIGKILL

definition supervisor_grace_period :: int where
  "supervisor_grace_period = 250"

record tick =
  stdout_reads :: "pipe_read list"
  stderr_reads :: "pipe_read list"
  now_ms :: int
  child_status :: "wait_status option"

record supervision =
  sv_out :: string
  sv_err :: string
  sv_total :: nat
  sv_exceeded :: bool
  sv_out_open :: bool
  sv_err_open :: bool
  sv_timed_out :: bool
  sv_exited :: bool
  sv_requested :: bool
  sv_status :: wait_status
  sv_kill_at :: int
  sv_signals :: "(int \<times> signal) list"

definition drain_stdout :: "nat \<Rightarrow> tick \<Rightarrow> supervision \<Rightarrow> supervision option" where
  "drain_stdout limit t s =
     (if sv_out_open s then
        map_option (\<lambda>(alive, text, seen, exceeded).
            s\<lparr>sv_out_open := alive, sv_out := text, sv_total := seen, sv_exceeded := exceeded\<rparr>)
          (drain limit (stdout_reads t) (sv_out s) (sv_total s) (sv_exceeded s))
      else Some s)"

definition drain_stderr :: "nat \<Rightarrow> tick \<Rightarrow> supervision \<Rightarrow> supervision option" where
  "drain_stderr limit t s =
     (if sv_err_open s then
        map_option (\<lambda>(alive, text, seen, exceeded).
            s\<lparr>sv_err_open := alive, sv_err := text, sv_total := seen, sv_exceeded := exceeded\<rparr>)
          (drain limit (stderr_reads t) (sv_err s) (sv_total s) (sv_exceeded s))
      else Some s)"

definition request_termination :: "int \<Rightarrow> int \<Rightarrow> supervision \<Rightarrow> supervision" where
  "request_termination deadline now s =
     (if \<not> sv_requested s \<and> (sv_exceeded s \<or> now \<ge> deadline)
      then s\<lparr>sv_timed_out := \<not> sv_exceeded s, sv_requested := True,
             sv_kill_at := now + supervisor_grace_period, sv_signals := sv_signals s @ [(now, SIGTERM)]\<rparr>
      else s)"

definition force_kill :: "int \<Rightarrow> supervision \<Rightarrow> supervision" where
  "force_kill now s =
     (if sv_requested s \<and> \<not> sv_exited s \<and> now \<ge> sv_kill_at s
      then s\<lparr>sv_signals := sv_signals s @ [(now, SIGKILL)]\<rparr> else s)"

definition reap :: "wait_status option \<Rightarrow> supervision \<Rightarrow> supervision" where
  "reap waited s =
     (if sv_exited s then s
      else case waited of None \<Rightarrow> s | Some status \<Rightarrow> s\<lparr>sv_status := status, sv_exited := True\<rparr>)"

definition supervise_round :: "nat \<Rightarrow> int \<Rightarrow> tick \<Rightarrow> supervision \<Rightarrow> supervision option" where
  "supervise_round limit deadline t s =
     Option.bind (drain_stdout limit t s) (\<lambda>s1. map_option
       (\<lambda>s2. reap (child_status t) (force_kill (now_ms t) (request_termination deadline (now_ms t) s2)))
       (drain_stderr limit t s1))"

definition supervising :: "supervision \<Rightarrow> bool" where
  "supervising s \<longleftrightarrow> \<not> sv_exited s \<or> sv_out_open s \<or> sv_err_open s"

fun supervise :: "nat \<Rightarrow> int \<Rightarrow> tick list \<Rightarrow> supervision \<Rightarrow> supervision option" where
  "supervise limit deadline ticks s =
     (if \<not> supervising s then Some s
      else case ticks of [] \<Rightarrow> None
        | t # rest \<Rightarrow> Option.bind (supervise_round limit deadline t s) (supervise limit deadline rest))"

declare supervise.simps [simp del]

definition supervision_start :: "int \<Rightarrow> supervision" where
  "supervision_start deadline = \<lparr>sv_out = [], sv_err = [], sv_total = 0, sv_exceeded = False,
     sv_out_open = True, sv_err_open = True, sv_timed_out = False, sv_exited = False, sv_requested = False,
     sv_status = 0, sv_kill_at = deadline + supervisor_grace_period, sv_signals = []\<rparr>"

section \<open>The result\<close>

definition nsjail_failed_to_initialize :: "wait_status \<Rightarrow> string \<Rightarrow> bool" where
  "nsjail_failed_to_initialize status log \<longleftrightarrow>
     (\<not> WIFEXITED status \<or> WEXITSTATUS status \<noteq> 0) \<and> (contains log ''[F]'' \<or> contains log (''Couldn'' @ [CHR 0x27, CHR ''t'']))"

definition execution_exit_code :: "wait_status \<Rightarrow> int" where
  "execution_exit_code status =
     (if WIFEXITED status then WEXITSTATUS status
      else if WIFSIGNALED status then 128 + WTERMSIG status
      else 1)"

definition output_limit_exit_code :: int where
  "output_limit_exit_code = 120"

text \<open>The last lines of \<^verbatim>\<open>run_isolated\<close>.\<close>

definition supervised_result :: "supervision \<Rightarrow> execution_result" where
  "supervised_result s =
     \<lparr>exit_code = (if sv_exceeded s then output_limit_exit_code else execution_exit_code (sv_status s)),
      standard_output = sv_out s,
      standard_error = (if sv_exceeded s
         then (if sv_err s \<noteq> [] then sv_err s @ [newline] else sv_err s) @ ''Output limit exceeded''
         else sv_err s),
      timed_out = sv_timed_out s,
      execution_error_type = (if sv_exceeded s then Some ''Output Limit Exceeded'' else None)\<rparr>"

text \<open>What the kernel answers to the calls around the loop; errors are described by \<^verbatim>\<open>strerror\<close>.\<close>

record run_env =
  input_opens :: bool
  pipes_made :: bool
  fork_error :: "string option"
  dup_errno :: "int option"
  exec_errno :: "int option"
  start_ms :: int
  observed_ticks :: "tick list"
  jail_log :: string

text \<open>
  The child before \<^verbatim>\<open>execve\<close>: the error number it writes to the parent, when a descriptor cannot
  be duplicated or NsJail cannot be executed.
\<close>

definition execute_nsjail :: "run_env \<Rightarrow> int option" where
  "execute_nsjail e = (case dup_errno e of Some n \<Rightarrow> Some n | None \<Rightarrow> exec_errno e)"

definition maximum_log_bytes :: nat where
  "maximum_log_bytes = 64 * 1024"

definition read_bounded_file :: "string \<Rightarrow> nat \<Rightarrow> string" where
  "read_bounded_file contents limit = take limit contents"

definition supervised_run :: "(int \<Rightarrow> string) \<Rightarrow> nat \<Rightarrow> int \<Rightarrow> run_env \<Rightarrow> executor_result option" where
  "supervised_run strerror limit wall_time_limit e =
     (if \<not> input_opens e then Some (Inl (ExecutorError ''Could not open executor input''))
      else if \<not> pipes_made e then Some (Inl (ExecutorError ''Could not establish executor communication pipes''))
      else case fork_error e of
          Some m \<Rightarrow> Some (Inl (ExecutorError (''Could not launch NsJail supervisor: '' @ m)))
        | None \<Rightarrow>
          let deadline = start_ms e + wall_time_limit
          in case supervise limit deadline (observed_ticks e) (supervision_start deadline) of
              None \<Rightarrow> None
            | Some s \<Rightarrow>
                (case execute_nsjail e of
                   Some n \<Rightarrow> Some (Inl (ExecutorError (''NsJail could not be executed: '' @ strerror n)))
                 | None \<Rightarrow>
                     if \<not> sv_timed_out s \<and> \<not> sv_exceeded s
                       \<and> nsjail_failed_to_initialize (sv_status s) (read_bounded_file (jail_log e) maximum_log_bytes)
                     then Some (Inl (ExecutorError ''NsJail could not establish the sandbox''))
                     else Some (Inr (supervised_result s))))"

section \<open>What a pipe delivers\<close>

text \<open>
  How the calls end: None when the pipe never runs dry, otherwise whether it is still open; and the
  bytes read until then. A stream is what all rounds read until the pipe is closed.
\<close>

fun pipe_outcome :: "pipe_read list \<Rightarrow> bool option" where
  "pipe_outcome [] = None"
| "pipe_outcome (Bytes b # reads) = (if b \<noteq> [] then pipe_outcome reads else Some False)"
| "pipe_outcome (Read_interrupted # reads) = pipe_outcome reads"
| "pipe_outcome (Would_block # reads) = Some True"
| "pipe_outcome (Read_failed # reads) = Some False"

fun read_bytes :: "pipe_read list \<Rightarrow> string" where
  "read_bytes [] = []"
| "read_bytes (Bytes b # reads) = (if b \<noteq> [] then b @ read_bytes reads else [])"
| "read_bytes (Read_interrupted # reads) = read_bytes reads"
| "read_bytes (Would_block # reads) = []"
| "read_bytes (Read_failed # reads) = []"

fun stream_bytes :: "pipe_read list list \<Rightarrow> string" where
  "stream_bytes [] = []"
| "stream_bytes (reads # rounds) =
     read_bytes reads @ (if pipe_outcome reads = Some True then stream_bytes rounds else [])"

lemma drain_outcome: "map_option fst (drain limit reads destination seen exceeded) = pipe_outcome reads"
  by (induction limit reads destination seen exceeded rule: drain.induct) (auto simp: Let_def)

lemma drain_effect:
  assumes "drain limit reads destination seen exceeded = Some (alive, destination', seen', exceeded')"
  shows "pipe_outcome reads = Some alive \<and> seen' = seen + length (read_bytes reads)
    \<and> length destination' + min seen limit = length destination + min seen' limit
    \<and> (exceeded = (limit < seen) \<longrightarrow> exceeded' = (limit < seen'))
    \<and> (seen' \<le> limit \<longrightarrow> destination' = destination @ read_bytes reads)"
  using assms
  by (induction limit reads destination seen exceeded rule: drain.induct)
    (auto simp: Let_def min_def split: if_splits)

section \<open>Invariants of the loop\<close>

lemma request_termination_frame [simp]:
  "sv_out (request_termination d n s) = sv_out s" "sv_err (request_termination d n s) = sv_err s"
  "sv_total (request_termination d n s) = sv_total s" "sv_exceeded (request_termination d n s) = sv_exceeded s"
  "sv_out_open (request_termination d n s) = sv_out_open s" "sv_err_open (request_termination d n s) = sv_err_open s"
  "sv_exited (request_termination d n s) = sv_exited s"
  by (simp_all add: request_termination_def)

lemma force_kill_frame [simp]:
  "sv_out (force_kill n s) = sv_out s" "sv_err (force_kill n s) = sv_err s"
  "sv_total (force_kill n s) = sv_total s" "sv_exceeded (force_kill n s) = sv_exceeded s"
  "sv_out_open (force_kill n s) = sv_out_open s" "sv_err_open (force_kill n s) = sv_err_open s"
  "sv_exited (force_kill n s) = sv_exited s" "sv_requested (force_kill n s) = sv_requested s"
  "sv_timed_out (force_kill n s) = sv_timed_out s" "sv_kill_at (force_kill n s) = sv_kill_at s"
  by (simp_all add: force_kill_def)

lemma reap_frame [simp]:
  "sv_out (reap w s) = sv_out s" "sv_err (reap w s) = sv_err s" "sv_total (reap w s) = sv_total s"
  "sv_exceeded (reap w s) = sv_exceeded s" "sv_out_open (reap w s) = sv_out_open s"
  "sv_err_open (reap w s) = sv_err_open s" "sv_requested (reap w s) = sv_requested s"
  "sv_timed_out (reap w s) = sv_timed_out s" "sv_kill_at (reap w s) = sv_kill_at s"
  "sv_signals (reap w s) = sv_signals s" "sv_exited (reap w s) \<longleftrightarrow> sv_exited s \<or> w \<noteq> None"
  by (auto simp: reap_def split: option.split)

text \<open>The two pipes are read first; the rest of the round decides on the signals.\<close>

definition reading_only :: "supervision \<Rightarrow> supervision \<Rightarrow> bool" where
  "reading_only s s' \<longleftrightarrow> sv_timed_out s' = sv_timed_out s \<and> sv_exited s' = sv_exited s
     \<and> sv_requested s' = sv_requested s \<and> sv_status s' = sv_status s \<and> sv_kill_at s' = sv_kill_at s
     \<and> sv_signals s' = sv_signals s"

definition consistent :: "nat \<Rightarrow> supervision \<Rightarrow> bool" where
  "consistent limit s \<longleftrightarrow> length (sv_out s) + length (sv_err s) = min (sv_total s) limit
     \<and> sv_exceeded s = (limit < sv_total s)"

definition delivered :: "bool \<Rightarrow> pipe_read list \<Rightarrow> string" where
  "delivered alive reads = (if alive then read_bytes reads else [])"

definition stays_open :: "bool \<Rightarrow> pipe_read list \<Rightarrow> bool" where
  "stays_open alive reads \<longleftrightarrow> alive \<and> pipe_outcome reads = Some True"

lemma supervise_roundE:
  assumes "supervise_round limit deadline t s = Some s'"
  obtains m where "reading_only s m"
    "s' = reap (child_status t) (force_kill (now_ms t) (request_termination deadline (now_ms t) m))"
    "consistent limit s \<longrightarrow> consistent limit m"
    "sv_out_open m = stays_open (sv_out_open s) (stdout_reads t)"
    "sv_err_open m = stays_open (sv_err_open s) (stderr_reads t)"
    "sv_total m = sv_total s + length (delivered (sv_out_open s) (stdout_reads t))
       + length (delivered (sv_err_open s) (stderr_reads t))"
    "sv_total m \<le> limit \<longrightarrow> sv_out m = sv_out s @ delivered (sv_out_open s) (stdout_reads t)
       \<and> sv_err m = sv_err s @ delivered (sv_err_open s) (stderr_reads t)"
    "sv_out_open s \<longrightarrow> pipe_outcome (stdout_reads t) \<noteq> None"
    "sv_err_open s \<longrightarrow> pipe_outcome (stderr_reads t) \<noteq> None"
proof -
  obtain m1 m where m1: "drain_stdout limit t s = Some m1" and m: "drain_stderr limit t m1 = Some m"
    and s': "s' = reap (child_status t) (force_kill (now_ms t) (request_termination deadline (now_ms t) m))"
    using assms by (auto simp: supervise_round_def bind_eq_Some_conv)
  have out: "reading_only s m1 \<and> sv_err m1 = sv_err s \<and> sv_err_open m1 = sv_err_open s
      \<and> sv_out_open m1 = stays_open (sv_out_open s) (stdout_reads t)
      \<and> sv_total m1 = sv_total s + length (delivered (sv_out_open s) (stdout_reads t))
      \<and> (consistent limit s \<longrightarrow> consistent limit m1)
      \<and> (sv_total m1 \<le> limit \<longrightarrow> sv_out m1 = sv_out s @ delivered (sv_out_open s) (stdout_reads t))
      \<and> (sv_out_open s \<longrightarrow> pipe_outcome (stdout_reads t) \<noteq> None)"
    using m1 unfolding drain_stdout_def reading_only_def delivered_def stays_open_def consistent_def
    by (auto split: if_splits dest!: drain_effect)
  have err: "reading_only m1 m \<and> sv_out m = sv_out m1 \<and> sv_out_open m = sv_out_open m1
      \<and> sv_err_open m = stays_open (sv_err_open m1) (stderr_reads t)
      \<and> sv_total m = sv_total m1 + length (delivered (sv_err_open m1) (stderr_reads t))
      \<and> (consistent limit m1 \<longrightarrow> consistent limit m)
      \<and> (sv_total m \<le> limit \<longrightarrow> sv_err m = sv_err m1 @ delivered (sv_err_open m1) (stderr_reads t))
      \<and> (sv_err_open m1 \<longrightarrow> pipe_outcome (stderr_reads t) \<noteq> None)"
    using m unfolding drain_stderr_def reading_only_def delivered_def stays_open_def consistent_def
    by (auto split: if_splits dest!: drain_effect)
  show thesis
  proof (rule that [OF _ s'])
    show "reading_only s m" using out err by (simp add: reading_only_def)
  qed (use out err in auto)
qed

lemma supervise_invariant:
  assumes "supervise limit deadline ticks s = Some s'" "P s"
    and "\<And>t s s'. P s \<Longrightarrow> supervise_round limit deadline t s = Some s' \<Longrightarrow> P s'"
  shows "P s' \<and> \<not> supervising s'"
  using assms(1,2)
proof (induction ticks arbitrary: s)
  case Nil
  then show ?case by (auto simp: supervise.simps [of _ _ "[]"] split: if_splits)
next
  case (Cons t ticks)
  show ?case
  proof (cases "supervising s")
    case True
    then obtain u where "supervise_round limit deadline t s = Some u" "supervise limit deadline ticks u = Some s'"
      using Cons.prems(1) by (auto simp: supervise.simps [of _ _ "t # ticks"] bind_eq_Some_conv)
    then show ?thesis using Cons.IH assms(3) Cons.prems(2) by blast
  qed (use Cons.prems in \<open>auto simp: supervise.simps [of _ _ "t # ticks"]\<close>)
qed

lemma consistent_round:
  "consistent limit s \<Longrightarrow> supervise_round limit deadline t s = Some s' \<Longrightarrow> consistent limit s'"
  by (erule supervise_roundE) (simp add: consistent_def)

lemma consistent_start: "consistent limit (supervision_start deadline)"
  by (simp add: consistent_def supervision_start_def)

section \<open>The output that is collected\<close>

lemma supervise_streams:
  assumes "supervise limit deadline ticks s = Some s'"
  defines "out \<equiv> if sv_out_open s then stream_bytes (map stdout_reads ticks) else []"
    and "err \<equiv> if sv_err_open s then stream_bytes (map stderr_reads ticks) else []"
  shows "sv_total s' = sv_total s + length out + length err
    \<and> (sv_total s' \<le> limit \<longrightarrow> sv_out s' = sv_out s @ out \<and> sv_err s' = sv_err s @ err)"
  using assms(1) unfolding out_def err_def
proof (induction ticks arbitrary: s)
  case Nil
  then show ?case by (auto simp: supervise.simps [of _ _ "[]"] split: if_splits)
next
  case (Cons t ticks)
  show ?case
  proof (cases "supervising s")
    case True
    then obtain u where u: "supervise_round limit deadline t s = Some u" "supervise limit deadline ticks u = Some s'"
      using Cons.prems(1) by (auto simp: supervise.simps [of _ _ "t # ticks"] bind_eq_Some_conv)
    from u(1) show ?thesis
    proof (rule supervise_roundE)
      fix m
      assume "u = reap (child_status t) (force_kill (now_ms t) (request_termination deadline (now_ms t) m))"
        "sv_out_open m = stays_open (sv_out_open s) (stdout_reads t)"
        "sv_err_open m = stays_open (sv_err_open s) (stderr_reads t)"
        "sv_total m = sv_total s + length (delivered (sv_out_open s) (stdout_reads t))
          + length (delivered (sv_err_open s) (stderr_reads t))"
        "sv_total m \<le> limit \<longrightarrow> sv_out m = sv_out s @ delivered (sv_out_open s) (stdout_reads t)
          \<and> sv_err m = sv_err s @ delivered (sv_err_open s) (stderr_reads t)"
      then show ?thesis
        using Cons.IH [OF u(2)] by (auto simp: delivered_def stays_open_def split: if_splits)
    qed
  next
    case False
    then show ?thesis
      using Cons.prems by (auto simp: supervise.simps [of _ _ "t # ticks"] supervising_def)
  qed
qed

lemma supervised_run_Inr:
  assumes "supervised_run strerror limit wall e = Some (Inr r)"
  obtains s where "supervise limit (start_ms e + wall) (observed_ticks e) (supervision_start (start_ms e + wall)) = Some s"
    "r = supervised_result s"
  using assms by (auto simp: supervised_run_def Let_def split: if_splits option.splits)

text \<open>
  C23: What a run reports of the program's output. As long as the program writes at most the limit, on
  both streams together, the result has exactly the bytes it wrote on each until it closed it, in
  order, and no error type. Beyond the limit the run is reported as exceeding it, with exit code 120,
  and what is kept of the two streams has exactly the size of the limit, plus the note.
\<close>

theorem supervised_output:
  assumes "supervised_run strerror limit wall e = Some (Inr r)"
  shows "let out = stream_bytes (map stdout_reads (observed_ticks e));
             err = stream_bytes (map stderr_reads (observed_ticks e))
         in if length out + length err \<le> limit
            then standard_output r = out \<and> standard_error r = err \<and> execution_error_type r = None
            else exit_code r = 120 \<and> execution_error_type r = Some ''Output Limit Exceeded''
              \<and> (\<exists>kept. length (standard_output r) + length kept = limit
                   \<and> standard_error r = kept @ (if kept = [] then [] else [newline]) @ ''Output limit exceeded'')"
proof -
  let ?deadline = "start_ms e + wall"
  obtain s where s: "supervise limit ?deadline (observed_ticks e) (supervision_start ?deadline) = Some s"
    and r: "r = supervised_result s"
    using assms by (rule supervised_run_Inr)
  have "consistent limit s \<and> \<not> supervising s"
    using s by (rule supervise_invariant) (use consistent_start consistent_round in blast)+
  then have kept: "length (sv_out s) + length (sv_err s) = min (sv_total s) limit" "sv_exceeded s = (limit < sv_total s)"
    by (simp_all add: consistent_def)
  define out where "out = stream_bytes (map stdout_reads (observed_ticks e))"
  define err where "err = stream_bytes (map stderr_reads (observed_ticks e))"
  have total: "sv_total s = length out + length err" "sv_total s \<le> limit \<longrightarrow> sv_out s = out \<and> sv_err s = err"
    using supervise_streams [OF s] by (simp_all add: supervision_start_def out_def err_def)
  show ?thesis
  proof (cases "sv_total s \<le> limit")
    case True
    then show ?thesis
      using kept total r by (simp add: supervised_result_def Let_def flip: out_def err_def)
  next
    case False
    then have "length (standard_output r) + length (sv_err s) = limit"
      "standard_error r = sv_err s @ (if sv_err s = [] then [] else [newline]) @ ''Output limit exceeded''"
      "exit_code r = 120" "execution_error_type r = Some ''Output Limit Exceeded''"
      using kept r by (simp_all add: supervised_result_def output_limit_exit_code_def)
    then show ?thesis
      using False total(1) by (auto simp: Let_def simp flip: out_def err_def)
  qed
qed

section \<open>The signals that are sent\<close>

definition signals_ok :: "int \<Rightarrow> supervision \<Rightarrow> bool" where
  "signals_ok deadline s \<longleftrightarrow>
     (if \<not> sv_requested s then sv_signals s = [] \<and> \<not> sv_timed_out s
      else \<exists>t kills. sv_signals s = (t, SIGTERM) # kills \<and> sv_kill_at s = t + supervisor_grace_period
        \<and> (\<forall>(u, g) \<in> set kills. g = SIGKILL \<and> t + supervisor_grace_period \<le> u)
        \<and> (sv_timed_out s \<longrightarrow> deadline \<le> t) \<and> (sv_exceeded s \<or> sv_timed_out s))"

lemma signals_ok_start: "signals_ok deadline (supervision_start deadline)"
  by (simp add: signals_ok_def supervision_start_def)

lemma signals_ok_reading:
  "signals_ok deadline s \<Longrightarrow> reading_only s m \<Longrightarrow> (sv_exceeded s \<longrightarrow> sv_exceeded m) \<Longrightarrow> signals_ok deadline m"
  by (auto simp: signals_ok_def reading_only_def split: if_splits)

lemma signals_ok_request: "signals_ok deadline s \<Longrightarrow> signals_ok deadline (request_termination deadline now s)"
  by (auto simp: signals_ok_def request_termination_def split: if_splits)

lemma signals_ok_kill: "signals_ok deadline s \<Longrightarrow> signals_ok deadline (force_kill now s)"
  by (auto simp: signals_ok_def force_kill_def split: if_splits)

lemma signals_ok_reap: "signals_ok deadline s \<Longrightarrow> signals_ok deadline (reap w s)"
  by (simp add: signals_ok_def)

lemma signals_ok_round:
  assumes "consistent limit s \<and> signals_ok deadline s" "supervise_round limit deadline t s = Some s'"
  shows "consistent limit s' \<and> signals_ok deadline s'"
  using assms(2)
proof (rule supervise_roundE)
  fix m
  assume m: "reading_only s m"
    "s' = reap (child_status t) (force_kill (now_ms t) (request_termination deadline (now_ms t) m))"
    "consistent limit s \<longrightarrow> consistent limit m"
    "sv_total m = sv_total s + length (delivered (sv_out_open s) (stdout_reads t))
       + length (delivered (sv_err_open s) (stderr_reads t))"
  then have "sv_exceeded s \<longrightarrow> sv_exceeded m" using assms(1) by (auto simp: consistent_def)
  then have "signals_ok deadline m" using signals_ok_reading m(1) assms(1) by blast
  then show ?thesis
    using consistent_round assms m(2) signals_ok_request signals_ok_kill signals_ok_reap by blast
qed

text \<open>
  C24: How a sandboxed process is ended. It is sent nothing unless it exceeded the output limit or its
  deadline passed; then first SIGTERM, once, and SIGKILL only when the grace period of a quarter of a
  second is over. A run is reported as timed out only when the deadline had passed.
\<close>

theorem supervise_signals:
  assumes "supervise limit deadline ticks (supervision_start deadline) = Some s"
  shows "(sv_signals s = [] \<and> \<not> sv_timed_out s)
    \<or> (\<exists>t kills. sv_signals s = (t, SIGTERM) # kills
        \<and> list_all (\<lambda>(u, g). g = SIGKILL \<and> t + 250 \<le> u) kills
        \<and> (if sv_timed_out s then deadline \<le> t else limit < sv_total s))"
proof -
  have "(consistent limit s \<and> signals_ok deadline s) \<and> \<not> supervising s"
    using assms by (rule supervise_invariant) (use consistent_start signals_ok_start signals_ok_round in blast)+
  then show ?thesis
    by (auto simp: signals_ok_def consistent_def supervisor_grace_period_def list_all_iff split: if_splits)
qed

section \<open>Exit codes\<close>

text \<open>
  The exit code reported for a process is between 0 and 255; it is 0 exactly when the process
  exited with 0, and a process killed by a signal is reported as 128 plus the number of the signal,
  whatever word \<^verbatim>\<open>waitpid\<close> stored.
\<close>

lemma execution_exit_code_bounds:
  "0 \<le> execution_exit_code status \<and> execution_exit_code status \<le> 255
   \<and> (execution_exit_code status = 0 \<longleftrightarrow> take_bit 7 status = 0 \<and> take_bit 8 (drop_bit 8 status) = 0)
   \<and> (if WIFSIGNALED status then execution_exit_code status = 128 + WTERMSIG status \<and> 128 < execution_exit_code status
      else True)"
proof -
  have less: "uint (take_bit k w) < 2 ^ k" for k and w :: wait_status
    using take_bit_int_less_exp [of k "uint w"] by (simp only: unsigned_take_bit_eq)
  have "0 < uint (take_bit 7 status)" if "take_bit 7 status \<noteq> 0"
    using that by (metis uint_0_iff uint_ge_0 order_le_less)
  moreover have "uint (take_bit 8 (drop_bit 8 status)) = 0 \<longleftrightarrow> take_bit 8 (drop_bit 8 status) = 0"
    by (rule uint_0_iff)
  ultimately show ?thesis
    using less [of 7 status] less [of 8 "drop_bit 8 status"]
    by (auto simp: execution_exit_code_def WIFEXITED_def WEXITSTATUS_def WIFSIGNALED_def WTERMSIG_def)
qed

lemma supervised_run_exit_code:
  "supervised_run strerror limit wall e = Some (Inr r) \<Longrightarrow> 0 \<le> exit_code r \<and> exit_code r \<le> 255"
  using execution_exit_code_bounds
  by (auto simp: supervised_result_def output_limit_exit_code_def elim!: supervised_run_Inr)

section \<open>When the loop ends\<close>

text \<open>
  The kernel and the process together: what the next round observes, given the rounds so far and the
  signals sent so far with their times. The laws are those of the kernel: the monotonic clock passes
  every time, and a process sent SIGKILL, which it can neither catch nor ignore, is reported dead some
  time later. They say nothing about what the program does with its output.
\<close>

type_synonym world = "tick list \<Rightarrow> (int \<times> signal) list \<Rightarrow> tick"

definition kernel_laws :: "world \<Rightarrow> bool" where
  "kernel_laws w \<longleftrightarrow>
     (\<forall>T. \<exists>K. \<forall>past log. K \<le> length past \<longrightarrow> T \<le> now_ms (w past log))
     \<and> (\<exists>d. \<forall>past log t. (t, SIGKILL) \<in> set log \<and> t + d \<le> now_ms (w past log) \<longrightarrow> child_status (w past log) \<noteq> None)"

inductive reacts ::
    "world \<Rightarrow> nat \<Rightarrow> int \<Rightarrow> tick list \<times> supervision \<Rightarrow> tick list \<times> supervision \<Rightarrow> bool"
  for w limit deadline where
  Round: "supervising s \<Longrightarrow> supervise_round limit deadline (w past (sv_signals s)) s = Some s' \<Longrightarrow>
     reacts w limit deadline (past, s) (past @ [w past (sv_signals s)], s')"

inductive_cases reactsE: "reacts w limit deadline (past, s) c"

text \<open>
  What the end of the loop needs of the program, along the run from a state: whenever an open pipe is
  drained, its calls come to an end -- nothing in \<^verbatim>\<open>drain\<close> stops it while there is always more to
  read --; and at some point both pipes have reported the end of the stream, which the loop awaits even
  when NsJail is dead.
\<close>

definition drains_end :: "world \<Rightarrow> nat \<Rightarrow> int \<Rightarrow> tick list \<times> supervision \<Rightarrow> bool" where
  "drains_end w limit deadline c \<longleftrightarrow>
     (\<forall>past s. (reacts w limit deadline)\<^sup>*\<^sup>* c (past, s) \<and> supervising s \<longrightarrow>
        (sv_out_open s \<longrightarrow> pipe_outcome (stdout_reads (w past (sv_signals s))) \<noteq> None)
      \<and> (sv_err_open s \<longrightarrow> pipe_outcome (stderr_reads (w past (sv_signals s))) \<noteq> None))"

definition pipes_close :: "world \<Rightarrow> nat \<Rightarrow> int \<Rightarrow> tick list \<times> supervision \<Rightarrow> bool" where
  "pipes_close w limit deadline c \<longleftrightarrow>
     (\<exists>past s. (reacts w limit deadline)\<^sup>*\<^sup>* c (past, s) \<and> \<not> sv_out_open s \<and> \<not> sv_err_open s)"

text \<open>The first \<open>n\<close> ticks of a run.\<close>

fun observe :: "world \<Rightarrow> nat \<Rightarrow> int \<Rightarrow> nat \<Rightarrow> tick list \<Rightarrow> supervision \<Rightarrow> tick list" where
  "observe w limit deadline 0 past s = []"
| "observe w limit deadline (Suc n) past s =
     (let t = w past (sv_signals s)
      in t # (case supervise_round limit deadline t s of None \<Rightarrow> []
         | Some s' \<Rightarrow> observe w limit deadline n (past @ [t]) s'))"

lemma observe_run:
  assumes "(reacts w limit deadline)\<^sup>*\<^sup>* (past, s) (past', s')" "\<not> supervising s'"
  shows "\<exists>n. supervise limit deadline (observe w limit deadline n past s) s = Some s'"
  using assms(1)
proof (induction rule: converse_rtranclp_induct2)
  case refl
  then show ?case using assms(2) by (intro exI [of _ 0]) (simp add: supervise.simps)
next
  case (step past s past1 s1)
  from step(1) have step1: "past1 = past @ [w past (sv_signals s)]" "supervising s"
    "supervise_round limit deadline (w past (sv_signals s)) s = Some s1"
    by (auto elim: reactsE)
  obtain n where "supervise limit deadline (observe w limit deadline n past1 s1) s1 = Some s'"
    using step.IH by blast
  then show ?case
    using step1 by (intro exI [of _ "Suc n"]) (simp add: supervise.simps [of _ _ "_ # _"] Let_def)
qed

text \<open>Conversely, a loop that ends is a run to a state in which nothing is left to supervise.\<close>

lemma run_of_observe:
  assumes "supervise limit deadline (observe w limit deadline n past s) s = Some s'"
  shows "\<exists>past'. (reacts w limit deadline)\<^sup>*\<^sup>* (past, s) (past', s') \<and> \<not> supervising s'"
  using assms
proof (induction n arbitrary: past s)
  case 0
  then show ?case by (auto simp: supervise.simps [of _ _ "[]"] split: if_splits)
next
  case (Suc n)
  let ?t = "w past (sv_signals s)"
  show ?case
  proof (cases "supervising s")
    case False
    then have "s' = s" using Suc.prems by (simp add: supervise.simps)
    then show ?thesis using False by blast
  next
    case True
    then obtain u where u: "supervise_round limit deadline ?t s = Some u"
      "supervise limit deadline (observe w limit deadline n (past @ [?t]) u) u = Some s'"
      using Suc.prems by (auto simp: supervise.simps [of _ _ "_ # _"] Let_def bind_eq_Some_conv)
    then obtain past' where "(reacts w limit deadline)\<^sup>*\<^sup>* (past @ [?t], u) (past', s')" "\<not> supervising s'"
      using Suc.IH by blast
    moreover have "reacts w limit deadline (past, s) (past @ [?t], u)"
      using True u(1) by (rule reacts.Round)
    ultimately show ?thesis by (blast intro: converse_rtranclp_into_rtranclp)
  qed
qed

text \<open>The rounds of a world are determined, so every state of a run that ends lies before the end.\<close>

lemma reacts_deterministic: "reacts w limit deadline c c1 \<Longrightarrow> reacts w limit deadline c c2 \<Longrightarrow> c1 = c2"
  by (cases c) (auto elim!: reactsE)

lemma run_before_end:
  assumes "(reacts w limit deadline)\<^sup>*\<^sup>* c c'" and "(reacts w limit deadline)\<^sup>*\<^sup>* c (past, s)" "\<not> supervising s"
  shows "(reacts w limit deadline)\<^sup>*\<^sup>* c' (past, s)"
  using assms(1)
proof (induction rule: rtranclp_induct)
  case (step c1 c2)
  have "c1 \<noteq> (past, s)"
    using step(2) assms(3) by (auto elim: reactsE)
  with step.IH obtain c3 where "reacts w limit deadline c1 c3" "(reacts w limit deadline)\<^sup>*\<^sup>* c3 (past, s)"
    by (auto elim: converse_rtranclpE)
  then show ?case using reacts_deterministic [OF step(2)] by blast
qed (rule assms(2))

lemma round_total:
  assumes "sv_out_open s \<longrightarrow> pipe_outcome (stdout_reads t) \<noteq> None" "sv_err_open s \<longrightarrow> pipe_outcome (stderr_reads t) \<noteq> None"
  shows "\<exists>s'. supervise_round limit deadline t s = Some s'"
proof -
  have some: "drain limit reads a b c \<noteq> None" if "pipe_outcome reads \<noteq> None" for reads a b c
    using that drain_outcome by (metis option.map_disc_iff)
  obtain m where m: "drain_stdout limit t s = Some m"
    using some assms(1) by (fastforce simp: drain_stdout_def)
  then have "sv_err_open m = sv_err_open s"
    by (auto simp: drain_stdout_def split: if_splits)
  then have "drain_stderr limit t m \<noteq> None"
    using some assms(2) by (auto simp: drain_stderr_def)
  then show ?thesis using m by (auto simp: supervise_round_def)
qed

lemma drains_end_later:
  "drains_end w limit deadline c \<Longrightarrow> (reacts w limit deadline)\<^sup>*\<^sup>* c c' \<Longrightarrow> drains_end w limit deadline c'"
  unfolding drains_end_def by (blast intro: rtranclp_trans)

lemma reacts_total:
  assumes "drains_end w limit deadline (past, s)" "supervising s"
  shows "\<exists>s'. reacts w limit deadline (past, s) (past @ [w past (sv_signals s)], s')"
proof -
  have "(reacts w limit deadline)\<^sup>*\<^sup>* (past, s) (past, s)" by blast
  with assms obtain s' where "supervise_round limit deadline (w past (sv_signals s)) s = Some s'"
    using round_total unfolding drains_end_def by metis
  with assms(2) show ?thesis by (blast intro: reacts.Round)
qed

text \<open>A run goes on for any number of rounds, unless the loop ends before.\<close>

lemma reacts_long:
  assumes ends: "drains_end w limit deadline (past, s)"
  shows "\<exists>past' s'. (reacts w limit deadline)\<^sup>*\<^sup>* (past, s) (past', s') \<and> (supervising s' \<longrightarrow> n \<le> length past')"
proof (induction n)
  case (Suc n)
  then obtain past' s' where run: "(reacts w limit deadline)\<^sup>*\<^sup>* (past, s) (past', s')"
    "supervising s' \<longrightarrow> n \<le> length past'" by blast
  show ?case
  proof (cases "supervising s'")
    case True
    then obtain s'' where "reacts w limit deadline (past', s') (past' @ [w past' (sv_signals s')], s'')"
      using reacts_total [OF drains_end_later [OF ends run(1)]] by blast
    then show ?thesis
      using run True by (intro exI [of _ "past' @ [w past' (sv_signals s')]"] exI [of _ s''])
        (auto intro: rtranclp.rtrancl_into_rtrancl)
  qed (use run in blast)
qed blast

text \<open>
  One stage of the argument: what holds and stays, and becomes something better in any round at or
  after a time \<open>T\<close>, becomes better in some run.
\<close>

lemma stage:
  assumes laws: "kernel_laws w" and ends: "drains_end w limit deadline (past, s)" and Q: "Q (past, s)"
    and stable: "\<And>c c'. Q c \<Longrightarrow> reacts w limit deadline c c' \<Longrightarrow> Q c'"
    and better: "\<And>past s s'. Q (past, s) \<Longrightarrow> reacts w limit deadline (past, s) (past @ [w past (sv_signals s)], s') \<Longrightarrow>
      T \<le> now_ms (w past (sv_signals s)) \<Longrightarrow> R (past @ [w past (sv_signals s)], s')"
  shows "\<exists>past' s'. (reacts w limit deadline)\<^sup>*\<^sup>* (past, s) (past', s') \<and> (supervising s' \<longrightarrow> R (past', s'))"
proof -
  obtain K where K: "\<forall>past log. K \<le> length past \<longrightarrow> T \<le> now_ms (w past log)"
    using laws unfolding kernel_laws_def by blast
  obtain past' s' where run: "(reacts w limit deadline)\<^sup>*\<^sup>* (past, s) (past', s')" "supervising s' \<longrightarrow> K \<le> length past'"
    using reacts_long [OF ends] by blast
  have Q': "Q (past', s')" using run(1) Q by (induction rule: rtranclp_induct) (use stable in auto)
  show ?thesis
  proof (cases "supervising s'")
    case True
    then obtain s'' where next_round: "reacts w limit deadline (past', s') (past' @ [w past' (sv_signals s')], s'')"
      using reacts_total [OF drains_end_later [OF ends run(1)]] by blast
    have "R (past' @ [w past' (sv_signals s')], s'')"
      using better [OF Q' next_round] K run(2) True by blast
    then show ?thesis using run(1) next_round by (blast intro: rtranclp.rtrancl_into_rtrancl)
  qed (use run(1) in blast)
qed

text \<open>What a round does to the part of the state that decides when the loop ends.\<close>

lemma reacts_effect:
  assumes "reacts w limit deadline (past, s) (past', s')"
  defines "t \<equiv> w past (sv_signals s)"
  shows "past' = past @ [t]"
    and "sv_exited s' \<longleftrightarrow> sv_exited s \<or> child_status t \<noteq> None"
    and "sv_requested s' \<longleftrightarrow> sv_requested s \<or> sv_exceeded s' \<or> deadline \<le> now_ms t"
    and "sv_requested s \<Longrightarrow> sv_kill_at s' = sv_kill_at s"
    and "set (sv_signals s) \<subseteq> set (sv_signals s')"
    and "sv_requested s \<Longrightarrow> \<not> sv_exited s \<Longrightarrow> sv_kill_at s \<le> now_ms t \<Longrightarrow> (now_ms t, SIGKILL) \<in> set (sv_signals s')"
    and "pipe_outcome (stdout_reads t) = Some False \<Longrightarrow> \<not> sv_out_open s'"
    and "pipe_outcome (stderr_reads t) = Some False \<Longrightarrow> \<not> sv_err_open s'"
proof -
  from assms(1) have past': "past' = past @ [t]" and step: "supervise_round limit deadline t s = Some s'"
    by (auto elim: reactsE simp: t_def)
  show "past' = past @ [t]" by (rule past')
  from step obtain m where m: "reading_only s m"
      "s' = reap (child_status t) (force_kill (now_ms t) (request_termination deadline (now_ms t) m))"
      "sv_out_open m = stays_open (sv_out_open s) (stdout_reads t)"
      "sv_err_open m = stays_open (sv_err_open s) (stderr_reads t)"
    by (rule supervise_roundE)
  show "sv_exited s' \<longleftrightarrow> sv_exited s \<or> child_status t \<noteq> None"
    and "sv_requested s' \<longleftrightarrow> sv_requested s \<or> sv_exceeded s' \<or> deadline \<le> now_ms t"
    and "sv_requested s \<Longrightarrow> sv_kill_at s' = sv_kill_at s"
    and "set (sv_signals s) \<subseteq> set (sv_signals s')"
    and "sv_requested s \<Longrightarrow> \<not> sv_exited s \<Longrightarrow> sv_kill_at s \<le> now_ms t \<Longrightarrow> (now_ms t, SIGKILL) \<in> set (sv_signals s')"
    and "pipe_outcome (stdout_reads t) = Some False \<Longrightarrow> \<not> sv_out_open s'"
    and "pipe_outcome (stderr_reads t) = Some False \<Longrightarrow> \<not> sv_err_open s'"
    using m by (auto simp: reading_only_def request_termination_def force_kill_def stays_open_def)
qed

lemma runs_to_request:
  assumes "kernel_laws w" "drains_end w limit deadline (past, s)"
  shows "\<exists>past' s'. (reacts w limit deadline)\<^sup>*\<^sup>* (past, s) (past', s') \<and> (supervising s' \<longrightarrow> sv_requested s')"
  using stage [where Q = "\<lambda>_. True" and R = "\<lambda>(past, s). sv_requested s" and T = deadline, OF assms(1,2)]
  by (auto simp: reacts_effect(3))

lemma runs_to_kill:
  assumes "kernel_laws w" "drains_end w limit deadline (past, s)" "sv_requested s"
  shows "\<exists>past' s'. (reacts w limit deadline)\<^sup>*\<^sup>* (past, s) (past', s')
    \<and> (supervising s' \<longrightarrow> sv_exited s' \<or> (\<exists>t. (t, SIGKILL) \<in> set (sv_signals s')))"
proof -
  let ?Q = "\<lambda>(past, s'). sv_requested s' \<and> sv_kill_at s' = sv_kill_at s"
  let ?R = "\<lambda>(past, s'). sv_exited s' \<or> (\<exists>t. (t, SIGKILL) \<in> set (sv_signals s'))"
  have "\<exists>past' s'. (reacts w limit deadline)\<^sup>*\<^sup>* (past, s) (past', s') \<and> (supervising s' \<longrightarrow> ?R (past', s'))"
  proof (rule stage [where Q = ?Q and T = "sv_kill_at s", OF assms(1,2)])
    show "?Q c'" if "?Q c" "reacts w limit deadline c c'" for c c'
      using that by (cases c, cases c') (auto simp: reacts_effect(3,4))
    show "?R (past @ [w past (sv_signals s')], s'')"
      if "?Q (past, s')" "reacts w limit deadline (past, s') (past @ [w past (sv_signals s')], s'')"
        "sv_kill_at s \<le> now_ms (w past (sv_signals s'))" for past s' s''
      using that reacts_effect(2,6) [OF that(2)] by auto
  qed (use assms(3) in simp)
  then show ?thesis by simp
qed

lemma runs_to_exit:
  assumes "kernel_laws w" "drains_end w limit deadline (past, s)" "(t, SIGKILL) \<in> set (sv_signals s)"
  shows "\<exists>past' s'. (reacts w limit deadline)\<^sup>*\<^sup>* (past, s) (past', s') \<and> (supervising s' \<longrightarrow> sv_exited s')"
proof -
  obtain d where d: "\<forall>past log t. (t, SIGKILL) \<in> set log \<and> t + d \<le> now_ms (w past log) \<longrightarrow> child_status (w past log) \<noteq> None"
    using assms(1) unfolding kernel_laws_def by blast
  let ?Q = "\<lambda>(past, s'). (t, SIGKILL) \<in> set (sv_signals s')"
  let ?R = "\<lambda>(past, s'). sv_exited s'"
  have "\<exists>past' s'. (reacts w limit deadline)\<^sup>*\<^sup>* (past, s) (past', s') \<and> (supervising s' \<longrightarrow> ?R (past', s'))"
  proof (rule stage [where Q = ?Q and T = "t + d", OF assms(1,2)])
    show "?Q c'" if "?Q c" "reacts w limit deadline c c'" for c c'
      using that by (cases c, cases c') (auto dest: reacts_effect(5))
    show "?R (past @ [w past (sv_signals s')], s'')"
      if "?Q (past, s')" "reacts w limit deadline (past, s') (past @ [w past (sv_signals s')], s'')"
        "t + d \<le> now_ms (w past (sv_signals s'))" for past s' s''
      using d that(1,3) reacts_effect(2) [OF that(2)] by blast
  qed (use assms(3) in simp)
  then show ?thesis by simp
qed

text \<open>Pipes stay closed, and with both closed the loop ends as soon as the process is reaped.\<close>

lemma closed_later:
  assumes "(reacts w limit deadline)\<^sup>*\<^sup>* (past, s) (past', s')" "\<not> sv_out_open s" "\<not> sv_err_open s"
  shows "\<not> sv_out_open s' \<and> \<not> sv_err_open s'"
  using assms(1)
proof (induction rule: rtranclp_induct2)
  case (step past1 s1 past2 s2)
  then show ?case by (auto elim!: reactsE supervise_roundE simp: stays_open_def)
qed (use assms in simp)

lemma runs_to_end:
  assumes laws: "kernel_laws w" and ends: "drains_end w limit deadline (past, s)"
    and closed: "\<not> sv_out_open s" "\<not> sv_err_open s"
  shows "\<exists>past' s'. (reacts w limit deadline)\<^sup>*\<^sup>* (past, s) (past', s') \<and> \<not> supervising s'"
proof -
  let ?run = "(reacts w limit deadline)\<^sup>*\<^sup>*" and ?start = "(past, s)"
  obtain p1 s1 where 1: "?run ?start (p1, s1)" "supervising s1 \<longrightarrow> sv_requested s1"
    using runs_to_request [OF laws ends] by blast
  have "\<exists>p s. ?run (p1, s1) (p, s) \<and> (supervising s \<longrightarrow> sv_exited s \<or> (\<exists>t. (t, SIGKILL) \<in> set (sv_signals s)))"
    using runs_to_kill [OF laws drains_end_later [OF ends 1(1)]] 1(2) by (cases "supervising s1") blast+
  then obtain p2 s2 where 2: "?run ?start (p2, s2)" "supervising s2 \<longrightarrow> sv_exited s2 \<or> (\<exists>t. (t, SIGKILL) \<in> set (sv_signals s2))"
    using 1(1) by (meson rtranclp_trans)
  have "\<exists>p s. ?run (p2, s2) (p, s) \<and> (supervising s \<longrightarrow> sv_exited s)"
    using runs_to_exit [OF laws drains_end_later [OF ends 2(1)]] 2(2) by (cases "supervising s2 \<and> \<not> sv_exited s2") blast+
  then obtain p3 s3 where 3: "?run ?start (p3, s3)" "supervising s3 \<longrightarrow> sv_exited s3"
    using 2(1) by (meson rtranclp_trans)
  have "\<not> supervising s3"
    using closed_later [OF 3(1) closed] 3(2) by (auto simp: supervising_def)
  then show ?thesis using 3(1) by blast
qed

text \<open>
  C22: When the supervision ends. On a kernel whose clock goes on and which reports a process killed
  with SIGKILL, no program can keep NsJail itself alive: the loop returns after some number of rounds
  exactly when every \<^verbatim>\<open>drain\<close> of an open pipe ends and both pipes are closed in the end. Each of
  these two is up to the program and to what outlives NsJail, and when one of them fails, no number of
  rounds is enough.
\<close>

theorem supervise_terminates:
  assumes "kernel_laws w"
  shows "(\<exists>n s. supervise limit deadline
        (observe w limit deadline n [] (supervision_start deadline)) (supervision_start deadline) = Some s)
    \<longleftrightarrow> drains_end w limit deadline ([], supervision_start deadline)
      \<and> pipes_close w limit deadline ([], supervision_start deadline)"
    (is "?ends \<longleftrightarrow> drains_end w limit deadline ?start \<and> pipes_close w limit deadline ?start")
proof
  assume ?ends
  then obtain past' s' where run: "(reacts w limit deadline)\<^sup>*\<^sup>* ?start (past', s')" "\<not> supervising s'"
    using run_of_observe by blast
  have "pipes_close w limit deadline ?start"
    using run unfolding pipes_close_def supervising_def by blast
  moreover have "drains_end w limit deadline ?start"
    unfolding drains_end_def
  proof (intro allI impI, elim conjE)
    fix past s
    assume s: "(reacts w limit deadline)\<^sup>*\<^sup>* ?start (past, s)" "supervising s"
    from run_before_end [OF s(1) run] s(2) run(2) obtain c where "reacts w limit deadline (past, s) c"
      by (auto elim: converse_rtranclpE)
    then obtain u where "supervise_round limit deadline (w past (sv_signals s)) s = Some u"
      by (auto elim: reactsE)
    then show "(sv_out_open s \<longrightarrow> pipe_outcome (stdout_reads (w past (sv_signals s))) \<noteq> None)
      \<and> (sv_err_open s \<longrightarrow> pipe_outcome (stderr_reads (w past (sv_signals s))) \<noteq> None)"
      by (rule supervise_roundE) blast
  qed
  ultimately show "drains_end w limit deadline ?start \<and> pipes_close w limit deadline ?start"
    by blast
next
  assume ends: "drains_end w limit deadline ?start \<and> pipes_close w limit deadline ?start"
  then obtain past s where closed: "(reacts w limit deadline)\<^sup>*\<^sup>* ?start (past, s)" "\<not> sv_out_open s" "\<not> sv_err_open s"
    unfolding pipes_close_def by blast
  then obtain past' s' where "(reacts w limit deadline)\<^sup>*\<^sup>* (past, s) (past', s')" "\<not> supervising s'"
    using runs_to_end [OF assms drains_end_later] ends by blast
  then show ?ends
    using observe_run closed(1) by (meson rtranclp_trans)
qed

section \<open>Runs\<close>

text \<open>A program that prints a line in two pieces and exits, and one that prints too much.\<close>

definition short_run :: run_env where
  "short_run = \<lparr>input_opens = True, pipes_made = True, fork_error = None, dup_errno = None, exec_errno = None,
     start_ms = 0, observed_ticks =
       [\<lparr>stdout_reads = [Bytes ''3'', Read_interrupted, Bytes [newline], Would_block], stderr_reads = [Would_block],
          now_ms = 10, child_status = None\<rparr>,
        \<lparr>stdout_reads = [Bytes []], stderr_reads = [Bytes []], now_ms = 20, child_status = Some 0\<rparr>],
     jail_log = []\<rparr>"

definition long_run :: run_env where
  "long_run = short_run\<lparr>observed_ticks :=
       [\<lparr>stdout_reads = [Bytes ''123456'', Would_block], stderr_reads = [Bytes ''ab'', Would_block], now_ms = 10,
          child_status = None\<rparr>,
        \<lparr>stdout_reads = [Bytes []], stderr_reads = [Bytes []], now_ms = 20, child_status = Some 15\<rparr>]\<rparr>"

lemmas run_defs = supervised_run_def short_run_def long_run_def supervise.simps supervise_round_def
  drain_stdout_def drain_stderr_def supervision_start_def supervising_def request_termination_def
  force_kill_def reap_def execute_nsjail_def supervisor_grace_period_def read_bounded_file_def
  nsjail_failed_to_initialize_def supervised_result_def execution_exit_code_def WIFEXITED_def
  WEXITSTATUS_def output_limit_exit_code_def

lemma short_run_result: "2 \<le> limit \<Longrightarrow> 20 < wall \<Longrightarrow> supervised_run strerror limit wall short_run = Some (Inr
    \<lparr>exit_code = 0, standard_output = ''3'' @ [newline], standard_error = [], timed_out = False,
      execution_error_type = None\<rparr>)"
  by (simp add: run_defs Let_def)

lemma long_run_result: "supervised_run (\<lambda>_. []) 7 2000 long_run = Some (Inr
    \<lparr>exit_code = 120, standard_output = ''123456'', standard_error = ''a'' @ [newline] @ ''Output limit exceeded'',
      timed_out = False, execution_error_type = Some ''Output Limit Exceeded''\<rparr>)"
  by (simp add: run_defs Let_def)

theorem supervised_output_witness:
  "(\<exists>r. supervised_run (\<lambda>_. []) 7 2000 short_run = Some (Inr r) \<and> standard_output r = ''3'' @ [newline])
   \<and> (\<exists>r. supervised_run (\<lambda>_. []) 7 2000 long_run = Some (Inr r) \<and> exit_code r = 120)"
proof -
  have "stream_bytes (map stdout_reads (observed_ticks short_run)) = ''3'' @ [newline]"
    "stream_bytes (map stderr_reads (observed_ticks short_run)) = []"
    "stream_bytes (map stdout_reads (observed_ticks long_run)) = ''123456''"
    "stream_bytes (map stderr_reads (observed_ticks long_run)) = ''ab''" by code_simp+
  then show ?thesis
    using supervised_output [OF short_run_result [of 7 2000 "\<lambda>_. []"]] supervised_output [OF long_run_result]
      short_run_result [of 7 2000 "\<lambda>_. []"] long_run_result by (simp add: Let_def)
qed

text \<open>A process that prints for ever and ignores SIGTERM, and what is observed of it until it is killed.\<close>

definition stubborn :: world where
  "stubborn past log =
     (let killed = list_ex (\<lambda>(t, g). g = SIGKILL) log;
          dead = killed \<or> list_ex (\<lambda>u. child_status u \<noteq> None) past
      in \<lparr>stdout_reads = (if dead then [Bytes []] else [Bytes ''y'', Would_block]), stderr_reads = (if dead then [Bytes []] else [Would_block]),
          now_ms = 25 * int (length past), child_status = (if killed then Some 9 else None)\<rparr>)"

lemma kernel_laws_stubborn: "kernel_laws stubborn"
  unfolding kernel_laws_def
proof (intro conjI allI)
  fix T
  show "\<exists>K. \<forall>past log. K \<le> length past \<longrightarrow> T \<le> now_ms (stubborn past log)"
    by (intro exI [of _ "nat T"]) (auto simp: stubborn_def Let_def)
next
  show "\<exists>d. \<forall>past log t. (t, SIGKILL) \<in> set log \<and> t + d \<le> now_ms (stubborn past log) \<longrightarrow>
      child_status (stubborn past log) \<noteq> None"
    by (intro exI [of _ 0]) (auto simp: stubborn_def Let_def list_ex_iff)
qed

text \<open>A process like it that fills its pipe faster than it can be emptied.\<close>

definition flooding :: world where
  "flooding past log = (stubborn past log)\<lparr>stdout_reads := [Bytes ''y'']\<rparr>"

lemma kernel_laws_flooding: "kernel_laws flooding"
  using kernel_laws_stubborn by (simp add: kernel_laws_def flooding_def)

theorem supervise_terminates_witness:
  "drains_end stubborn 7 60 ([], supervision_start 60) \<and> pipes_close stubborn 7 60 ([], supervision_start 60)
   \<and> (\<forall>n. supervise 7 60 (observe flooding 7 60 n [] (supervision_start 60)) (supervision_start 60) = None)"
proof -
  let ?start = "supervision_start 60"
  have "supervise 7 60 (observe stubborn 7 60 16 [] ?start) ?start \<noteq> None"
    by code_simp
  then have "\<exists>n s. supervise 7 60 (observe stubborn 7 60 n [] ?start) ?start = Some s"
    by blast
  then have "drains_end stubborn 7 60 ([], ?start) \<and> pipes_close stubborn 7 60 ([], ?start)"
    by (rule supervise_terminates [OF kernel_laws_stubborn, THEN iffD1])
  moreover have "\<not> drains_end flooding 7 60 ([], ?start)"
    unfolding drains_end_def
    by (auto simp: flooding_def supervising_def supervision_start_def intro!: exI [of _ "[]"] exI [of _ ?start])
  then have "supervise 7 60 (observe flooding 7 60 n [] ?start) ?start = None" for n
    using supervise_terminates [OF kernel_laws_flooding, of 7 60]
    by (cases "supervise 7 60 (observe flooding 7 60 n [] ?start) ?start") auto
  ultimately show ?thesis by blast
qed

theorem supervise_signals_witness:
  "\<exists>s. supervise 7 60 (observe stubborn 7 60 16 [] (supervision_start 60)) (supervision_start 60) = Some s
    \<and> hd (sv_signals s) = (75, SIGTERM) \<and> last (sv_signals s) = (350, SIGKILL)
    \<and> (\<exists>t kills. sv_signals s = (t, SIGTERM) # kills \<and> list_all (\<lambda>(u, g). g = SIGKILL \<and> t + 250 \<le> u) kills)"
proof -
  let ?s = "the (supervise 7 60 (observe stubborn 7 60 16 [] (supervision_start 60)) (supervision_start 60))"
  have "supervise 7 60 (observe stubborn 7 60 16 [] (supervision_start 60)) (supervision_start 60) \<noteq> None"
    by code_simp
  then have s: "supervise 7 60 (observe stubborn 7 60 16 [] (supervision_start 60)) (supervision_start 60) = Some ?s"
    by simp
  have "hd (sv_signals ?s) = (75, SIGTERM)" "last (sv_signals ?s) = (350, SIGKILL)" "sv_signals ?s \<noteq> []" by code_simp+
  then show ?thesis using s supervise_signals [OF s] by blast
qed

end
