(* ===== verification/Sandbox.thy ===== *)
theory Sandbox
  imports Supervisor
begin

text \<open>
  \<^verbatim>\<open>NsJailPythonExecutor\<close> (\<^verbatim>\<open>backend/src/nsjail-python-executor.cpp\<close>) around the
  supervision of one process: the temporary workspace and its files, the runtime closure, the command
  line of NsJail, and \<^verbatim>\<open>run\<close>, which compiles C++ in one sandbox and runs the program in another.

  The files are a map from paths; directories are only created, and may fail to be. NsJail and the
  program in it are a parameter of the environment, \<open>jail_kernel\<close>: the command line, the path opened
  as standard input and the files give what the supervision observes and the files afterwards. The
  paths \<^verbatim>\<open>cmake\<close> compiles in are the record \<open>build_paths\<close>. File modes are written in octal
  in the source; \<open>6 * 64\<close> is \<^verbatim>\<open>0600\<close>.
\<close>

section \<open>Configuration\<close>

definition runtime_calls :: "string list" where
  "runtime_calls =
     [''read'', ''write'', ''close'', ''newfstat'', ''newfstatat'', ''lseek'', ''mmap'',
      ''mprotect'', ''munmap'', ''brk'', ''rt_sigaction'', ''rt_sigprocmask'',
      ''rt_sigreturn'', ''ioctl'', ''pread64'', ''access'', ''pipe'', ''pipe2'', ''select'',
      ''pselect6'', ''poll'', ''ppoll'', ''sched_yield'', ''mremap'', ''madvise'', ''dup'',
      ''dup2'', ''dup3'', ''nanosleep'', ''clock_nanosleep'', ''getitimer'', ''alarm'',
      ''setitimer'', ''getpid'', ''gettid'', ''getppid'', ''execve'', ''exit'',
      ''exit_group'', ''wait4'', ''waitid'', ''kill'', ''tgkill'', ''newuname'', ''fcntl'',
      ''flock'', ''fsync'', ''fdatasync'', ''ftruncate'', ''getcwd'', ''chdir'',
      ''readlink'', ''readlinkat'', ''getdents'', ''getdents64'', ''fchmod'',
      ''gettimeofday'', ''getrlimit'', ''prlimit64'', ''getrusage'', ''sysinfo'', ''times'',
      ''getuid'', ''getgid'', ''geteuid'', ''getegid'', ''setsid'', ''sigaltstack'',
      ''statfs'', ''fstatfs'', ''prctl'', ''arch_prctl'', ''set_tid_address'',
      ''set_robust_list'', ''futex'', ''clock_gettime'', ''openat'', ''faccessat'',
      ''faccessat2'', ''getrandom'', ''rseq'', ''statx'', ''close_range'',
      ''restart_syscall'']"

definition compiler_calls :: "string list" where
  "compiler_calls =
     [''read'', ''write'', ''close'', ''newfstat'', ''newfstatat'', ''lseek'', ''mmap'',
      ''mprotect'', ''munmap'', ''brk'', ''rt_sigaction'', ''rt_sigprocmask'',
      ''rt_sigreturn'', ''ioctl'', ''pread64'', ''access'', ''pipe'', ''pipe2'', ''select'',
      ''pselect6'', ''poll'', ''ppoll'', ''sched_yield'', ''mremap'', ''madvise'', ''dup'',
      ''dup2'', ''dup3'', ''nanosleep'', ''clock_nanosleep'', ''getitimer'', ''alarm'',
      ''setitimer'', ''getpid'', ''gettid'', ''getppid'', ''execve'', ''exit'',
      ''exit_group'', ''wait4'', ''waitid'', ''kill'', ''tgkill'', ''newuname'', ''fcntl'',
      ''flock'', ''fsync'', ''fdatasync'', ''truncate'', ''ftruncate'', ''getcwd'',
      ''chdir'', ''rename'', ''renameat'', ''renameat2'', ''mkdir'', ''mkdirat'', ''rmdir'',
      ''link'', ''linkat'', ''unlink'', ''unlinkat'', ''readlink'', ''readlinkat'',
      ''getdents'', ''getdents64'', ''chmod'', ''fchmod'', ''fchmodat'', ''gettimeofday'',
      ''getrlimit'', ''prlimit64'', ''getrusage'', ''sysinfo'', ''times'', ''getuid'',
      ''getgid'', ''geteuid'', ''getegid'', ''setsid'', ''sigaltstack'', ''statfs'',
      ''fstatfs'', ''prctl'', ''arch_prctl'', ''set_tid_address'', ''set_robust_list'',
      ''futex'', ''clock_gettime'', ''openat'', ''faccessat'', ''faccessat2'', ''getrandom'',
      ''rseq'', ''statx'', ''close_range'', ''restart_syscall'', ''clone'', ''clone3'',
      ''fork'', ''vfork'', ''setpgid'', ''getpgid'', ''getpgrp'']"

definition policy_text :: "string list \<Rightarrow> string" where
  "policy_text calls = ''ALLOW { '' @ join_with '', '' calls @ '' } DEFAULT ERRNO(1)''"

definition seccomp_policy :: string where
  "seccomp_policy = policy_text runtime_calls"

definition compiler_seccomp_policy :: string where
  "compiler_seccomp_policy = policy_text compiler_calls"

record jail_config =
  nsjail_path :: string
  python_path :: string
  python_runtime_closure_manifest :: string
  cpp_compiler_path :: string
  cpp_runtime_closure_manifest :: string
  jail_cgroupv2_mount :: string
  wall_time_limit :: int
  output_limit_bytes :: nat
  address_space_limit_megabytes :: int
  cpu_time_limit_seconds :: int
  process_limit :: int

record build_paths =
  built_nsjail :: string
  built_python :: string
  built_python_closure :: string
  built_compiler :: string
  built_cpp_closure :: string

definition current_cgroupv2_mount :: "string \<Rightarrow> string" where
  "current_cgroupv2_mount membership =
     (case List.find cgroup_line (getlines membership) of
        Some line \<Rightarrow> path_append ''/sys/fs/cgroup'' (drop 4 line)
      | None \<Rightarrow> ''/sys/fs/cgroup/algorithm-trainer-delegation-unavailable'')"

definition default_config :: "build_paths \<Rightarrow> string \<Rightarrow> jail_config" where
  "default_config built membership = \<lparr>nsjail_path = built_nsjail built, python_path = built_python built,
     python_runtime_closure_manifest = built_python_closure built,
     cpp_compiler_path = built_compiler built, cpp_runtime_closure_manifest = built_cpp_closure built,
     jail_cgroupv2_mount = current_cgroupv2_mount membership, wall_time_limit = 2000,
     output_limit_bytes = 64 * 1024, address_space_limit_megabytes = 128, cpu_time_limit_seconds = 3,
     process_limit = 4\<rparr>"

section \<open>Files\<close>

datatype file_kind = Regular_file | Symbolic_link | Special_file

record sandbox_file =
  file_bytes :: string
  file_mode :: nat
  file_kind :: file_kind
  file_owner :: int

type_synonym files = "string \<Rightarrow> sandbox_file option"

record host_env =
  workspace_made :: "string + string"
  manifest_text :: "string \<Rightarrow> string option"
  directory_fails :: "string \<Rightarrow> bool"
  open_error :: "string \<Rightarrow> string option"
  write_answers :: "string \<Rightarrow> io_result list"
  write_error :: "string \<Rightarrow> string"
  chmod_error :: "string \<Rightarrow> string option"
  user_id :: int
  errno_text :: "int \<Rightarrow> string"
  jail_kernel :: "string list \<Rightarrow> string \<Rightarrow> files \<Rightarrow> run_env \<times> files"
  survives :: "string \<Rightarrow> files \<Rightarrow> string \<Rightarrow> bool"

text \<open>
  \<^verbatim>\<open>write_file\<close>: the error, if any, and the files. The file must not exist
  (\<^verbatim>\<open>O_EXCL\<close>), is written whole in as many calls as it takes, and is made read-only.
\<close>

definition new_file :: "host_env \<Rightarrow> string \<Rightarrow> nat \<Rightarrow> sandbox_file" where
  "new_file h contents mode = \<lparr>file_bytes = contents, file_mode = mode, file_kind = Regular_file, file_owner = user_id h\<rparr>"

definition write_file :: "host_env \<Rightarrow> string \<Rightarrow> string \<Rightarrow> files \<Rightarrow> (string option \<times> files) option" where
  "write_file h path contents fs =
     (case (if fs path \<noteq> None then Some ''File exists'' else open_error h path) of
        Some m \<Rightarrow> Some (Some (''Could not create executor input file: '' @ m), fs)
      | None \<Rightarrow>
        (case write_all (write_answers h path) contents [] of
           None \<Rightarrow> None
         | Some (False, _, written) \<Rightarrow>
             Some (Some (''Could not write executor input file: '' @ write_error h path),
               fs(path \<mapsto> new_file h written (6 * 64)))
         | Some (True, _, written) \<Rightarrow>
             (case chmod_error h path of
                Some m \<Rightarrow> Some (Some (''Could not protect executor input file: '' @ m),
                  fs(path \<mapsto> new_file h written (6 * 64)))
              | None \<Rightarrow> Some (None, fs(path \<mapsto> new_file h written (4 * 64))))))"

text \<open>A symbolic link is not opened (\<^verbatim>\<open>O_NOFOLLOW\<close>).\<close>

definition protect_compiled_executable :: "host_env \<Rightarrow> string \<Rightarrow> files \<Rightarrow> string option \<times> files" where
  "protect_compiled_executable h path fs =
     (case fs path of
        None \<Rightarrow> (Some ''Compiler did not produce a safe regular executable'', fs)
      | Some f \<Rightarrow>
          if file_kind f = Symbolic_link \<or> open_error h path \<noteq> None \<or> file_kind f \<noteq> Regular_file
            \<or> file_owner f \<noteq> user_id h
          then (Some ''Compiler did not produce a safe regular executable'', fs)
          else if chmod_error h path \<noteq> None then (Some ''Could not protect the compiled executable'', fs)
          else (None, fs(path \<mapsto> f\<lparr>file_mode := 5 * 64\<rparr>)))"

definition store_path :: "string \<Rightarrow> bool" where
  "store_path line \<longleftrightarrow> starts_with line ''/nix/store/'' \<and> CHR '':'' \<notin> set line"

fun closure_lines :: "string list \<Rightarrow> string list option" where
  "closure_lines [] = Some []"
| "closure_lines (line # rest) = (if \<not> store_path line then None else map_option ((#) line) (closure_lines rest))"

definition read_runtime_closure :: "host_env \<Rightarrow> string \<Rightarrow> string + string list" where
  "read_runtime_closure h manifest =
     (case manifest_text h manifest of
        None \<Rightarrow> Inl ''Runtime closure manifest is unavailable''
      | Some text \<Rightarrow> (case closure_lines (getlines text) of
          None \<Rightarrow> Inl ''Runtime closure manifest contains an invalid path''
        | Some paths \<Rightarrow> if paths = [] then Inl ''Runtime closure manifest is empty'' else Inr paths))"

definition relative_path :: "string \<Rightarrow> string" where
  "relative_path p = dropWhile (\<lambda>c. c = CHR ''/'') p"

definition prepare_root :: "host_env \<Rightarrow> string \<Rightarrow> string list \<Rightarrow> string option" where
  "prepare_root h root closure =
     (if directory_fails h (path_append root ''workspace'') then Some ''Could not prepare sandbox workspace mount''
      else if list_ex (\<lambda>p. directory_fails h (path_append root (relative_path p))) closure
      then Some ''Could not prepare runtime mount''
      else None)"

text \<open>
  The destructor of the workspace. \<^verbatim>\<open>std::filesystem::remove_all\<close> may fail part of the way, for
  instance at a directory whose mode the program changed, and its error code is discarded:
  \<open>survives h root fs\<close> are the paths it then leaves behind, none when it succeeds.
\<close>

definition inside :: "string \<Rightarrow> string \<Rightarrow> bool" where
  "inside root p \<longleftrightarrow> p = root \<or> starts_with p (root @ ''/'')"

definition remove_all :: "host_env \<Rightarrow> string \<Rightarrow> files \<Rightarrow> files" where
  "remove_all h root fs = (\<lambda>p. if inside root p \<and> \<not> survives h root fs p then None else fs p)"

section \<open>The command line\<close>

text \<open>\<^verbatim>\<open>duration_cast<seconds>\<close> rounds towards zero.\<close>

definition seconds_of :: "int \<Rightarrow> int" where
  "seconds_of ms = (if ms < 0 then - (- ms div 1000) else ms div 1000)"

definition memory_bytes :: "int \<Rightarrow> 64 word" where
  "memory_bytes megabytes = word_of_int megabytes * 1024 * 1024"

definition nsjail_arguments ::
    "jail_config \<Rightarrow> string \<Rightarrow> string list \<Rightarrow> string \<Rightarrow> string list \<Rightarrow> int \<Rightarrow> int \<Rightarrow> int \<Rightarrow> int \<Rightarrow> bool \<Rightarrow> string list" where
  "nsjail_arguments config ws closure executable executable_arguments wall megabytes cpu_seconds processes compiling =
     [nsjail_path config, ''--mode'', ''o'', ''--chroot'', path_append ws ''root'', ''--cwd'', ''/workspace'',
      ''--hostname'', ''algorithm-trainer'', ''--time_limit'', to_string (seconds_of wall + 2),
      ''--max_cpus'', ''1'', ''--use_cgroupv2'', ''--cgroupv2_mount'', jail_cgroupv2_mount config,
      ''--cgroup_mem_max'', to_string (uint (memory_bytes megabytes)), ''--cgroup_mem_swap_max'', ''0'',
      ''--cgroup_pids_max'', to_string processes, ''--cgroup_cpu_ms_per_sec'', ''1000'',
      ''--rlimit_as'', to_string megabytes, ''--rlimit_cpu'', to_string cpu_seconds,
      ''--rlimit_fsize'', (if compiling then ''16'' else ''1''), ''--rlimit_nofile'', ''16'',
      ''--rlimit_nproc'', to_string processes, ''--rlimit_stack'', ''16'', ''--disable_proc'', ''--iface_no_lo'',
      ''--forward_signals'', ''--env'', ''HOME=/workspace'',
      ''--env'', (if compiling then ''PATH=/run/current-system/sw/bin'' else ''PATH=''),
      ''--env'', (if compiling then ''TMPDIR=/workspace'' else ''TMPDIR=''),
      ''--env'', ''PYTHONHASHSEED=0'', ''--env'', ''PYTHONDONTWRITEBYTECODE=1'', ''--env'', ''PYTHONNOUSERSITE=1'',
      ''--bindmount'', path_append ws ''work'' @ '':/workspace'', ''--log'', path_append ws ''nsjail.log'',
      ''--seccomp_string'', (if compiling then compiler_seccomp_policy else seccomp_policy)]
     @ concat (map (\<lambda>p. [''--bindmount_ro'', p @ '':'' @ p]) closure)
     @ [''--'', executable] @ executable_arguments"

definition run_isolated ::
    "host_env \<Rightarrow> jail_config \<Rightarrow> string \<Rightarrow> string list \<Rightarrow> string \<Rightarrow> string list \<Rightarrow> string \<Rightarrow> int \<Rightarrow> int \<Rightarrow> int \<Rightarrow> int
       \<Rightarrow> bool \<Rightarrow> files \<Rightarrow> (executor_result \<times> files) option" where
  "run_isolated h config ws closure executable executable_arguments standard_in wall megabytes cpu_seconds
       processes compiling fs =
     (case jail_kernel h (nsjail_arguments config ws closure executable executable_arguments wall megabytes
              cpu_seconds processes compiling) standard_in fs of
        (e, fs') \<Rightarrow>
          if fs standard_in = None then Some (Inl (ExecutorError ''Could not open executor input''), fs)
          else map_option (\<lambda>result.
              (result, if input_opens e \<and> pipes_made e \<and> fork_error e = None then fs' else fs))
            (supervised_run (errno_text h) (output_limit_bytes config) wall e))"

section \<open>Compiling and running\<close>

definition file_step ::
    "(string option \<times> files) option \<Rightarrow> (files \<Rightarrow> (executor_result \<times> files) option) \<Rightarrow> (executor_result \<times> files) option" where
  "file_step step_result rest = (case step_result of
     None \<Rightarrow> None
   | Some (Some m, fs) \<Rightarrow> Some (Inl (ExecutorError m), fs)
   | Some (None, fs) \<Rightarrow> rest fs)"

definition run_program :: "host_env \<Rightarrow> jail_config \<Rightarrow> string \<Rightarrow> string list \<Rightarrow> string \<Rightarrow> files \<Rightarrow> (executor_result \<times> files) option" where
  "run_program h config ws closure language fs =
     (let executable = (if language = ''python'' then python_path config else ''/workspace/submission'');
          arguments = (if language = ''python'' then [''-I'', ''-B'', ''/workspace/submission.py''] else [])
      in run_isolated h config ws closure executable arguments (path_append (path_append ws ''work'') ''stdin'')
           (wall_time_limit config) (address_space_limit_megabytes config) (cpu_time_limit_seconds config)
           (process_limit config) False fs)"

text \<open>The C++ branch; the program is then run from the files it leaves.\<close>

definition compile_then ::
    "host_env \<Rightarrow> jail_config \<Rightarrow> string \<Rightarrow> string list \<Rightarrow> files \<Rightarrow> (files \<Rightarrow> (executor_result \<times> files) option)
       \<Rightarrow> (executor_result \<times> files) option" where
  "compile_then h config ws closure fs rest =
     (let work = path_append ws ''work''; empty_input = path_append work ''compile-stdin''
      in file_step (write_file h empty_input [] fs) (\<lambda>fs1.
         case run_isolated h config ws closure (cpp_compiler_path config)
                [''-std=c++20'', ''-O2'', ''-pipe'', ''-o'', ''/workspace/submission'', ''/workspace/submission.cpp'']
                empty_input 15000 1024 12 32 True fs1 of
           None \<Rightarrow> None
         | Some (Inl err, fs2) \<Rightarrow> Some (Inl err, fs2)
         | Some (Inr compilation, fs2) \<Rightarrow>
             if timed_out compilation
             then Some (Inr (compilation\<lparr>execution_error_type := Some ''Compilation Time Limit Exceeded'',
                    timed_out := False, exit_code := 1\<rparr>), fs2)
             else if exit_code compilation \<noteq> 0
             then Some (Inr (compilation\<lparr>execution_error_type := Some ''Compilation Error''\<rparr>), fs2)
             else file_step (Some (protect_compiled_executable h (path_append work ''submission'') fs2)) rest))"

definition jail_run_in :: "host_env \<Rightarrow> jail_config \<Rightarrow> string \<Rightarrow> execution_request \<Rightarrow> files \<Rightarrow> (executor_result \<times> files) option" where
  "jail_run_in h config ws request fs =
     (case read_runtime_closure h (if xr_language request = ''python''
             then python_runtime_closure_manifest config else cpp_runtime_closure_manifest config) of
        Inl m \<Rightarrow> Some (Inl (ExecutorError m), fs)
      | Inr closure \<Rightarrow>
        let work = path_append ws ''work'';
            source_name = (if xr_language request = ''python'' then ''submission.py'' else ''submission.cpp'')
        in if directory_fails h work then Some (Inl (ExecutorError ''Could not prepare executor workspace''), fs)
           else (case prepare_root h (path_append ws ''root'') closure of
               Some m \<Rightarrow> Some (Inl (ExecutorError m), fs)
             | None \<Rightarrow>
               file_step (write_file h (path_append work source_name) (xr_source_code request) fs) (\<lambda>fs1.
               file_step (write_file h (path_append work ''stdin'') (xr_standard_input request) fs1) (\<lambda>fs2.
               if xr_language request = ''cpp''
               then compile_then h config ws closure fs2 (run_program h config ws closure (xr_language request))
               else run_program h config ws closure (xr_language request) fs2))))"

text \<open>\<^verbatim>\<open>TemporaryWorkspace::create\<close>\<close>

definition create_workspace :: "host_env \<Rightarrow> executor_error + string" where
  "create_workspace h = (case workspace_made h of
     Inl m \<Rightarrow> Inl (ExecutorError (''Could not create an isolated workspace: '' @ m)) | Inr ws \<Rightarrow> Inr ws)"

lemma create_workspace_made [simp]:
  "workspace_made h = Inr ws \<Longrightarrow> create_workspace h = Inr ws"
  "workspace_made h = Inl m \<Longrightarrow> create_workspace h = Inl (ExecutorError (''Could not create an isolated workspace: '' @ m))"
  "create_workspace h = Inr ws \<longleftrightarrow> workspace_made h = Inr ws"
  by (simp_all add: create_workspace_def split: sum.splits)

definition jail_run :: "host_env \<Rightarrow> jail_config \<Rightarrow> execution_request \<Rightarrow> files \<Rightarrow> (executor_result \<times> files) option" where
  "jail_run h config request fs =
     (if xr_language request \<noteq> ''python'' \<and> xr_language request \<noteq> ''cpp''
      then Some (Inl (ExecutorError ''Executor supports only Python and C++''), fs)
      else case create_workspace h of
          Inl error \<Rightarrow> Some (Inl error, fs)
        | Inr ws \<Rightarrow> map_option (\<lambda>(result, fs'). (result, remove_all h ws fs')) (jail_run_in h config ws request fs))"

text \<open>The executor of the worker process: its configuration has the control group of its command line.\<close>

definition worker_executor ::
    "host_env \<Rightarrow> build_paths \<Rightarrow> string \<Rightarrow> files \<Rightarrow> string \<Rightarrow> execution_request \<Rightarrow> executor_result option" where
  "worker_executor h built membership fs mount request =
     map_option fst (jail_run h ((default_config built membership)\<lparr>jail_cgroupv2_mount := mount\<rparr>) request fs)"

section \<open>What the program is run on\<close>

lemma write_file_written:
  "write_file h path contents fs = Some (None, fs') \<Longrightarrow> fs' = fs(path \<mapsto> new_file h contents (4 * 64))"
  by (auto simp: write_file_def dest!: write_all_complete split: option.splits if_splits bool.splits)

lemma file_step_Inr:
  "file_step w rest = Some (Inr r, fs') \<Longrightarrow> \<exists>fs1. w = Some (None, fs1) \<and> rest fs1 = Some (Inr r, fs')"
  by (auto simp: file_step_def split: option.splits)

lemma written_then:
  assumes "file_step (write_file h path contents fs) rest = Some (Inr r, fs')"
  shows "rest (fs(path \<mapsto> new_file h contents (4 * 64))) = Some (Inr r, fs')"
  using file_step_Inr [OF assms] write_file_written by blast

lemma closure_lines_store: "closure_lines ls = Some paths \<Longrightarrow> paths = ls \<and> list_all store_path paths"
  by (induction ls arbitrary: paths) (auto split: if_splits)

lemma read_runtime_closure_store: "read_runtime_closure h manifest = Inr closure \<Longrightarrow> list_all store_path closure"
  by (auto simp: read_runtime_closure_def dest!: closure_lines_store split: option.splits if_splits)

lemma jail_run_Inr:
  assumes "jail_run h config q fs = Some (Inr r, fs')"
  obtains ws after where "workspace_made h = Inr ws" "jail_run_in h config ws q fs = Some (Inr r, after)"
    "fs' = remove_all h ws after" "xr_language q = ''python'' \<or> xr_language q = ''cpp''"
  using assms by (auto simp: jail_run_def split: if_splits sum.splits)

text \<open>
  C25: A Python program is run on what was submitted: whenever the executor returns a result, it is the
  result of one sandboxed run of the interpreter, with the configured limits, whose files are the
  submitted source and the test's input, whole, read-only and new, besides the files there were; and
  the mounted closure has store paths only. No file outside the workspace is touched by cleaning up,
  and nothing of the workspace is left behind when its removal succeeds; when it fails the same result
  is reported and what could not be removed stays.
\<close>

theorem jail_run_python:
  assumes "jail_run h config q fs = Some (Inr r, fs')" "xr_language q = ''python''"
  shows "\<exists>ws closure after. workspace_made h = Inr ws
    \<and> read_runtime_closure h (python_runtime_closure_manifest config) = Inr closure \<and> list_all store_path closure
    \<and> run_isolated h config ws closure (python_path config) [''-I'', ''-B'', ''/workspace/submission.py'']
        (path_append (path_append ws ''work'') ''stdin'') (wall_time_limit config)
        (address_space_limit_megabytes config) (cpu_time_limit_seconds config) (process_limit config) False
        (fs(path_append (path_append ws ''work'') ''submission.py'' \<mapsto> new_file h (xr_source_code q) (4 * 64),
            path_append (path_append ws ''work'') ''stdin'' \<mapsto> new_file h (xr_standard_input q) (4 * 64)))
      = Some (Inr r, after)
    \<and> (\<forall>p. \<not> inside ws p \<longrightarrow> fs' p = after p)
    \<and> (\<forall>p. inside ws p \<longrightarrow> fs' p = (if survives h ws after p then after p else None))"
proof -
  obtain ws after where ws: "workspace_made h = Inr ws" "jail_run_in h config ws q fs = Some (Inr r, after)"
    "fs' = remove_all h ws after"
    using assms(1) by (rule jail_run_Inr)
  then obtain closure where "read_runtime_closure h (python_runtime_closure_manifest config) = Inr closure"
    using assms(2) by (auto simp: jail_run_in_def split: sum.splits)
  moreover from this have "run_program h config ws closure ''python''
      (fs(path_append (path_append ws ''work'') ''submission.py'' \<mapsto> new_file h (xr_source_code q) (4 * 64),
          path_append (path_append ws ''work'') ''stdin'' \<mapsto> new_file h (xr_standard_input q) (4 * 64)))
      = Some (Inr r, after)"
    using ws(2) assms(2)
    by (auto simp: jail_run_in_def Let_def dest!: written_then split: if_splits option.splits)
  ultimately show ?thesis
    using ws(1,3) read_runtime_closure_store by (auto simp: run_program_def remove_all_def)
qed

text \<open>
  C26: A C++ program is compiled first, in a sandbox of its own that sees the submitted source. When the
  compiler runs out of time or fails, the result says so in its error type, never as a time limit of
  the program, and with an exit code other than 0; the program is not run. Otherwise the result is that
  of running the executable the compiler left: a regular file of the judge's own user, no symbolic
  link, made unwritable before it is run.
\<close>

theorem jail_run_cpp:
  assumes "jail_run h config q fs = Some (Inr r, fs')" "xr_language q = ''cpp''"
  shows "\<exists>ws closure c after1 after2. workspace_made h = Inr ws \<and> list_all store_path closure
    \<and> run_isolated h config ws closure (cpp_compiler_path config)
        [''-std=c++20'', ''-O2'', ''-pipe'', ''-o'', ''/workspace/submission'', ''/workspace/submission.cpp'']
        (path_append (path_append ws ''work'') ''compile-stdin'') 15000 1024 12 32 True
        (fs(path_append (path_append ws ''work'') ''submission.cpp'' \<mapsto> new_file h (xr_source_code q) (4 * 64),
            path_append (path_append ws ''work'') ''stdin'' \<mapsto> new_file h (xr_standard_input q) (4 * 64),
            path_append (path_append ws ''work'') ''compile-stdin'' \<mapsto> new_file h [] (4 * 64)))
      = Some (Inr c, after1)
    \<and> fs' = remove_all h ws after2
    \<and> (if timed_out c then execution_error_type r = Some ''Compilation Time Limit Exceeded''
         \<and> \<not> timed_out r \<and> exit_code r = 1
       else if exit_code c \<noteq> 0 then execution_error_type r = Some ''Compilation Error''
         \<and> \<not> timed_out r \<and> exit_code r = exit_code c
       else \<exists>f. after1 (path_append (path_append ws ''work'') ''submission'') = Some f
         \<and> file_kind f = Regular_file \<and> file_owner f = user_id h
         \<and> run_isolated h config ws closure ''/workspace/submission'' []
             (path_append (path_append ws ''work'') ''stdin'') (wall_time_limit config)
             (address_space_limit_megabytes config) (cpu_time_limit_seconds config) (process_limit config) False
             (after1(path_append (path_append ws ''work'') ''submission'' \<mapsto> f\<lparr>file_mode := 5 * 64\<rparr>))
           = Some (Inr r, after2))"
proof -
  obtain ws after where ws: "workspace_made h = Inr ws" "jail_run_in h config ws q fs = Some (Inr r, after)"
    "fs' = remove_all h ws after"
    using assms(1) by (rule jail_run_Inr)
  then obtain closure where closure: "read_runtime_closure h (cpp_runtime_closure_manifest config) = Inr closure"
    using assms(2) by (auto simp: jail_run_in_def split: sum.splits)
  let ?work = "path_append ws ''work''"
  let ?written = "fs(path_append ?work ''submission.cpp'' \<mapsto> new_file h (xr_source_code q) (4 * 64),
      path_append ?work ''stdin'' \<mapsto> new_file h (xr_standard_input q) (4 * 64))"
  have compiled: "compile_then h config ws closure ?written (run_program h config ws closure ''cpp'') = Some (Inr r, after)"
    using ws(2) closure assms(2)
    by (auto simp: jail_run_in_def Let_def dest!: written_then split: if_splits option.splits)
  let ?compile = "run_isolated h config ws closure (cpp_compiler_path config)
      [''-std=c++20'', ''-O2'', ''-pipe'', ''-o'', ''/workspace/submission'', ''/workspace/submission.cpp'']
      (path_append ?work ''compile-stdin'') 15000 1024 12 32 True
      (?written(path_append ?work ''compile-stdin'' \<mapsto> new_file h [] (4 * 64)))"
  note rest = written_then [OF compiled [unfolded compile_then_def Let_def]]
  from rest obtain c after1 where c: "?compile = Some (Inr c, after1)"
    by (auto split: option.splits sum.splits)
  have store: "list_all store_path closure" by (rule read_runtime_closure_store [OF closure])
  show ?thesis
  proof (cases "timed_out c \<or> exit_code c \<noteq> 0")
    case True
    then show ?thesis
      using rest c ws store by (intro exI [of _ ws] exI [of _ closure] exI [of _ c] exI [of _ after1] exI [of _ after])
        (auto split: if_splits)
  next
    case False
    then have "file_step (Some (protect_compiled_executable h (path_append ?work ''submission'') after1))
        (run_program h config ws closure ''cpp'') = Some (Inr r, after)"
      using rest c by simp
    from file_step_Inr [OF this] obtain fs1 where
      "protect_compiled_executable h (path_append ?work ''submission'') after1 = (None, fs1)"
      "run_program h config ws closure ''cpp'' fs1 = Some (Inr r, after)"
      by auto
    then show ?thesis
      using False c ws store by (intro exI [of _ ws] exI [of _ closure] exI [of _ c] exI [of _ after1] exI [of _ after])
        (auto simp: protect_compiled_executable_def run_program_def split: option.splits if_splits)
  qed
qed

section \<open>What a sandboxed program can reach\<close>

text \<open>
  How NsJail reads its command line, up to the program: an option takes the next argument, except the
  four switches the program uses. The mounts are those of \<^verbatim>\<open>--bindmount\<close> (writable) and
  \<^verbatim>\<open>--bindmount_ro\<close>.
\<close>

definition jail_switches :: "string list" where
  "jail_switches = [''--use_cgroupv2'', ''--disable_proc'', ''--iface_no_lo'', ''--forward_signals'']"

fun jail_options :: "string list \<Rightarrow> (string \<times> string) list" where
  "jail_options (a # rest) =
     (if a = ''--'' then []
      else if a \<in> set jail_switches then jail_options rest
      else (case rest of [] \<Rightarrow> [] | b # rest' \<Rightarrow> (a, b) # jail_options rest'))"
| "jail_options [] = []"

fun jail_flags :: "string list \<Rightarrow> string list" where
  "jail_flags (a # rest) =
     (if a = ''--'' then []
      else if a \<in> set jail_switches then a # jail_flags rest
      else (case rest of [] \<Rightarrow> [] | b # rest' \<Rightarrow> jail_flags rest'))"
| "jail_flags [] = []"

fun jail_command :: "string list \<Rightarrow> string list" where
  "jail_command (a # rest) =
     (if a = ''--'' then rest
      else if a \<in> set jail_switches then jail_command rest
      else (case rest of [] \<Rightarrow> [] | b # rest' \<Rightarrow> jail_command rest'))"
| "jail_command [] = []"

definition jail_values :: "string \<Rightarrow> string list \<Rightarrow> string list" where
  "jail_values name args = map snd (filter (\<lambda>(a, v). a = name) (jail_options args))"

lemma jail_options_closure:
  "jail_options (concat (map (\<lambda>p. [''--bindmount_ro'', f p]) closure) @ ''--'' # rest)
    = map (\<lambda>p. (''--bindmount_ro'', f p)) closure"
  by (induction closure) (simp_all add: jail_switches_def)

lemma jail_flags_closure: "jail_flags (concat (map (\<lambda>p. [''--bindmount_ro'', f p]) closure) @ ''--'' # rest) = []"
  by (induction closure) (simp_all add: jail_switches_def)

lemma jail_command_closure:
  "jail_command (concat (map (\<lambda>p. [''--bindmount_ro'', f p]) closure) @ ''--'' # rest) = rest"
  by (induction closure) (simp_all add: jail_switches_def)

text \<open>The words of a policy text, which are separated by blanks, commas and braces.\<close>

fun words_from :: "string \<Rightarrow> string \<Rightarrow> string list" where
  "words_from w [] = (if w = [] then [] else [w])"
| "words_from w (c # cs) =
     (if c \<in> set '' ,{}'' then (if w = [] then words_from [] cs else w # words_from [] cs) else words_from (w @ [c]) cs)"

definition policy_words :: "string \<Rightarrow> string list" where
  "policy_words text = words_from [] text"

lemma policy_words_runtime: "policy_words seccomp_policy = ''ALLOW'' # runtime_calls @ [''DEFAULT'', ''ERRNO(1)'']"
  by code_simp

lemma policy_words_compiler:
  "policy_words compiler_seccomp_policy = ''ALLOW'' # compiler_calls @ [''DEFAULT'', ''ERRNO(1)'']"
  by code_simp

lemma memory_bytes_value: "uint (memory_bytes megabytes) = megabytes * 1048576 mod 2 ^ 64"
proof -
  have "memory_bytes megabytes = word_of_int (megabytes * 1048576)"
    by (simp add: memory_bytes_def)
  then show ?thesis by (simp only: uint_word_of_int) simp
qed

lemma seconds_of_value: "seconds_of ms = sgn ms * (\<bar>ms\<bar> div 1000)"
  by (simp add: seconds_of_def sgn_if)

lemma filter_closure:
  "filter (\<lambda>(a, v). a = name) (map (\<lambda>p. (''--bindmount_ro'', f p)) closure)
    = (if name = ''--bindmount_ro'' then map (\<lambda>p. (''--bindmount_ro'', f p)) closure else [])"
  by (induction closure) auto

text \<open>
  C27: What a sandboxed process can reach, compiler or program, whatever the configuration, the request
  and the paths are. NsJail is asked to run the given program once, in an empty root without /proc,
  network or loopback; the only writable mount is the workspace's own directory, every other one is a
  path of the Nix store, read-only, on itself, and none holds a colon with which a manifest could name
  another place. Time, processors, memory, swap, processes and every resource of the process are
  limited. The system call filter answers EPERM by default and allows exactly the listed calls, among
  them none for networking, tracing, mounting or namespaces, and for a submitted program none that
  makes a process or removes, renames or changes the mode of a file by name.
\<close>

theorem jail_confined:
  assumes "read_runtime_closure h manifest = Inr closure"
  shows "let args = tl (nsjail_arguments config ws closure executable executable_arguments wall megabytes
                cpu_seconds processes compiling);
             calls = (if compiling then compiler_calls else runtime_calls)
    in jail_command args = executable # executable_arguments
     \<and> jail_flags args = [''--use_cgroupv2'', ''--disable_proc'', ''--iface_no_lo'', ''--forward_signals'']
     \<and> jail_values ''--mode'' args = [''o'']
     \<and> jail_values ''--chroot'' args = [path_append ws ''root'']
     \<and> jail_values ''--bindmount'' args = [path_append ws ''work'' @ '':/workspace'']
     \<and> jail_values ''--bindmount_ro'' args = map (\<lambda>p. p @ '':'' @ p) closure
     \<and> list_all (\<lambda>p. starts_with p ''/nix/store/'' \<and> CHR '':'' \<notin> set p) closure
     \<and> jail_values ''--time_limit'' args = [to_string (sgn wall * (\<bar>wall\<bar> div 1000) + 2)]
     \<and> jail_values ''--max_cpus'' args = [''1'']
     \<and> jail_values ''--cgroupv2_mount'' args = [jail_cgroupv2_mount config]
     \<and> jail_values ''--cgroup_mem_max'' args = [to_string (megabytes * 1048576 mod 2 ^ 64)]
     \<and> jail_values ''--cgroup_mem_swap_max'' args = [''0'']
     \<and> jail_values ''--cgroup_pids_max'' args = [to_string processes]
     \<and> jail_values ''--cgroup_cpu_ms_per_sec'' args = [''1000'']
     \<and> jail_values ''--rlimit_as'' args = [to_string megabytes]
     \<and> jail_values ''--rlimit_cpu'' args = [to_string cpu_seconds]
     \<and> jail_values ''--rlimit_fsize'' args = [if compiling then ''16'' else ''1'']
     \<and> jail_values ''--rlimit_nofile'' args = [''16'']
     \<and> jail_values ''--rlimit_nproc'' args = [to_string processes]
     \<and> jail_values ''--rlimit_stack'' args = [''16'']
     \<and> (\<exists>policy. jail_values ''--seccomp_string'' args = [policy]
          \<and> policy_words policy = ''ALLOW'' # calls @ [''DEFAULT'', ''ERRNO(1)''])
     \<and> list_all (\<lambda>call. call \<notin> set calls)
         [''socket'', ''socketpair'', ''connect'', ''bind'', ''listen'', ''accept'', ''accept4'', ''sendto'', ''sendmsg'',
          ''ptrace'', ''process_vm_readv'', ''process_vm_writev'', ''mount'', ''umount2'', ''pivot_root'', ''chroot'',
          ''unshare'', ''setns'', ''bpf'', ''keyctl'', ''init_module'', ''mknod'', ''setuid'', ''chown'']
     \<and> list_all (\<lambda>call. call \<notin> set runtime_calls)
         [''clone'', ''clone3'', ''fork'', ''vfork'', ''unlink'', ''unlinkat'', ''rename'', ''renameat'', ''renameat2'',
          ''chmod'', ''fchmodat'', ''link'', ''mkdir'', ''truncate'']"
proof -
  let ?args = "tl (nsjail_arguments config ws closure executable executable_arguments wall megabytes
                cpu_seconds processes compiling)"
  have options: "jail_options ?args
      = [(''--mode'', ''o''), (''--chroot'', path_append ws ''root''), (''--cwd'', ''/workspace''),
         (''--hostname'', ''algorithm-trainer''), (''--time_limit'', to_string (seconds_of wall + 2)),
         (''--max_cpus'', ''1''), (''--cgroupv2_mount'', jail_cgroupv2_mount config),
         (''--cgroup_mem_max'', to_string (uint (memory_bytes megabytes))), (''--cgroup_mem_swap_max'', ''0''),
         (''--cgroup_pids_max'', to_string processes), (''--cgroup_cpu_ms_per_sec'', ''1000''),
         (''--rlimit_as'', to_string megabytes), (''--rlimit_cpu'', to_string cpu_seconds),
         (''--rlimit_fsize'', if compiling then ''16'' else ''1''), (''--rlimit_nofile'', ''16''), (''--rlimit_nproc'', to_string processes),
         (''--rlimit_stack'', ''16''), (''--env'', ''HOME=/workspace''),
         (''--env'', if compiling then ''PATH=/run/current-system/sw/bin'' else ''PATH=''),
         (''--env'', if compiling then ''TMPDIR=/workspace'' else ''TMPDIR=''),
         (''--env'', ''PYTHONHASHSEED=0''), (''--env'', ''PYTHONDONTWRITEBYTECODE=1''),
         (''--env'', ''PYTHONNOUSERSITE=1''), (''--bindmount'', path_append ws ''work'' @ '':/workspace''),
         (''--log'', path_append ws ''nsjail.log''),
         (''--seccomp_string'', if compiling then compiler_seccomp_policy else seccomp_policy)]
        @ map (\<lambda>p. (''--bindmount_ro'', p @ '':'' @ p)) closure"
    by (simp add: nsjail_arguments_def jail_switches_def jail_options_closure)
  have "jail_command ?args = executable # executable_arguments"
    "jail_flags ?args = [''--use_cgroupv2'', ''--disable_proc'', ''--iface_no_lo'', ''--forward_signals'']"
    by (simp_all add: nsjail_arguments_def jail_switches_def jail_command_closure jail_flags_closure)
  moreover have "list_all (\<lambda>call. call \<notin> set runtime_calls \<and> call \<notin> set compiler_calls)
      [''socket'', ''socketpair'', ''connect'', ''bind'', ''listen'', ''accept'', ''accept4'', ''sendto'', ''sendmsg'',
       ''ptrace'', ''process_vm_readv'', ''process_vm_writev'', ''mount'', ''umount2'', ''pivot_root'', ''chroot'',
       ''unshare'', ''setns'', ''bpf'', ''keyctl'', ''init_module'', ''mknod'', ''setuid'', ''chown'']"
    by code_simp
  then have "list_all (\<lambda>call. call \<notin> set (if compiling then compiler_calls else runtime_calls))
      [''socket'', ''socketpair'', ''connect'', ''bind'', ''listen'', ''accept'', ''accept4'', ''sendto'', ''sendmsg'',
       ''ptrace'', ''process_vm_readv'', ''process_vm_writev'', ''mount'', ''umount2'', ''pivot_root'', ''chroot'',
       ''unshare'', ''setns'', ''bpf'', ''keyctl'', ''init_module'', ''mknod'', ''setuid'', ''chown'']"
    by (rule list.pred_mono_strong) (cases compiling; simp)
  moreover have "list_all (\<lambda>call. call \<notin> set runtime_calls)
      [''clone'', ''clone3'', ''fork'', ''vfork'', ''unlink'', ''unlinkat'', ''rename'', ''renameat'', ''renameat2'',
       ''chmod'', ''fchmodat'', ''link'', ''mkdir'', ''truncate'']"
    by code_simp
  moreover have "list_all (\<lambda>p. starts_with p ''/nix/store/'' \<and> CHR '':'' \<notin> set p) closure"
    using read_runtime_closure_store [OF assms] unfolding store_path_def .
  moreover have "policy_words (if compiling then compiler_seccomp_policy else seccomp_policy)
      = ''ALLOW'' # (if compiling then compiler_calls else runtime_calls) @ [''DEFAULT'', ''ERRNO(1)'']"
    by (simp add: policy_words_runtime policy_words_compiler)
  ultimately show ?thesis
    unfolding Let_def jail_values_def options memory_bytes_value seconds_of_value
    by (simp add: filter_closure comp_def)
qed

section \<open>The executor as a whole\<close>

lemma run_isolated_exit_code:
  "run_isolated h config ws closure x args i wall mb cpu ps compiling fs = Some (Inr r, fs') \<Longrightarrow>
     0 \<le> exit_code r \<and> exit_code r \<le> 255"
  by (auto simp: run_isolated_def dest: supervised_run_exit_code split: prod.splits if_splits)

lemma compile_then_exit_code:
  assumes "compile_then h config ws closure fs rest = Some (Inr r, fs')"
    and "\<And>fs1 r fs'. rest fs1 = Some (Inr r, fs') \<Longrightarrow> 0 \<le> exit_code r \<and> exit_code r \<le> 255"
  shows "0 \<le> exit_code r \<and> exit_code r \<le> 255"
  using assms(1) unfolding compile_then_def Let_def
  by (auto dest!: written_then file_step_Inr dest!: assms(2) run_isolated_exit_code split: option.splits sum.splits if_splits)

lemma jail_run_in_range: "jail_run h config q fs = Some (res, fs') \<Longrightarrow> result_in_range res"
proof (cases res)
  case (Inr r)
  assume "jail_run h config q fs = Some (res, fs')"
  then obtain ws after where "jail_run_in h config ws q fs = Some (Inr r, after)"
    using Inr by (auto elim: jail_run_Inr)
  then have "0 \<le> exit_code r \<and> exit_code r \<le> 255"
    by (auto simp: jail_run_in_def Let_def run_program_def dest!: written_then
        dest!: run_isolated_exit_code compile_then_exit_code split: if_splits option.splits sum.splits)
  then show ?thesis using Inr by (simp add: result_in_range_def int32_range_def)
qed (simp add: result_in_range_def)

text \<open>
  C20: The judge's executor is its sandbox: running a request through the worker process gives exactly
  what the sandbox gives for the default configuration with the control group delegated to the server,
  results and errors alike, when the kernel calls of the channel succeed, in however many pieces and with
  however many interruptions the bytes move, and the two messages have legal size and are read back by
  JsonCpp. In particular it returns, and no exit code is lost on the way.
\<close>

theorem sandboxed_run_transparent:
  assumes "json_laws J" "null_members J" "delegation_error x = None" "healthy_channel e"
    and "jail_run h ((default_config built membership)\<lparr>jail_cgroupv2_mount := cgroupv2_mount x\<rparr>) q fs = Some (r, fs')"
    and "carried W (request_payload J q)" "carried W (worker_response J r)"
    and "plentiful (send_answers e) (frame_length W (request_payload J q))"
    and "plentiful reads (frame_length W (request_payload J q))"
    and "plentiful writes (frame_length W (worker_response J r))"
    and "plentiful (receive_answers e) (frame_length W (worker_response J r))"
  shows "isolated_run J W x e (worker_process J W (worker_executor h built membership fs) reads writes) q = Some r"
proof (rule isolated_run_transparent)
  show "worker_executor h built membership fs (cgroupv2_mount x) q = Some r"
    using assms(5) by (simp add: worker_executor_def)
  show "result_in_range r" by (rule jail_run_in_range [OF assms(5)])
qed (rule assms)+

section \<open>A host\<close>

text \<open>
  A host on which every call succeeds, files are written byte by byte, every process prints 3, and
  the compiler leaves an executable.
\<close>

definition sample_host :: host_env where
  "sample_host = \<lparr>workspace_made = Inr ''/tmp/t'', manifest_text = (\<lambda>_. Some ''/nix/store/python''),
     directory_fails = (\<lambda>_. False), open_error = (\<lambda>_. None), write_answers = (\<lambda>_. replicate 12 (Transferred 1)),
     write_error = (\<lambda>_. []), chmod_error = (\<lambda>_. None), user_id = 1000, errno_text = (\<lambda>_. []),
     jail_kernel = (\<lambda>args _ fs. (short_run, if ''-o'' \<in> set args
        then fs(''/tmp/t/work/submission'' \<mapsto> \<lparr>file_bytes = [], file_mode = 0, file_kind = Regular_file, file_owner = 1000\<rparr>)
        else fs)), survives = (\<lambda>_ _ _. False)\<rparr>"

definition sample_build :: build_paths where
  "sample_build = \<lparr>built_nsjail = ''/nsjail'', built_python = ''/python'', built_python_closure = ''/p'',
     built_compiler = ''/c++'', built_cpp_closure = ''/c''\<rparr>"

abbreviation printed_three :: execution_result where
  "printed_three \<equiv> \<lparr>exit_code = 0, standard_output = ''3'' @ [newline], standard_error = [], timed_out = False,
     execution_error_type = None\<rparr>"

abbreviation sample_config :: jail_config where
  "sample_config \<equiv> (default_config sample_build [])\<lparr>jail_cgroupv2_mount := ''/sys/fs/cgroup/app''\<rparr>"

lemma sample_config_limits:
  "wall_time_limit (default_config b m) = 2000" "output_limit_bytes (default_config b m) = 65536"
  by (simp_all add: default_config_def)

lemma sample_closure: "read_runtime_closure sample_host m = Inr [''/nix/store/python'']"
  by (simp add: read_runtime_closure_def sample_host_def getlines.simps store_path_def starts_with_def)

lemma sample_host_answers [simp]:
  "open_error sample_host p = None" "chmod_error sample_host p = None" "user_id sample_host = 1000"
  "directory_fails sample_host p = False" "workspace_made sample_host = Inr ''/tmp/t''"
  "plentiful (write_answers sample_host p) 12" "\<not> survives sample_host root fs p"
  "jail_kernel sample_host args i fs = (short_run, if ''-o'' \<in> set args
     then fs(''/tmp/t/work/submission'' \<mapsto> \<lparr>file_bytes = [], file_mode = 0, file_kind = Regular_file, file_owner = 1000\<rparr>)
     else fs)"
  by (simp_all add: sample_host_def plentiful_def list_all_iff)

lemma sample_write:
  assumes "length contents \<le> 12" "fs path = None"
  shows "write_file sample_host path contents fs = Some (None, fs(path \<mapsto> new_file sample_host contents (4 * 64)))"
proof -
  obtain rest where "write_all (write_answers sample_host path) contents [] = Some (True, rest, contents)"
    using write_all_plentiful [OF sample_host_answers(6) assms(1), of path "[]"] by auto
  then show ?thesis using assms(2) by (simp add: write_file_def)
qed

lemma sample_isolated:
  assumes "2 \<le> output_limit_bytes config" "20 < wall" "fs i \<noteq> None"
  shows "run_isolated sample_host config ws closure x args i wall mb cpu ps compiling fs
    = Some (Inr printed_three, snd (jail_kernel sample_host (nsjail_arguments config ws closure x args wall mb cpu ps compiling) i fs))"
  using assms by (auto simp: run_isolated_def short_run_result) (simp_all add: short_run_def)

lemma sample_paths:
  "path_append (path_append ''/tmp/t'' ''work'') name = (if starts_with name ''/'' then name else ''/tmp/t/work/'' @ name)"
  by (simp add: path_append_def starts_with_def ends_with_def)

lemma sample_python:
  "\<exists>fs'. jail_run sample_host sample_config sample_run Map.empty = Some (Inr printed_three, fs')"
  by (simp add: jail_run_def jail_run_in_def sample_run_def sample_closure prepare_root_def file_step_def
      sample_write run_program_def sample_isolated sample_config_limits sample_paths starts_with_def Let_def)

lemma sample_cpp:
  "\<exists>fs'. jail_run sample_host sample_config (sample_run\<lparr>xr_language := ''cpp''\<rparr>) Map.empty = Some (Inr printed_three, fs')"
  by (simp add: jail_run_def jail_run_in_def sample_run_def sample_closure prepare_root_def file_step_def
      sample_write run_program_def compile_then_def sample_isolated sample_config_limits sample_paths starts_with_def Let_def
      protect_compiled_executable_def nsjail_arguments_def)

theorem jail_run_python_witness:
  "\<exists>ws closure after fs'. jail_run sample_host sample_config sample_run Map.empty = Some (Inr printed_three, fs')
    \<and> workspace_made sample_host = Inr ws \<and> list_all store_path closure
    \<and> run_isolated sample_host sample_config ws closure (python_path sample_config)
        [''-I'', ''-B'', ''/workspace/submission.py'']
        (path_append (path_append ws ''work'') ''stdin'') (wall_time_limit sample_config)
        (address_space_limit_megabytes sample_config) (cpu_time_limit_seconds sample_config) (process_limit sample_config) False
        (Map.empty(path_append (path_append ws ''work'') ''submission.py'' \<mapsto> new_file sample_host (xr_source_code sample_run) (4 * 64),
            path_append (path_append ws ''work'') ''stdin'' \<mapsto> new_file sample_host (xr_standard_input sample_run) (4 * 64)))
      = Some (Inr printed_three, after)
    \<and> (\<forall>p. starts_with p (ws @ ''/'') \<longrightarrow> fs' p = None)"
proof -
  obtain fs' where run: "jail_run sample_host sample_config sample_run Map.empty = Some (Inr printed_three, fs')"
    using sample_python by blast
  have "xr_language sample_run = ''python''" by (simp add: sample_run_def)
  from jail_run_python [OF run this] show ?thesis using run unfolding inside_def by (auto 0 4)
qed

theorem jail_run_cpp_witness:
  "\<exists>after1 f. after1 (path_append (path_append ''/tmp/t'' ''work'') ''submission'') = Some f
     \<and> file_kind f = Regular_file \<and> file_owner f = user_id sample_host
     \<and> (\<exists>closure after2. run_isolated sample_host sample_config ''/tmp/t'' closure ''/workspace/submission'' []
             (path_append (path_append ''/tmp/t'' ''work'') ''stdin'') (wall_time_limit sample_config)
             (address_space_limit_megabytes sample_config) (cpu_time_limit_seconds sample_config) (process_limit sample_config) False
             (after1(path_append (path_append ''/tmp/t'' ''work'') ''submission'' \<mapsto> f\<lparr>file_mode := 5 * 64\<rparr>))
           = Some (Inr printed_three, after2))"
proof -
  let ?q = "sample_run\<lparr>xr_language := ''cpp''\<rparr>"
  obtain fs' where run: "jail_run sample_host sample_config ?q Map.empty = Some (Inr printed_three, fs')"
    using sample_cpp by blast
  have "xr_language ?q = ''cpp''" by simp
  from jail_run_cpp [OF run this] obtain ws closure after1 after2 and c :: execution_result
    where ws: "workspace_made sample_host = Inr ws" and
    r: "if timed_out c then execution_error_type printed_three = Some ''Compilation Time Limit Exceeded''
         \<and> \<not> timed_out printed_three \<and> exit_code printed_three = 1
       else if exit_code c \<noteq> 0 then execution_error_type printed_three = Some ''Compilation Error''
         \<and> \<not> timed_out printed_three \<and> exit_code printed_three = exit_code c
       else \<exists>f. after1 (path_append (path_append ws ''work'') ''submission'') = Some f
         \<and> file_kind f = Regular_file \<and> file_owner f = user_id sample_host
         \<and> run_isolated sample_host sample_config ws closure ''/workspace/submission'' []
             (path_append (path_append ws ''work'') ''stdin'') (wall_time_limit sample_config)
             (address_space_limit_megabytes sample_config) (cpu_time_limit_seconds sample_config) (process_limit sample_config) False
             (after1(path_append (path_append ws ''work'') ''submission'' \<mapsto> f\<lparr>file_mode := 5 * 64\<rparr>))
           = Some (Inr printed_three, after2)"
    by (elim exE conjE) (rule that, assumption+)
  have "ws = ''/tmp/t''" using ws by simp
  then show ?thesis using r by (auto split: if_splits)
qed

theorem jail_confined_witness:
  "jail_values ''--bindmount_ro'' (tl (nsjail_arguments sample_config ''/tmp/t'' [''/nix/store/python''] ''/python'' []
      2000 128 3 4 False)) = [''/nix/store/python:/nix/store/python'']
   \<and> jail_values ''--cgroup_mem_max'' (tl (nsjail_arguments sample_config ''/tmp/t'' [''/nix/store/python''] ''/c++'' []
      15000 1024 12 32 True)) = [to_string 1073741824]"
  using jail_confined [OF sample_closure [of "''/p''"], of sample_config "''/tmp/t''" "''/python''" "[]" "2000" "128" "3" "4" False]
    jail_confined [OF sample_closure [of "''/p''"], of sample_config "''/tmp/t''" "''/c++''" "[]" "15000" "1024" "12" "32" True]
  by (simp add: Let_def)

abbreviation three_text :: "json json_text_lib" where
  "three_text \<equiv> two_messages (request_payload plain_json sample_run) (worker_response plain_json (Inr printed_three))"

theorem sandboxed_run_transparent_witness:
  "isolated_run plain_json three_text (new_isolated_executor ''/bin/worker'' (Inr ''/sys/fs/cgroup/app'')) slow_channel
     (worker_process plain_json three_text (worker_executor sample_host sample_build [] Map.empty) slow_answers slow_answers)
     sample_run = Some (Inr printed_three)"
proof -
  obtain fs' where run: "jail_run sample_host sample_config sample_run Map.empty = Some (Inr printed_three, fs')"
    using sample_python by blast
  have differ: "worker_response plain_json (Inr printed_three) \<noteq> request_payload plain_json sample_run"
    by code_simp
  have enough: "plentiful slow_answers (frame_length three_text v)" "plentiful (send_answers slow_channel) (frame_length three_text v)"
    "plentiful (receive_answers slow_channel) (frame_length three_text v)" for v
    by (simp_all add: slow_channel_def slow_answers_def two_messages_def)
  show ?thesis
  proof (rule sandboxed_run_transparent [OF json_laws_plain null_members_plain _ sample_channel(1) _ _ _ enough(2,1,1,3)])
    show "jail_run sample_host ((default_config sample_build [])\<lparr>jail_cgroupv2_mount :=
        cgroupv2_mount (new_isolated_executor ''/bin/worker'' (Inr ''/sys/fs/cgroup/app''))\<rparr>) sample_run Map.empty
        = Some (Inr printed_three, fs')" using run by (simp add: new_isolated_executor_def)
  qed (use differ in \<open>simp_all add: new_isolated_executor_def carried_def two_messages_def maximum_message_size_def\<close>)
qed

end
