(* ===== verification/Transfer_Rows.thy ===== *)
theory Transfer_Rows
  imports Pg_Client Problem_Queries Auth_Provider "HOL-Library.Monad_Syntax"
begin

text \<open>
  The tool that moves a SQLite database into an empty PostgreSQL one,
  \<^verbatim>\<open>backend/src/sqlite-to-postgresql.cpp\<close>: every row of six tables, as text and in the
  order of its key, in one transaction.

  The tables, their columns and the casts of their parameters are those of the source. What the two
  engines make of the statements is written out: a row of SQLite as the text of each column, and an
  \<^verbatim>\<open>INSERT\<close> that casts each parameter, builds a row from the named columns and checks the
  constraints of \<^verbatim>\<open>001-initial-schema.sql\<close>. Text parameters are C strings, as in
  \<^verbatim>\<open>Connection::execute\<close>. \<open>lower\<close> is the key of the unique index on user names.
\<close>

section \<open>The statements\<close>

record transfer_table =
  table_name :: string
  table_columns :: "string list"
  table_expressions :: "string list"

definition transfer_tables :: "transfer_table list" where
  "transfer_tables =
     [\<lparr>table_name = ''users'', table_columns = [''id'', ''username'', ''password_hash'', ''created_at'', ''is_admin''],
        table_expressions = [''::bigint'', [], [], ''::timestamptz'', ''::integer::boolean'']\<rparr>,
      \<lparr>table_name = ''sessions'', table_columns = [''id'', ''user_id'', ''token_hash'', ''created_at'', ''expires_at''],
        table_expressions = [''::bigint'', ''::bigint'', [], ''::timestamptz'', ''::timestamptz'']\<rparr>,
      \<lparr>table_name = ''problems'', table_columns = [''id'', ''title'', ''description'', ''input_format'',
           ''output_format'', ''difficulty'', ''tags_json'', ''languages_json'', ''examples_json'', ''enabled'',
           ''created_at'', ''updated_at'', ''revision''],
        table_expressions = [[], [], [], [], [], [], ''::jsonb'', ''::jsonb'', ''::jsonb'', ''::integer::boolean'',
           ''::timestamptz'', ''::timestamptz'', ''::bigint'']\<rparr>,
      \<lparr>table_name = ''problem_tests'', table_columns = [''id'', ''problem_id'', ''input'', ''expected_output'',
           ''position'', ''enabled'', ''revision''],
        table_expressions = [''::bigint'', [], [], [], ''::bigint'', ''::integer::boolean'', ''::bigint'']\<rparr>,
      \<lparr>table_name = ''submissions'', table_columns = [''id'', ''problem_id'', ''language'', ''source_code'',
           ''status'', ''verdict'', ''created_at'', ''completed_at'', ''user_id'', ''error_type'', ''retry_of''],
        table_expressions = [''::bigint'', [], [], [], [], [], ''::timestamptz'', ''::timestamptz'', ''::bigint'', [],
           ''::bigint'']\<rparr>,
      \<lparr>table_name = ''admin_audit_log'', table_columns = [''id'', ''admin_user_id'', ''action'', ''entity_type'',
           ''entity_id'', ''details_json'', ''created_at''],
        table_expressions = [''::bigint'', ''::bigint'', [], [], [], ''::jsonb'', ''::timestamptz'']\<rparr>]"

definition select_text :: "transfer_table \<Rightarrow> string" where
  "select_text t = ''SELECT '' @ join_with '','' (table_columns t) @ '' FROM '' @ table_name t @ '' ORDER BY id''"

text \<open>A parameter past the end of the expressions has none.\<close>

definition expression_at :: "transfer_table \<Rightarrow> nat \<Rightarrow> string" where
  "expression_at t i = (if i < length (table_expressions t) then table_expressions t ! i else [])"

definition placeholder :: "transfer_table \<Rightarrow> nat \<Rightarrow> string" where
  "placeholder t i = ''$'' @ to_string (int i + 1) @ expression_at t i"

definition insert_text :: "transfer_table \<Rightarrow> string" where
  "insert_text t = ''INSERT INTO '' @ table_name t @ ''('' @ join_with '','' (table_columns t) @ '') VALUES(''
     @ join_with '','' (map (placeholder t) [0..<length (table_columns t)]) @ '')''"

text \<open>Every column has an expression, and no column is named twice.\<close>

lemma transfer_tables_shape:
  "list_all (\<lambda>t. length (table_expressions t) = length (table_columns t) \<and> distinct (table_columns t)) transfer_tables"
  by (simp add: transfer_tables_def)

lemma insert_text_tests:
  "insert_text (transfer_tables ! 3) = ''INSERT INTO problem_tests(id,problem_id,input,expected_output,position,enabled,revision)''
     @ '' VALUES($1::bigint,$2,$3,$4,$5::bigint,$6::integer::boolean,$7::bigint)''"
  by code_simp

section \<open>Reading SQLite\<close>

text \<open>A row as the text of its columns; None is NULL. A boolean is stored as 0 or 1.\<close>

type_synonym cells = "(string \<times> string option) list"

definition integer_cell :: "int \<Rightarrow> string option" where
  "integer_cell i = Some (to_string i)"

definition boolean_cell :: "bool \<Rightarrow> string option" where
  "boolean_cell b = Some (if b then ''1'' else ''0'')"

definition user_cells :: "string user_row \<Rightarrow> cells" where
  "user_cells r = [(''id'', integer_cell (usr_id r)), (''username'', Some (usr_username r)),
     (''password_hash'', Some (usr_password_hash r)), (''created_at'', Some (usr_created_at r)),
     (''is_admin'', boolean_cell (usr_is_admin r))]"

definition session_cells :: "string session_row \<Rightarrow> cells" where
  "session_cells r = [(''id'', integer_cell (ses_id r)), (''user_id'', integer_cell (ses_user_id r)),
     (''token_hash'', Some (ses_token_hash r)), (''created_at'', Some (ses_created_at r)),
     (''expires_at'', Some (ses_expires_at r))]"

definition problem_cells :: "string problem_row \<Rightarrow> cells" where
  "problem_cells r = [(''id'', Some (prb_id r)), (''title'', Some (prb_title r)),
     (''description'', Some (prb_description r)), (''input_format'', Some (prb_input_format r)),
     (''output_format'', Some (prb_output_format r)), (''difficulty'', Some (prb_difficulty r)),
     (''tags_json'', Some (prb_tags_json r)), (''languages_json'', Some (prb_languages_json r)),
     (''examples_json'', Some (prb_examples_json r)), (''enabled'', boolean_cell (prb_enabled r)),
     (''created_at'', Some (prb_created_at r)), (''updated_at'', Some (prb_updated_at r)),
     (''revision'', integer_cell (prb_revision r))]"

definition test_cells :: "test_row \<Rightarrow> cells" where
  "test_cells r = [(''id'', integer_cell (tst_id r)), (''problem_id'', Some (tst_problem_id r)),
     (''input'', Some (tst_input r)), (''expected_output'', Some (tst_expected_output r)),
     (''position'', integer_cell (tst_position r)), (''enabled'', boolean_cell (tst_enabled r)),
     (''revision'', integer_cell (tst_revision r))]"

definition submission_cells :: "string submission_row \<Rightarrow> cells" where
  "submission_cells r = [(''id'', integer_cell (row_id r)), (''problem_id'', Some (row_problem_id r)),
     (''language'', Some (row_language r)), (''source_code'', Some (row_source_code r)),
     (''status'', Some (row_status r)), (''verdict'', row_verdict r), (''created_at'', Some (row_created_at r)),
     (''completed_at'', row_completed_at r), (''user_id'', Option.bind (row_user_id r) integer_cell),
     (''error_type'', row_error_type r), (''retry_of'', Option.bind (row_retry_of r) integer_cell)]"

definition audit_cells :: "string audit_row \<Rightarrow> cells" where
  "audit_cells r = [(''id'', integer_cell (aud_id r)), (''admin_user_id'', integer_cell (aud_admin_user_id r)),
     (''action'', Some (aud_action r)), (''entity_type'', Some (aud_entity_type r)),
     (''entity_id'', Some (aud_entity_id r)), (''details_json'', Some (aud_details_json r)),
     (''created_at'', Some (aud_created_at r))]"

text \<open>\<^verbatim>\<open>SELECT \<dots> FROM table ORDER BY id\<close>\<close>

definition table_rows :: "string database \<Rightarrow> string \<Rightarrow> cells list" where
  "table_rows db name =
     (if name = ''users'' then map user_cells (sort_key usr_id (users db))
      else if name = ''sessions'' then map session_cells (sort_key ses_id (sessions db))
      else if name = ''problems'' then map problem_cells (sort_key prb_id (problems db))
      else if name = ''problem_tests'' then map test_cells (sort_key tst_id (problem_tests db))
      else if name = ''submissions'' then map submission_cells (sort_key row_id (submissions db))
      else map audit_cells (sort_key aud_id (admin_audit_log db)))"

definition select_columns :: "string list \<Rightarrow> cells \<Rightarrow> string option list" where
  "select_columns columns cells = map (\<lambda>c. Option.bind (map_of cells c) (\<lambda>v. v)) columns"

section \<open>Inserting into PostgreSQL\<close>

datatype sql_value =
    Sql_null
  | Sql_integer int
  | Sql_text string
  | Sql_boolean bool
  | Sql_time int
  | Sql_json string

definition bigint :: "string \<Rightarrow> int option" where
  "bigint s = (case from_chars_int64 s of Parsed i [] \<Rightarrow> Some i | _ \<Rightarrow> None)"

text \<open>A cast to the 32-bit \<^verbatim>\<open>integer\<close>\<close>

definition int4 :: "string \<Rightarrow> int option" where
  "int4 s = Option.bind (bigint s) (\<lambda>i. if - (2 ^ 31) \<le> i \<and> i < 2 ^ 31 then Some i else None)"

definition cast_value :: "pg_env \<Rightarrow> string \<Rightarrow> string option \<Rightarrow> sql_value option" where
  "cast_value e expression parameter = (case parameter of None \<Rightarrow> Some Sql_null
     | Some s \<Rightarrow>
       if expression = ''::bigint'' then map_option Sql_integer (bigint s)
       else if expression = ''::integer::boolean'' then map_option (\<lambda>i. Sql_boolean (i \<noteq> 0)) (int4 s)
       else if expression = ''::timestamptz'' then map_option Sql_time (parse_timestamp e s)
       else if expression = ''::jsonb'' then map_option Sql_json (jsonb e s)
       else Some (Sql_text s))"

type_synonym sql_values = "(string \<times> sql_value) list"

fun cast_values :: "pg_env \<Rightarrow> transfer_table \<Rightarrow> nat \<Rightarrow> string list \<Rightarrow> string option list \<Rightarrow> sql_values option" where
  "cast_values e t i (c # cs) (p # ps) =
     do { v \<leftarrow> cast_value e (expression_at t i) p; vs \<leftarrow> cast_values e t (Suc i) cs ps; Some ((c, v) # vs) }"
| "cast_values e t i [] [] = Some []"
| "cast_values e t i _ _ = None"

text \<open>A column that must have a value of its type, and one that may be NULL.\<close>

definition integer_of :: "sql_values \<Rightarrow> string \<Rightarrow> int option" where
  "integer_of vs c = (case map_of vs c of Some (Sql_integer i) \<Rightarrow> Some i | _ \<Rightarrow> None)"

definition text_of :: "sql_values \<Rightarrow> string \<Rightarrow> string option" where
  "text_of vs c = (case map_of vs c of Some (Sql_text s) \<Rightarrow> Some s | _ \<Rightarrow> None)"

definition boolean_of :: "sql_values \<Rightarrow> string \<Rightarrow> bool option" where
  "boolean_of vs c = (case map_of vs c of Some (Sql_boolean b) \<Rightarrow> Some b | _ \<Rightarrow> None)"

definition time_of :: "sql_values \<Rightarrow> string \<Rightarrow> int option" where
  "time_of vs c = (case map_of vs c of Some (Sql_time t) \<Rightarrow> Some t | _ \<Rightarrow> None)"

definition json_of :: "sql_values \<Rightarrow> string \<Rightarrow> string option" where
  "json_of vs c = (case map_of vs c of Some (Sql_json s) \<Rightarrow> Some s | _ \<Rightarrow> None)"

definition nullable :: "(sql_values \<Rightarrow> string \<Rightarrow> 'a option) \<Rightarrow> sql_values \<Rightarrow> string \<Rightarrow> 'a option option" where
  "nullable get vs c = (if map_of vs c = Some Sql_null then Some None else map_option Some (get vs c))"

definition user_of :: "sql_values \<Rightarrow> int user_row option" where
  "user_of vs = do { i \<leftarrow> integer_of vs ''id''; name \<leftarrow> text_of vs ''username''; hash \<leftarrow> text_of vs ''password_hash'';
     t \<leftarrow> time_of vs ''created_at''; admin \<leftarrow> boolean_of vs ''is_admin'';
     Some \<lparr>usr_id = i, usr_username = name, usr_password_hash = hash, usr_created_at = t, usr_is_admin = admin\<rparr> }"

definition session_of :: "sql_values \<Rightarrow> int session_row option" where
  "session_of vs = do { i \<leftarrow> integer_of vs ''id''; u \<leftarrow> integer_of vs ''user_id''; hash \<leftarrow> text_of vs ''token_hash'';
     t \<leftarrow> time_of vs ''created_at''; expires \<leftarrow> time_of vs ''expires_at'';
     Some \<lparr>ses_id = i, ses_user_id = u, ses_token_hash = hash, ses_created_at = t, ses_expires_at = expires\<rparr> }"

definition problem_of :: "sql_values \<Rightarrow> int problem_row option" where
  "problem_of vs = do { i \<leftarrow> text_of vs ''id''; title \<leftarrow> text_of vs ''title''; description \<leftarrow> text_of vs ''description'';
     inp \<leftarrow> text_of vs ''input_format''; out \<leftarrow> text_of vs ''output_format''; difficulty \<leftarrow> text_of vs ''difficulty'';
     tags \<leftarrow> json_of vs ''tags_json''; languages \<leftarrow> json_of vs ''languages_json''; examples \<leftarrow> json_of vs ''examples_json'';
     enabled \<leftarrow> boolean_of vs ''enabled''; t \<leftarrow> time_of vs ''created_at''; updated \<leftarrow> time_of vs ''updated_at'';
     revision \<leftarrow> integer_of vs ''revision'';
     Some \<lparr>prb_id = i, prb_title = title, prb_description = description, prb_input_format = inp,
       prb_output_format = out, prb_difficulty = difficulty, prb_tags_json = tags, prb_languages_json = languages,
       prb_examples_json = examples, prb_enabled = enabled, prb_created_at = t, prb_updated_at = updated,
       prb_revision = revision\<rparr> }"

definition stored_test_of :: "sql_values \<Rightarrow> test_row option" where
  "stored_test_of vs = do { i \<leftarrow> integer_of vs ''id''; p \<leftarrow> text_of vs ''problem_id''; inp \<leftarrow> text_of vs ''input'';
     out \<leftarrow> text_of vs ''expected_output''; n \<leftarrow> integer_of vs ''position''; enabled \<leftarrow> boolean_of vs ''enabled'';
     revision \<leftarrow> integer_of vs ''revision'';
     Some \<lparr>tst_id = i, tst_problem_id = p, tst_input = inp, tst_expected_output = out, tst_position = n,
       tst_enabled = enabled, tst_revision = revision\<rparr> }"

definition submission_of :: "sql_values \<Rightarrow> int submission_row option" where
  "submission_of vs = do { i \<leftarrow> integer_of vs ''id''; p \<leftarrow> text_of vs ''problem_id''; language \<leftarrow> text_of vs ''language'';
     code \<leftarrow> text_of vs ''source_code''; status \<leftarrow> text_of vs ''status''; verdict \<leftarrow> nullable text_of vs ''verdict'';
     t \<leftarrow> time_of vs ''created_at''; done_at \<leftarrow> nullable time_of vs ''completed_at'';
     u \<leftarrow> nullable integer_of vs ''user_id''; error \<leftarrow> nullable text_of vs ''error_type'';
     retried \<leftarrow> nullable integer_of vs ''retry_of'';
     Some \<lparr>row_id = i, row_problem_id = p, row_language = language, row_source_code = code, row_status = status,
       row_verdict = verdict, row_created_at = t, row_completed_at = done_at, row_user_id = u,
       row_error_type = error, row_retry_of = retried\<rparr> }"

definition audit_of :: "sql_values \<Rightarrow> int audit_row option" where
  "audit_of vs = do { i \<leftarrow> integer_of vs ''id''; u \<leftarrow> integer_of vs ''admin_user_id''; action \<leftarrow> text_of vs ''action'';
     ty \<leftarrow> text_of vs ''entity_type''; entity \<leftarrow> text_of vs ''entity_id''; details \<leftarrow> json_of vs ''details_json'';
     t \<leftarrow> time_of vs ''created_at'';
     Some \<lparr>aud_id = i, aud_admin_user_id = u, aud_action = action, aud_entity_type = ty, aud_entity_id = entity,
       aud_details_json = details, aud_created_at = t\<rparr> }"

text \<open>The constraints of the tables, for rows that bring their own key.\<close>

definition user_fits :: "(string \<Rightarrow> string) \<Rightarrow> int database \<Rightarrow> int user_row \<Rightarrow> bool" where
  "user_fits lower db r \<longleftrightarrow> usr_id r \<notin> usr_id ` set (users db) \<and> \<not> username_taken lower (usr_username r) db"

definition session_fits :: "int database \<Rightarrow> int session_row \<Rightarrow> bool" where
  "session_fits db r \<longleftrightarrow> ses_id r \<notin> ses_id ` set (sessions db) \<and> ses_user_id r \<in> usr_id ` set (users db)
     \<and> ses_token_hash r \<notin> ses_token_hash ` set (sessions db)"

definition problem_fits :: "int database \<Rightarrow> int problem_row \<Rightarrow> bool" where
  "problem_fits db r \<longleftrightarrow> problem_check r \<and> prb_id r \<notin> prb_id ` set (problems db)"

definition test_fits :: "int database \<Rightarrow> test_row \<Rightarrow> bool" where
  "test_fits db r \<longleftrightarrow> tst_id r \<notin> tst_id ` set (problem_tests db) \<and> tst_problem_id r \<in> prb_id ` set (problems db)
     \<and> position_free r db \<and> 0 < tst_revision r"

definition submission_fits :: "int database \<Rightarrow> int submission_row \<Rightarrow> bool" where
  "submission_fits db r \<longleftrightarrow> row_id r \<notin> row_id ` set (submissions db) \<and> submission_check r
     \<and> submission_references (db\<lparr>submissions := submissions db @ [r]\<rparr>) r \<and> retry_free db (row_retry_of r)"

definition audit_fits :: "int database \<Rightarrow> int audit_row \<Rightarrow> bool" where
  "audit_fits db r \<longleftrightarrow> aud_id r \<notin> aud_id ` set (admin_audit_log db) \<and> aud_admin_user_id r \<in> usr_id ` set (users db)"

definition insert_row :: "('r \<Rightarrow> bool) \<Rightarrow> ('r \<Rightarrow> int database) \<Rightarrow> 'r option \<Rightarrow> int database option" where
  "insert_row fits added row = do { r \<leftarrow> row; if fits r then Some (added r) else None }"

definition insert_values :: "(string \<Rightarrow> string) \<Rightarrow> string \<Rightarrow> sql_values \<Rightarrow> int database \<Rightarrow> int database option" where
  "insert_values lower name vs db =
     (if name = ''users'' then insert_row (user_fits lower db) (\<lambda>r. db\<lparr>users := users db @ [r]\<rparr>) (user_of vs)
      else if name = ''sessions'' then insert_row (session_fits db) (\<lambda>r. db\<lparr>sessions := sessions db @ [r]\<rparr>) (session_of vs)
      else if name = ''problems'' then insert_row (problem_fits db) (\<lambda>r. db\<lparr>problems := problems db @ [r]\<rparr>) (problem_of vs)
      else if name = ''problem_tests''
      then insert_row (test_fits db) (\<lambda>r. db\<lparr>problem_tests := problem_tests db @ [r]\<rparr>) (stored_test_of vs)
      else if name = ''submissions''
      then insert_row (submission_fits db) (\<lambda>r. db\<lparr>submissions := submissions db @ [r]\<rparr>) (submission_of vs)
      else insert_row (audit_fits db) (\<lambda>r. db\<lparr>admin_audit_log := admin_audit_log db @ [r]\<rparr>) (audit_of vs))"

definition insert_parameters ::
    "pg_env \<Rightarrow> (string \<Rightarrow> string) \<Rightarrow> transfer_table \<Rightarrow> string option list \<Rightarrow> int database \<Rightarrow> int database option" where
  "insert_parameters e lower t parameters db =
     do { vs \<leftarrow> cast_values e t 0 (table_columns t) (map (map_option c_str) parameters);
          insert_values lower (table_name t) vs db }"

section \<open>What is copied\<close>

lemma bigint_to_string: "bigint (to_string i) = Some j \<Longrightarrow> j = i"
  using from_chars_of_to_string [of "[]" i] by (auto simp: bigint_def split: if_splits)

text \<open>A copied row: the same keys, numbers and flags, the texts as C strings, the times and the JSON as
  the server reads them.\<close>

definition user_copied :: "pg_env \<Rightarrow> string user_row \<Rightarrow> int user_row \<Rightarrow> bool" where
  "user_copied e r r' \<longleftrightarrow> usr_id r' = usr_id r \<and> usr_username r' = c_str (usr_username r)
     \<and> usr_password_hash r' = c_str (usr_password_hash r) \<and> usr_is_admin r' = usr_is_admin r
     \<and> parse_timestamp e (c_str (usr_created_at r)) = Some (usr_created_at r')"

definition session_copied :: "pg_env \<Rightarrow> string session_row \<Rightarrow> int session_row \<Rightarrow> bool" where
  "session_copied e r r' \<longleftrightarrow> ses_id r' = ses_id r \<and> ses_user_id r' = ses_user_id r
     \<and> ses_token_hash r' = c_str (ses_token_hash r)
     \<and> parse_timestamp e (c_str (ses_created_at r)) = Some (ses_created_at r')
     \<and> parse_timestamp e (c_str (ses_expires_at r)) = Some (ses_expires_at r')"

definition problem_copied :: "pg_env \<Rightarrow> string problem_row \<Rightarrow> int problem_row \<Rightarrow> bool" where
  "problem_copied e r r' \<longleftrightarrow> prb_id r' = c_str (prb_id r) \<and> prb_title r' = c_str (prb_title r)
     \<and> prb_description r' = c_str (prb_description r) \<and> prb_input_format r' = c_str (prb_input_format r)
     \<and> prb_output_format r' = c_str (prb_output_format r) \<and> prb_difficulty r' = c_str (prb_difficulty r)
     \<and> jsonb e (c_str (prb_tags_json r)) = Some (prb_tags_json r')
     \<and> jsonb e (c_str (prb_languages_json r)) = Some (prb_languages_json r')
     \<and> jsonb e (c_str (prb_examples_json r)) = Some (prb_examples_json r')
     \<and> prb_enabled r' = prb_enabled r \<and> prb_revision r' = prb_revision r
     \<and> parse_timestamp e (c_str (prb_created_at r)) = Some (prb_created_at r')
     \<and> parse_timestamp e (c_str (prb_updated_at r)) = Some (prb_updated_at r')"

definition test_copied :: "test_row \<Rightarrow> test_row \<Rightarrow> bool" where
  "test_copied r r' \<longleftrightarrow> r' = r\<lparr>tst_problem_id := c_str (tst_problem_id r), tst_input := c_str (tst_input r),
     tst_expected_output := c_str (tst_expected_output r)\<rparr>"

definition submission_copied :: "pg_env \<Rightarrow> string submission_row \<Rightarrow> int submission_row \<Rightarrow> bool" where
  "submission_copied e r r' \<longleftrightarrow> row_id r' = row_id r \<and> row_problem_id r' = c_str (row_problem_id r)
     \<and> row_language r' = c_str (row_language r) \<and> row_source_code r' = c_str (row_source_code r)
     \<and> row_status r' = c_str (row_status r) \<and> row_verdict r' = map_option c_str (row_verdict r)
     \<and> parse_timestamp e (c_str (row_created_at r)) = Some (row_created_at r')
     \<and> (case row_completed_at r of None \<Rightarrow> row_completed_at r' = None
        | Some t \<Rightarrow> row_completed_at r' = parse_timestamp e (c_str t) \<and> row_completed_at r' \<noteq> None)
     \<and> row_user_id r' = row_user_id r \<and> row_error_type r' = map_option c_str (row_error_type r)
     \<and> row_retry_of r' = row_retry_of r"

definition audit_copied :: "pg_env \<Rightarrow> string audit_row \<Rightarrow> int audit_row \<Rightarrow> bool" where
  "audit_copied e r r' \<longleftrightarrow> aud_id r' = aud_id r \<and> aud_admin_user_id r' = aud_admin_user_id r
     \<and> aud_action r' = c_str (aud_action r) \<and> aud_entity_type r' = c_str (aud_entity_type r)
     \<and> aud_entity_id r' = c_str (aud_entity_id r) \<and> jsonb e (c_str (aud_details_json r)) = Some (aud_details_json r')
     \<and> parse_timestamp e (c_str (aud_created_at r)) = Some (aud_created_at r')"

lemmas cell_defs = select_columns_def integer_cell_def boolean_cell_def expression_at_def cast_value_def
  integer_of_def text_of_def boolean_of_def time_of_def json_of_def nullable_def bind_eq_Some_conv

lemma int4_flags [simp]: "int4 ''1'' = Some 1" "int4 ''0'' = Some 0"
  by code_simp+

lemma user_decoded:
  assumes "cast_values e (transfer_tables ! 0) 0 (table_columns (transfer_tables ! 0))
      (map (map_option c_str) (select_columns (table_columns (transfer_tables ! 0)) (user_cells r))) = Some vs"
    and "user_of vs = Some r'"
  shows "user_copied e r r'"
  using assms
  by (auto simp: transfer_tables_def user_cells_def user_of_def user_copied_def cell_defs c_str_id dest!: bigint_to_string
      split: if_splits)


lemma session_decoded:
  assumes "cast_values e (transfer_tables ! Suc 0) 0 (table_columns (transfer_tables ! Suc 0))
      (map (map_option c_str) (select_columns (table_columns (transfer_tables ! Suc 0)) (session_cells r))) = Some vs"
    and "session_of vs = Some r'"
  shows "session_copied e r r'"
  using assms
  by (auto simp: transfer_tables_def session_cells_def session_of_def session_copied_def cell_defs c_str_id
      dest!: bigint_to_string split: if_splits)

lemma problem_decoded:
  assumes "cast_values e (transfer_tables ! 2) 0 (table_columns (transfer_tables ! 2))
      (map (map_option c_str) (select_columns (table_columns (transfer_tables ! 2)) (problem_cells r))) = Some vs"
    and "problem_of vs = Some r'"
  shows "problem_copied e r r'"
proof -
  obtain v0 v1 v2 v3 v4 v5 v6 v7 v8 v9 v10 v11 v12 where vs: "vs = [(''id'', v0), (''title'', v1), (''description'', v2),
      (''input_format'', v3), (''output_format'', v4), (''difficulty'', v5), (''tags_json'', v6),
      (''languages_json'', v7), (''examples_json'', v8), (''enabled'', v9), (''created_at'', v10),
      (''updated_at'', v11), (''revision'', v12)]"
    and cast_texts: "cast_value e [] (Some (c_str (prb_id r))) = Some v0"
      "cast_value e [] (Some (c_str (prb_title r))) = Some v1"
      "cast_value e [] (Some (c_str (prb_description r))) = Some v2"
      "cast_value e [] (Some (c_str (prb_input_format r))) = Some v3"
      "cast_value e [] (Some (c_str (prb_output_format r))) = Some v4"
      "cast_value e [] (Some (c_str (prb_difficulty r))) = Some v5"
    and cast_json: "cast_value e ''::jsonb'' (Some (c_str (prb_tags_json r))) = Some v6"
      "cast_value e ''::jsonb'' (Some (c_str (prb_languages_json r))) = Some v7"
      "cast_value e ''::jsonb'' (Some (c_str (prb_examples_json r))) = Some v8"
    and cast_rest: "cast_value e ''::integer::boolean'' (Some (if prb_enabled r then ''1'' else ''0'')) = Some v9"
      "cast_value e ''::timestamptz'' (Some (c_str (prb_created_at r))) = Some v10"
      "cast_value e ''::timestamptz'' (Some (c_str (prb_updated_at r))) = Some v11"
      "cast_value e ''::bigint'' (Some (to_string (prb_revision r))) = Some v12"
    using assms(1) by (auto simp: transfer_tables_def problem_cells_def select_columns_def expression_at_def
        integer_cell_def boolean_cell_def c_str_id bind_eq_Some_conv)
  have "text_of vs ''id'' = Some (prb_id r')" "text_of vs ''title'' = Some (prb_title r')"
    "text_of vs ''description'' = Some (prb_description r')" "text_of vs ''input_format'' = Some (prb_input_format r')"
    "text_of vs ''output_format'' = Some (prb_output_format r')" "text_of vs ''difficulty'' = Some (prb_difficulty r')"
    using assms(2) by (auto simp: problem_of_def bind_eq_Some_conv)
  then have texts: "prb_id r' = c_str (prb_id r) \<and> prb_title r' = c_str (prb_title r)
      \<and> prb_description r' = c_str (prb_description r) \<and> prb_input_format r' = c_str (prb_input_format r)
      \<and> prb_output_format r' = c_str (prb_output_format r) \<and> prb_difficulty r' = c_str (prb_difficulty r)"
    using cast_texts by (auto simp: vs text_of_def cast_value_def)
  have "json_of vs ''tags_json'' = Some (prb_tags_json r')" "json_of vs ''languages_json'' = Some (prb_languages_json r')"
    "json_of vs ''examples_json'' = Some (prb_examples_json r')"
    using assms(2) by (auto simp: problem_of_def bind_eq_Some_conv)
  then have json: "jsonb e (c_str (prb_tags_json r)) = Some (prb_tags_json r')
      \<and> jsonb e (c_str (prb_languages_json r)) = Some (prb_languages_json r')
      \<and> jsonb e (c_str (prb_examples_json r)) = Some (prb_examples_json r')"
    using cast_json by (auto simp: vs json_of_def cast_value_def)
  have "boolean_of vs ''enabled'' = Some (prb_enabled r')" "time_of vs ''created_at'' = Some (prb_created_at r')"
    "time_of vs ''updated_at'' = Some (prb_updated_at r')" "integer_of vs ''revision'' = Some (prb_revision r')"
    using assms(2) by (auto simp: problem_of_def bind_eq_Some_conv)
  then have "prb_enabled r' = prb_enabled r \<and> prb_revision r' = prb_revision r
      \<and> parse_timestamp e (c_str (prb_created_at r)) = Some (prb_created_at r')
      \<and> parse_timestamp e (c_str (prb_updated_at r)) = Some (prb_updated_at r')"
    using cast_rest by (auto simp: vs boolean_of_def time_of_def integer_of_def cast_value_def dest!: bigint_to_string
        split: if_splits)
  with texts json show ?thesis
    by (simp add: problem_copied_def)
qed

lemma test_decoded:
  assumes "cast_values e (transfer_tables ! 3) 0 (table_columns (transfer_tables ! 3))
      (map (map_option c_str) (select_columns (table_columns (transfer_tables ! 3)) (test_cells r))) = Some vs"
    and "stored_test_of vs = Some r'"
  shows "test_copied r r'"
  using assms
  by (auto simp: transfer_tables_def test_cells_def stored_test_of_def test_copied_def cell_defs c_str_id
      dest!: bigint_to_string split: if_splits)

lemma nullable_text:
  "cast_value e [] (map_option c_str p) = Some v \<Longrightarrow> map_of vs c = Some v \<Longrightarrow> nullable text_of vs c = Some p' \<Longrightarrow>
     p' = map_option c_str p"
  by (cases p) (auto simp: cast_value_def nullable_def text_of_def)

lemma nullable_integer:
  "cast_value e ''::bigint'' (map_option c_str (Option.bind p integer_cell)) = Some v \<Longrightarrow> map_of vs c = Some v \<Longrightarrow>
     nullable integer_of vs c = Some p' \<Longrightarrow> p' = p"
  by (cases p) (auto simp: cast_value_def nullable_def integer_of_def integer_cell_def c_str_id dest!: bigint_to_string)

lemma nullable_time:
  "cast_value e ''::timestamptz'' (map_option c_str p) = Some v \<Longrightarrow> map_of vs c = Some v \<Longrightarrow>
     nullable time_of vs c = Some p' \<Longrightarrow>
     (case p of None \<Rightarrow> p' = None | Some t \<Rightarrow> p' = parse_timestamp e (c_str t) \<and> p' \<noteq> None)"
  by (cases p) (auto simp: cast_value_def nullable_def time_of_def)

lemma submission_decoded:
  assumes "cast_values e (transfer_tables ! 4) 0 (table_columns (transfer_tables ! 4))
      (map (map_option c_str) (select_columns (table_columns (transfer_tables ! 4)) (submission_cells r))) = Some vs"
    and "submission_of vs = Some r'"
  shows "submission_copied e r r'"
proof -
  obtain v0 v1 v2 v3 v4 v5 v6 v7 v8 v9 v10 where vs: "vs = [(''id'', v0), (''problem_id'', v1), (''language'', v2),
      (''source_code'', v3), (''status'', v4), (''verdict'', v5), (''created_at'', v6), (''completed_at'', v7),
      (''user_id'', v8), (''error_type'', v9), (''retry_of'', v10)]"
    and plain: "cast_value e ''::bigint'' (Some (to_string (row_id r))) = Some v0"
      "cast_value e [] (Some (c_str (row_problem_id r))) = Some v1"
      "cast_value e [] (Some (c_str (row_language r))) = Some v2"
      "cast_value e [] (Some (c_str (row_source_code r))) = Some v3"
      "cast_value e [] (Some (c_str (row_status r))) = Some v4"
      "cast_value e ''::timestamptz'' (Some (c_str (row_created_at r))) = Some v6"
    and verdict: "cast_value e [] (map_option c_str (row_verdict r)) = Some v5"
    and completed: "cast_value e ''::timestamptz'' (map_option c_str (row_completed_at r)) = Some v7"
    and owner: "cast_value e ''::bigint'' (map_option c_str (Option.bind (row_user_id r) integer_cell)) = Some v8"
    and error: "cast_value e [] (map_option c_str (row_error_type r)) = Some v9"
    and retried: "cast_value e ''::bigint'' (map_option c_str (Option.bind (row_retry_of r) integer_cell)) = Some v10"
    using assms(1) by (auto simp: transfer_tables_def submission_cells_def select_columns_def expression_at_def
        integer_cell_def c_str_id bind_eq_Some_conv)
  have get: "map_of vs ''verdict'' = Some v5" "map_of vs ''completed_at'' = Some v7" "map_of vs ''user_id'' = Some v8"
    "map_of vs ''error_type'' = Some v9" "map_of vs ''retry_of'' = Some v10"
    by (simp_all add: vs)
  have "nullable text_of vs ''verdict'' = Some (row_verdict r')"
    "nullable time_of vs ''completed_at'' = Some (row_completed_at r')"
    "nullable integer_of vs ''user_id'' = Some (row_user_id r')"
    "nullable text_of vs ''error_type'' = Some (row_error_type r')"
    "nullable integer_of vs ''retry_of'' = Some (row_retry_of r')"
    using assms(2) by (auto simp: submission_of_def bind_eq_Some_conv)
  note optional = nullable_text [OF verdict get(1) this(1)] nullable_time [OF completed get(2) this(2)]
    nullable_integer [OF owner get(3) this(3)] nullable_text [OF error get(4) this(4)]
    nullable_integer [OF retried get(5) this(5)]
  have "integer_of vs ''id'' = Some (row_id r')" "text_of vs ''problem_id'' = Some (row_problem_id r')"
    "text_of vs ''language'' = Some (row_language r')" "text_of vs ''source_code'' = Some (row_source_code r')"
    "text_of vs ''status'' = Some (row_status r')" "time_of vs ''created_at'' = Some (row_created_at r')"
    using assms(2) by (auto simp: submission_of_def bind_eq_Some_conv)
  then show ?thesis
    using plain optional unfolding submission_copied_def
    by (auto simp: vs cast_value_def integer_of_def text_of_def time_of_def dest!: bigint_to_string)
qed

lemma audit_decoded:
  assumes "cast_values e (transfer_tables ! 5) 0 (table_columns (transfer_tables ! 5))
      (map (map_option c_str) (select_columns (table_columns (transfer_tables ! 5)) (audit_cells r))) = Some vs"
    and "audit_of vs = Some r'"
  shows "audit_copied e r r'"
  using assms
  by (auto simp: transfer_tables_def audit_cells_def audit_of_def audit_copied_def cell_defs c_str_id
      dest!: bigint_to_string split: if_splits)

end
