(* ===== verification/Database_Transfer.thy ===== *)
theory Database_Transfer
  imports Transfer_Rows
begin

text \<open>
  The \<^verbatim>\<open>main\<close> of \<^verbatim>\<open>backend/src/sqlite-to-postgresql.cpp\<close>: the transaction on the target
  around the six tables of \<open>Transfer_Rows\<close>, its failures, and what it promises about the target.
\<close>

section \<open>The target\<close>

text \<open>
  A connection with the committed database and, inside a transaction, the one the transaction has made
  of it. A statement works on the latter; when the connection is closed the transaction is gone. The
  statements of the tool are numbered from 0.
\<close>

record target_connection =
  committed :: "int database"
  working :: "int database option"

definition on_target ::
    "pg_env \<Rightarrow> nat \<Rightarrow> (int database \<Rightarrow> (pg_result \<times> int database) option) \<Rightarrow> target_connection
       \<Rightarrow> pg_result \<times> target_connection" where
  "on_target e n effect c = (case working c of
       Some db \<Rightarrow> (case pg_execute e n (effect db) db of (result, db') \<Rightarrow> (result, c\<lparr>working := Some db'\<rparr>))
     | None \<Rightarrow> (case pg_execute e n (effect (committed c)) (committed c) of
         (result, db') \<Rightarrow> (result, c\<lparr>committed := db'\<rparr>)))"

definition target_begin :: "pg_env \<Rightarrow> target_connection \<Rightarrow> bool \<times> target_connection" where
  "target_begin e c = (if begin_fault e then (False, c) else (True, c\<lparr>working := Some (committed c)\<rparr>))"

definition target_rollback :: "target_connection \<Rightarrow> target_connection" where
  "target_rollback c = c\<lparr>working := None\<rparr>"

text \<open>
  A commit that is reported as failed leaves the transaction to be rolled back, or has taken effect all
  the same when it was only its answer that was lost.
\<close>

definition target_commit :: "pg_env \<Rightarrow> bool \<Rightarrow> target_connection \<Rightarrow> bool \<times> target_connection" where
  "target_commit e answer_lost c =
     (let landed = (case working c of None \<Rightarrow> c | Some db \<Rightarrow> \<lparr>committed = db, working = None\<rparr>)
      in if commit_fault e then (False, if answer_lost then landed else c) else (True, landed))"

section \<open>The tool\<close>

text \<open>
  \<open>read_stops name = Some m\<close>: reading the table ends with an error after \<open>m\<close> rows, which have been
  inserted by then. \<open>answer_lost n\<close>: when statement \<open>n\<close> fails, the server had carried it out and only
  its answer did not arrive. The functions return whether they succeeded, the number of the next statement,
  the number of rows copied and the connection.
\<close>

record transfer_env =
  source_opens :: bool
  target_refused :: bool
  source_begins :: bool
  prepare_fails :: "string \<Rightarrow> bool"
  read_stops :: "string \<Rightarrow> nat option"
  target_env :: pg_env
  lower_case :: "string \<Rightarrow> string"
  answer_lost :: "nat \<Rightarrow> bool"

fun insert_rows ::
    "pg_env \<Rightarrow> (string \<Rightarrow> string) \<Rightarrow> transfer_table \<Rightarrow> string option list list \<Rightarrow> nat \<Rightarrow> nat \<Rightarrow> target_connection
       \<Rightarrow> bool \<times> nat \<times> nat \<times> target_connection" where
  "insert_rows e lower t [] n copied c = (True, n, copied, c)"
| "insert_rows e lower t (row # rows) n copied c =
     (case on_target e n (\<lambda>db. map_option (Pair Command_ok) (insert_parameters e lower t row db)) c of
        (result, c') \<Rightarrow> if \<not> pg_command_ok result then (False, Suc n, copied, c')
          else insert_rows e lower t rows (Suc n) (Suc copied) c')"

definition transfer_one ::
    "transfer_env \<Rightarrow> string database \<Rightarrow> transfer_table \<Rightarrow> nat \<Rightarrow> target_connection \<Rightarrow> bool \<times> nat \<times> nat \<times> target_connection" where
  "transfer_one env source t n c =
     (if prepare_fails env (table_name t) then (False, n, 0, c)
      else let rows = map (select_columns (table_columns t)) (table_rows source (table_name t))
        in case read_stops env (table_name t) of
             None \<Rightarrow> insert_rows (target_env env) (lower_case env) t rows n 0 c
           | Some m \<Rightarrow> (case insert_rows (target_env env) (lower_case env) t (take m rows) n 0 c of
               (inserted, out) \<Rightarrow> (False, out)))"

fun transfer_all ::
    "transfer_env \<Rightarrow> string database \<Rightarrow> transfer_table list \<Rightarrow> nat \<Rightarrow> nat \<Rightarrow> target_connection
       \<Rightarrow> bool \<times> nat \<times> nat \<times> target_connection" where
  "transfer_all env source [] n copied c = (True, n, copied, c)"
| "transfer_all env source (t # ts) n copied c =
     (case transfer_one env source t n c of
        (True, n', k, c') \<Rightarrow> transfer_all env source ts n' (copied + k) c'
      | (False, n', k, c') \<Rightarrow> (False, n', copied, c'))"

text \<open>
  \<^verbatim>\<open>SELECT setval(pg_get_serial_sequence(\<dots>), coalesce(max(id), 1), max(id) IS NOT NULL)\<close>.
  A sequence holds positive numbers only, so \<^verbatim>\<open>setval\<close> refuses another one; our sequences are
  the last number handed out, 0 for none. \<^verbatim>\<open>setval\<close> does not belong to the transaction: it takes
  effect at once and no rollback undoes it, so it changes the committed database too.
\<close>

definition largest_key :: "('r \<Rightarrow> int) \<Rightarrow> 'r list \<Rightarrow> int option" where
  "largest_key key rows = (if rows = [] then None else Some (Max (key ` set rows)))"

definition target_setval ::
    "pg_env \<Rightarrow> (nat \<Rightarrow> bool) \<Rightarrow> nat \<Rightarrow> (int database \<Rightarrow> int option) \<Rightarrow> (int \<Rightarrow> int database \<Rightarrow> int database)
       \<Rightarrow> target_connection \<Rightarrow> pg_result \<times> target_connection" where
  "target_setval e lost n largest set_last c =
     (let found = largest (case working c of None \<Rightarrow> committed c | Some db \<Rightarrow> db);
          last = (case found of None \<Rightarrow> 0 | Some k \<Rightarrow> k);
          refused = (case found of None \<Rightarrow> False | Some k \<Rightarrow> k \<le> 0);
          set_c = c\<lparr>committed := set_last last (committed c), working := map_option (set_last last) (working c)\<rparr>;
          (result, answered) = pg_execute e n
             (if refused then None else Some (Tuples_ok [[Some (to_string (if found = None then 1 else last))]], True)) False
      in (result, if answered \<or> \<not> refused \<and> lost n then set_c else c))"

text \<open>The five statements of one string run one after the other, up to the first that fails.\<close>

definition sequences ::
    "((int database \<Rightarrow> int option) \<times> (int \<Rightarrow> int database \<Rightarrow> int database)) list" where
  "sequences =
     [(\<lambda>db. largest_key usr_id (users db), \<lambda>k. users_seq_update (\<lambda>_. k)),
      (\<lambda>db. largest_key ses_id (sessions db), \<lambda>k. sessions_seq_update (\<lambda>_. k)),
      (\<lambda>db. largest_key tst_id (problem_tests db), \<lambda>k. problem_tests_seq_update (\<lambda>_. k)),
      (\<lambda>db. largest_key row_id (submissions db), \<lambda>k. submissions_seq_update (\<lambda>_. k)),
      (\<lambda>db. largest_key aud_id (admin_audit_log db), \<lambda>k. admin_audit_log_seq_update (\<lambda>_. k))]"

fun set_each ::
    "pg_env \<Rightarrow> (nat \<Rightarrow> bool) \<Rightarrow> nat \<Rightarrow> ((int database \<Rightarrow> int option) \<times> (int \<Rightarrow> int database \<Rightarrow> int database)) list
       \<Rightarrow> target_connection \<Rightarrow> bool \<times> nat \<times> target_connection" where
  "set_each e lost n [] c = (True, n, c)"
| "set_each e lost n ((largest, set_last) # qs) c =
     (case target_setval e lost n largest set_last c of
        (result, c') \<Rightarrow> if \<not> pg_tuples_ok result then (False, Suc n, c') else set_each e lost (Suc n) qs c')"

definition stored_rows :: "int database \<Rightarrow> nat" where
  "stored_rows db = length (users db) + length (problems db) + length (submissions db) + length (sessions db)
     + length (admin_audit_log db)"

text \<open>The snapshots and locks: \<^verbatim>\<open>BEGIN\<close> on both databases, the advisory lock, the table locks.\<close>

definition begin_transfer :: "transfer_env \<Rightarrow> target_connection \<Rightarrow> bool \<times> target_connection" where
  "begin_transfer env c =
     (let e = target_env env
      in if \<not> source_begins env then (False, c)
         else case target_begin e c of
             (False, c) \<Rightarrow> (False, c)
           | (True, c) \<Rightarrow> (case on_target e 0 (\<lambda>db. Some (Tuples_ok [[Some []]], db)) c of
               (locked, c) \<Rightarrow> if \<not> pg_tuples_ok locked then (False, c)
                 else case on_target e 1 (\<lambda>db. Some (Command_ok, db)) c of
                     (exclusive, c) \<Rightarrow> (pg_command_ok exclusive, c)))"

text \<open>The sequences and the commit.\<close>

definition finish_transfer :: "pg_env \<Rightarrow> (nat \<Rightarrow> bool) \<Rightarrow> nat \<Rightarrow> target_connection \<Rightarrow> bool \<times> target_connection" where
  "finish_transfer e lost n c =
     (case set_each e lost n sequences c of
        (set_all, n', c') \<Rightarrow> if \<not> set_all then (False, c') else target_commit e (lost n') c')"

text \<open>The exit code, and the target after the connection is closed.\<close>

definition transfer_main ::
    "transfer_env \<Rightarrow> string list \<Rightarrow> string database \<Rightarrow> int database \<Rightarrow> nat \<times> int database" where
  "transfer_main env argv source target =
     (let e = target_env env; c = \<lparr>committed = target, working = None\<rparr>
      in if length argv \<noteq> 3 then (2, target)
         else if \<not> source_opens env then (1, target)
         else if target_refused env then (1, target)
         else case begin_transfer env c of
             (False, c) \<Rightarrow> (1, committed (target_rollback c))
           | (True, c) \<Rightarrow>
               (case on_target e 2 (\<lambda>db. Some (Tuples_ok [[Some (to_string (int (stored_rows db)))]], db)) c of
                  (nonempty, c) \<Rightarrow>
                    if \<not> pg_tuples_ok nonempty \<or> pg_value nonempty 0 0 \<noteq> ''0'' then (1, committed (target_rollback c))
                    else case transfer_all env source transfer_tables 3 0 c of
                        (False, _, _, c) \<Rightarrow> (1, committed (target_rollback c))
                      | (True, n, _, c) \<Rightarrow> (case finish_transfer e (answer_lost env) n c of
                          (False, c) \<Rightarrow> (1, committed (target_rollback c))
                        | (True, c) \<Rightarrow> (0, committed c))))"

section \<open>What the tool may leave behind\<close>

text \<open>Every sequence at the largest key of its table.\<close>

definition last_key :: "('r \<Rightarrow> int) \<Rightarrow> 'r list \<Rightarrow> int" where
  "last_key key rows = (if rows = [] then 0 else Max (key ` set rows))"

definition set_sequences :: "int database \<Rightarrow> int database" where
  "set_sequences db = db\<lparr>users_seq := last_key usr_id (users db), sessions_seq := last_key ses_id (sessions db),
     problem_tests_seq := last_key tst_id (problem_tests db), submissions_seq := last_key row_id (submissions db),
     admin_audit_log_seq := last_key aud_id (admin_audit_log db)\<rparr>"

text \<open>The database \<open>full\<close> holds the whole source, its sequences included.\<close>

definition transferred :: "transfer_env \<Rightarrow> string database \<Rightarrow> int database \<Rightarrow> int database \<Rightarrow> bool" where
  "transferred env source target full \<longleftrightarrow> (\<exists>us ss ps ts bs as.
     list_all2 (user_copied (target_env env)) (sort_key usr_id (users source)) us \<and>
     list_all2 (session_copied (target_env env)) (sort_key ses_id (sessions source)) ss \<and>
     list_all2 (problem_copied (target_env env)) (sort_key prb_id (problems source)) ps \<and>
     list_all2 test_copied (sort_key tst_id (problem_tests source)) ts \<and>
     list_all2 (submission_copied (target_env env)) (sort_key row_id (submissions source)) bs \<and>
     list_all2 (audit_copied (target_env env)) (sort_key aud_id (admin_audit_log source)) as \<and>
     full = set_sequences (target\<lparr>users := us, sessions := ss, problems := ps,
       problem_tests := problem_tests target @ ts, submissions := bs, admin_audit_log := as\<rparr>))"

text \<open>The rows of one database with the sequences of another.\<close>

definition with_sequences :: "int database \<Rightarrow> int database \<Rightarrow> int database" where
  "with_sequences sequences_of db = db\<lparr>users_seq := users_seq sequences_of, sessions_seq := sessions_seq sequences_of,
     problem_tests_seq := problem_tests_seq sequences_of, submissions_seq := submissions_seq sequences_of,
     admin_audit_log_seq := admin_audit_log_seq sequences_of\<rparr>"

text \<open>The rows of \<open>target\<close>, each sequence there or already where \<open>full\<close> has it.\<close>

definition sequences_moved :: "int database \<Rightarrow> int database \<Rightarrow> int database \<Rightarrow> bool" where
  "sequences_moved target full target' \<longleftrightarrow> with_sequences target target' = target
     \<and> users_seq target' \<in> {users_seq target, users_seq full}
     \<and> sessions_seq target' \<in> {sessions_seq target, sessions_seq full}
     \<and> problem_tests_seq target' \<in> {problem_tests_seq target, problem_tests_seq full}
     \<and> submissions_seq target' \<in> {submissions_seq target, submissions_seq full}
     \<and> admin_audit_log_seq target' \<in> {admin_audit_log_seq target, admin_audit_log_seq full}"

section \<open>The transaction\<close>

text \<open>Inside the transaction nothing that is committed changes.\<close>

definition in_transaction :: "int database \<Rightarrow> target_connection \<Rightarrow> bool" where
  "in_transaction target c \<longleftrightarrow> committed c = target \<and> working c \<noteq> None"

lemma on_target_inside: "in_transaction target c \<Longrightarrow> on_target e n effect c = (r, c') \<Longrightarrow> in_transaction target c'"
  by (auto simp: on_target_def in_transaction_def split: prod.splits)

lemma on_target_good:
  "working c = Some db \<Longrightarrow> on_target e n effect c = (r, c') \<Longrightarrow> pg_tuples_ok r \<or> pg_command_ok r \<Longrightarrow>
     \<exists>db'. effect db = Some (r, db') \<and> c' = c\<lparr>working := Some db'\<rparr>"
  by (auto simp: on_target_def split: prod.splits dest!: pg_execute_good)

lemma insert_rows_inside:
  "in_transaction target c \<Longrightarrow> insert_rows e lower t rows n k c = (ok, n', k', c') \<Longrightarrow> in_transaction target c'"
  by (induction rows arbitrary: n k c) (auto split: prod.splits if_splits dest: on_target_inside)

lemma transfer_one_inside:
  "in_transaction target c \<Longrightarrow> transfer_one env source t n c = (ok, n', k', c') \<Longrightarrow> in_transaction target c'"
  by (auto simp: transfer_one_def Let_def split: if_splits option.splits prod.splits dest: insert_rows_inside)

lemma transfer_all_inside:
  "in_transaction target c \<Longrightarrow> transfer_all env source ts n k c = (ok, n', k', c') \<Longrightarrow> in_transaction target c'"
  by (induction ts arbitrary: n k c) (auto split: prod.splits bool.splits dest: transfer_one_inside)

lemma begin_transfer_inside:
  assumes "begin_transfer env \<lparr>committed = target, working = None\<rparr> = (ok, c)"
  shows "committed c = target" and "ok \<Longrightarrow> c = \<lparr>committed = target, working = Some target\<rparr>"
  using assms
  by (auto simp: begin_transfer_def target_begin_def on_target_def pg_execute_def Let_def
      split: if_splits prod.splits bool.splits option.splits)

text \<open>While the sequences are set, the committed rows stay and the transaction keeps its rows.\<close>

definition settling :: "int database \<Rightarrow> int database \<Rightarrow> target_connection \<Rightarrow> bool" where
  "settling target full c \<longleftrightarrow> sequences_moved target full (committed c)
     \<and> (\<exists>db. working c = Some db \<and> with_sequences full db = full)"

lemma largest_key_last: "(case largest_key key rows of None \<Rightarrow> 0 | Some k \<Rightarrow> k) = last_key key rows"
  by (simp add: largest_key_def last_key_def)

lemma target_setval_cases:
  assumes "target_setval e lost n largest set_last c = (r, c')" and "working c = Some db"
  obtains (kept) "c' = c" "\<not> pg_tuples_ok r"
  | (set_last) k where "k = (case largest db of None \<Rightarrow> 0 | Some k \<Rightarrow> k)"
      "c' = c\<lparr>committed := set_last k (committed c), working := Some (set_last k db)\<rparr>"
  using assms
  by (cases "largest db")
    (auto simp: target_setval_def pg_execute_def Let_def split: if_splits option.splits prod.splits)

lemma with_sequences_moved:
  "with_sequences full (users_seq_update f db) = with_sequences full db"
  "with_sequences full (sessions_seq_update f db) = with_sequences full db"
  "with_sequences full (problem_tests_seq_update f db) = with_sequences full db"
  "with_sequences full (submissions_seq_update f db) = with_sequences full db"
  "with_sequences full (admin_audit_log_seq_update f db) = with_sequences full db"
  by (simp_all add: with_sequences_def)

lemma sequences_moved_on:
  assumes "sequences_moved target full db"
  shows "sequences_moved target full (users_seq_update (\<lambda>_. users_seq full) db)"
    "sequences_moved target full (sessions_seq_update (\<lambda>_. sessions_seq full) db)"
    "sequences_moved target full (problem_tests_seq_update (\<lambda>_. problem_tests_seq full) db)"
    "sequences_moved target full (submissions_seq_update (\<lambda>_. submissions_seq full) db)"
    "sequences_moved target full (admin_audit_log_seq_update (\<lambda>_. admin_audit_log_seq full) db)"
  using assms by (simp_all add: sequences_moved_def with_sequences_moved)

lemma target_setval_settling:
  assumes "(largest, set_last) \<in> set sequences" and full: "full = set_sequences db0"
    and c: "settling target full c" and run: "target_setval e lost n largest set_last c = (r, c')"
  shows "settling target full c'"
proof -
  obtain db where db: "working c = Some db" "with_sequences full db = full"
    using c by (auto simp: settling_def)
  have rows: "users db = users db0" "sessions db = sessions db0" "problem_tests db = problem_tests db0"
    "submissions db = submissions db0" "admin_audit_log db = admin_audit_log db0"
    using arg_cong [OF db(2), of users] arg_cong [OF db(2), of sessions] arg_cong [OF db(2), of problem_tests]
      arg_cong [OF db(2), of submissions] arg_cong [OF db(2), of admin_audit_log]
    by (simp_all add: with_sequences_def full set_sequences_def)
  from run db(1) show ?thesis
  proof (cases rule: target_setval_cases)
    case kept
    then show ?thesis using c by simp
  next
    case (set_last k)
    have seqs: "users_seq full = last_key usr_id (users db0)" "sessions_seq full = last_key ses_id (sessions db0)"
      "problem_tests_seq full = last_key tst_id (problem_tests db0)"
      "submissions_seq full = last_key row_id (submissions db0)"
      "admin_audit_log_seq full = last_key aud_id (admin_audit_log db0)"
      by (simp_all add: full set_sequences_def)
    have "sequences_moved target full (committed c)"
      using c by (simp add: settling_def)
    note moved = sequences_moved_on [OF this, unfolded seqs]
    from assms(1) set_last(1) consider
        "set_last = (\<lambda>k. users_seq_update (\<lambda>_. k))" "k = last_key usr_id (users db0)"
      | "set_last = (\<lambda>k. sessions_seq_update (\<lambda>_. k))" "k = last_key ses_id (sessions db0)"
      | "set_last = (\<lambda>k. problem_tests_seq_update (\<lambda>_. k))" "k = last_key tst_id (problem_tests db0)"
      | "set_last = (\<lambda>k. submissions_seq_update (\<lambda>_. k))" "k = last_key row_id (submissions db0)"
      | "set_last = (\<lambda>k. admin_audit_log_seq_update (\<lambda>_. k))" "k = last_key aud_id (admin_audit_log db0)"
      by (auto simp: sequences_def largest_key_last rows)
    then show ?thesis
      by cases (simp_all add: settling_def set_last(2) with_sequences_moved db(2) moved)
  qed
qed

lemma set_each_settling:
  assumes "set qs \<subseteq> set sequences" and "full = set_sequences db0" and "settling target full c"
    and "set_each e lost n qs c = (ok, n', c')"
  shows "settling target full c'"
  using assms(1,3,4)
proof (induction qs arbitrary: n c)
  case (Cons q qs)
  obtain largest set_last where q: "q = (largest, set_last)" by fastforce
  obtain r c1 where run: "target_setval e lost n largest set_last c = (r, c1)" by fastforce
  have "settling target full c1"
    using target_setval_settling [OF _ assms(2) Cons.prems(2) run] Cons.prems(1) by (simp add: q)
  then show ?case
    using Cons.IH [of c1 "Suc n"] Cons.prems by (auto simp: q run split: if_splits)
qed simp

lemma set_each_sets:
  "set_each e lost n qs c = (True, n', c') \<Longrightarrow> working c = Some db \<Longrightarrow>
     working c' = Some (foldl (\<lambda>db q. snd q (case fst q db of None \<Rightarrow> 0 | Some k \<Rightarrow> k) db) db qs)"
proof (induction qs arbitrary: n c db)
  case (Cons q qs)
  obtain largest set_last where q: "q = (largest, set_last)" by fastforce
  obtain r c1 where run: "target_setval e lost n largest set_last c = (r, c1)" by fastforce
  then have "pg_tuples_ok r" and rest: "set_each e lost (Suc n) qs c1 = (True, n', c')"
    using Cons.prems(1) by (auto simp: q split: if_splits)
  from run Cons.prems(2) have "working c1 = Some (set_last (case largest db of None \<Rightarrow> 0 | Some k \<Rightarrow> k) db)"
    by (cases rule: target_setval_cases) (use \<open>pg_tuples_ok r\<close> in auto)
  from Cons.IH [OF rest this] show ?case by (simp add: q)
qed simp

lemma foldl_sequences:
  "foldl (\<lambda>db q. snd q (case fst q db of None \<Rightarrow> 0 | Some k \<Rightarrow> k) db) db sequences = set_sequences db"
  by (simp add: sequences_def largest_key_last set_sequences_def)

text \<open>The end of the transfer: all is committed, or the commit was and its answer was lost, or only sequences moved.\<close>

lemma finish_transfer_cases:
  assumes c: "in_transaction target c" and run: "finish_transfer e lost n c = (ok, c')"
  obtains (failed) "\<not> ok" "sequences_moved target (set_sequences (the (working c))) (committed c')"
  | (unanswered) m where "\<not> ok" "commit_fault e" "lost m" "committed c' = set_sequences (the (working c))"
  | (committed) "ok" "committed c' = set_sequences (the (working c))"
proof -
  obtain db where db: "working c = Some db" and target: "committed c = target"
    using c by (auto simp: in_transaction_def)
  obtain set_all m c1 where each: "set_each e lost n sequences c = (set_all, m, c1)"
    by (cases "set_each e lost n sequences c")
  have "settling target (set_sequences db) c"
    by (simp add: settling_def db target sequences_moved_def with_sequences_def set_sequences_def)
  from set_each_settling [OF subset_refl refl this each]
  have c1: "sequences_moved target (set_sequences db) (committed c1)"
    by (simp add: settling_def)
  show ?thesis
  proof (cases set_all)
    case False
    then show ?thesis using failed run each c1 db by (simp add: finish_transfer_def)
  next
    case True
    have "working c1 = Some (set_sequences db)"
      using set_each_sets [of e lost n sequences c m c1, OF _ db] each True by (simp only: foldl_sequences)
    then show ?thesis
      using run each True c1 db failed unanswered [of m] committed
      by (auto simp: finish_transfer_def target_commit_def Let_def split: if_splits)
  qed
qed

lemma to_string_zero: "to_string 0 = ''0''"
  by code_simp

lemma count_is_zero:
  assumes "working c = Some db" and "on_target e n (\<lambda>db. Some (Tuples_ok [[Some (to_string (int (stored_rows db)))]], db)) c = (r, c')"
    and "pg_tuples_ok r"
  shows "c' = c" and "pg_value r 0 0 = ''0'' \<Longrightarrow> stored_rows db = 0"
  using on_target_good [OF assms(1,2)] assms(1,3) to_string_inj [of "int (stored_rows db)" 0]
  by (auto simp: pg_value_Tuples to_string_zero simp del: to_string_inj)

text \<open>The ways through \<open>transfer_main\<close>: before the transaction; rolled back; committed.\<close>

lemma transfer_main_cases:
  obtains (refused) code where "code \<noteq> 0" and "transfer_main env argv source target = (code, target)"
  | (unfinished) n k c target' where "transfer_all env source transfer_tables 3 0 \<lparr>committed = target, working = Some target\<rparr> = (True, n, k, c)"
      and "stored_rows target = 0" and "in_transaction target c"
      and "transfer_main env argv source target = (1, target')"
      and "sequences_moved target (set_sequences (the (working c))) target'
        \<or> commit_fault (target_env env) \<and> (\<exists>m. answer_lost env m) \<and> target' = set_sequences (the (working c))"
  | (copied) n k c where "transfer_all env source transfer_tables 3 0 \<lparr>committed = target, working = Some target\<rparr> = (True, n, k, c)"
      and "stored_rows target = 0" and "in_transaction target c"
      and "transfer_main env argv source target = (0, set_sequences (the (working c)))"
proof -
  let ?e = "target_env env" and ?c = "\<lparr>committed = target, working = Some target\<rparr>"
  let ?main = "transfer_main env argv source target"
  consider (early) "length argv \<noteq> 3 \<or> \<not> source_opens env \<or> target_refused env"
    | (connected) "length argv = 3" "source_opens env" "\<not> target_refused env" by blast
  then show ?thesis
  proof cases
    case early
    then show ?thesis
      using refused [of "fst ?main"] by (auto simp: transfer_main_def Let_def)
  next
    case connected
    obtain begun c1 where b: "begin_transfer env \<lparr>committed = target, working = None\<rparr> = (begun, c1)"
      by fastforce
    note inside = begin_transfer_inside [OF b]
    show ?thesis
    proof (cases begun)
      case False
      then show ?thesis
        using refused [of 1] connected inside(1) by (simp add: transfer_main_def b target_rollback_def)
    next
      case True
      obtain r c2 where q: "on_target ?e 2 (\<lambda>db. Some (Tuples_ok [[Some (to_string (int (stored_rows db)))]], db)) c1 = (r, c2)"
        by fastforce
      have c1: "c1 = ?c"
        using inside(2) True by simp
      have c2: "in_transaction target c2"
        using on_target_inside [OF _ q] by (simp add: c1 in_transaction_def)
      show ?thesis
      proof (cases "pg_tuples_ok r \<and> pg_value r 0 0 = ''0''")
        case False
        then show ?thesis
          using refused [of 1] connected c2 True by (simp add: transfer_main_def b q target_rollback_def in_transaction_def)
      next
        case nonempty: True
        have "c2 = ?c" and empty: "stored_rows target = 0"
          using count_is_zero [OF _ q, of target] nonempty by (simp_all add: c1)
        obtain ok n k c3 where all: "transfer_all env source transfer_tables 3 0 ?c = (ok, n, k, c3)"
          by (cases "transfer_all env source transfer_tables 3 0 ?c")
        have c3: "in_transaction target c3"
          using transfer_all_inside [OF _ all] by (simp add: in_transaction_def)
        obtain fin c4 where f: "finish_transfer ?e (answer_lost env) n c3 = (fin, c4)"
          by fastforce
        have main: "?main = (if \<not> ok then (1, committed c3) else if \<not> fin then (1, committed c4) else (0, committed c4))"
          using connected True nonempty \<open>c2 = ?c\<close>
          by (simp add: transfer_main_def b q all f target_rollback_def split: bool.splits)
        show ?thesis
        proof (cases ok)
          case False
          then show ?thesis
            using refused [of 1] c3 main by (simp add: in_transaction_def)
        next
          case True
          from c3 f show ?thesis
          proof (cases rule: finish_transfer_cases)
            case failed
            then show ?thesis using unfinished [of n k c3 "committed c4"] all True empty c3 main by simp
          next
            case (unanswered m)
            then have "\<exists>m. answer_lost env m" by blast
            with unanswered show ?thesis using unfinished [of n k c3 "committed c4"] all True empty c3 main by simp
          next
            case committed
            then show ?thesis using copied [of n k c3] all True empty c3 main by simp
          qed
        qed
      qed
    qed
  qed
qed

section \<open>The tables\<close>

lemma insert_rows_copies:
  assumes one: "\<And>x db db'. insert_parameters e lower t (f x) db = Some db' \<Longrightarrow> \<exists>r. R x r \<and> db' = upd (\<lambda>rs. rs @ [r]) db"
    and compose: "\<And>g h db. upd g (upd h db) = upd (\<lambda>rs. g (h rs)) db" and idle: "\<And>db. upd (\<lambda>rs. rs) db = db"
    and run: "insert_rows e lower t (map f xs) n k c = (True, n', k', c')" and db: "working c = Some db"
  shows "\<exists>rs. list_all2 R xs rs \<and> c' = c\<lparr>working := Some (upd (\<lambda>old. old @ rs) db)\<rparr>"
  using run db
proof (induction xs arbitrary: n k c db)
  case Nil
  then show ?case
    by (cases c) (auto simp: idle)
next
  case (Cons x xs)
  obtain r c1 where target: "on_target e n (\<lambda>db. map_option (Pair Command_ok) (insert_parameters e lower t (f x) db)) c = (r, c1)"
    by fastforce
  then have "pg_command_ok r" and rest: "insert_rows e lower t (map f xs) (Suc n) (Suc k) c1 = (True, n', k', c')"
    using Cons.prems(1) by (auto split: if_splits)
  then obtain db1 where ins: "insert_parameters e lower t (f x) db = Some db1" and c1: "c1 = c\<lparr>working := Some db1\<rparr>"
    using on_target_good [OF Cons.prems(2) target] by auto
  obtain y where y: "R x y" "db1 = upd (\<lambda>rs. rs @ [y]) db"
    using one [OF ins] by blast
  have "working c1 = Some db1"
    by (simp add: c1)
  then obtain rs where rs: "list_all2 R xs rs" "c' = c1\<lparr>working := Some (upd (\<lambda>old. old @ rs) db1)\<rparr>"
    using Cons.IH [OF rest] by blast
  have "list_all2 R (x # xs) (y # rs) \<and> c' = c\<lparr>working := Some (upd (\<lambda>old. old @ y # rs) db)\<rparr>"
    using y rs by (simp add: c1 compose)
  then show ?case
    by blast
qed

lemma transfer_one_copies:
  assumes run: "transfer_one env source t n c = (True, n', k, c')" and db: "working c = Some db"
    and rows: "table_rows source (table_name t) = map cells xs"
    and one: "\<And>x db db'. insert_parameters (target_env env) (lower_case env) t
        (select_columns (table_columns t) (cells x)) db = Some db' \<Longrightarrow> \<exists>r. R x r \<and> db' = upd (\<lambda>rs. rs @ [r]) db"
    and compose: "\<And>g h db. upd g (upd h db) = upd (\<lambda>rs. g (h rs)) db" and idle: "\<And>db. upd (\<lambda>rs. rs) db = db"
  shows "\<exists>rs. list_all2 R xs rs \<and> c' = c\<lparr>working := Some (upd (\<lambda>old. old @ rs) db)\<rparr>"
proof -
  have "insert_rows (target_env env) (lower_case env) t (map (\<lambda>x. select_columns (table_columns t) (cells x)) xs) n 0 c
      = (True, n', k, c')"
    using run rows by (auto simp: transfer_one_def Let_def comp_def split: if_splits option.splits prod.splits)
  from insert_rows_copies [where upd = upd and R = R, OF one compose idle this db] show ?thesis .
qed

lemma transfer_table_names [simp]:
  "table_name (transfer_tables ! 0) = ''users''" "table_name (transfer_tables ! Suc 0) = ''sessions''"
  "table_name (transfer_tables ! 2) = ''problems''" "table_name (transfer_tables ! 3) = ''problem_tests''"
  "table_name (transfer_tables ! 4) = ''submissions''" "table_name (transfer_tables ! 5) = ''admin_audit_log''"
  by (simp_all add: transfer_tables_def)

lemma insert_row_Some: "insert_row fits added row = Some db' \<longleftrightarrow> (\<exists>r. row = Some r \<and> fits r \<and> db' = added r)"
  by (auto simp: insert_row_def bind_eq_Some_conv)

lemma append_updates:
  fixes db :: "int database"
  shows "db\<lparr>users := users db @ us\<rparr> = users_update (\<lambda>old. old @ us) db"
    "db\<lparr>sessions := sessions db @ ss\<rparr> = sessions_update (\<lambda>old. old @ ss) db"
    "db\<lparr>problems := problems db @ ps\<rparr> = problems_update (\<lambda>old. old @ ps) db"
    "db\<lparr>problem_tests := problem_tests db @ ts\<rparr> = problem_tests_update (\<lambda>old. old @ ts) db"
    "db\<lparr>submissions := submissions db @ bs\<rparr> = submissions_update (\<lambda>old. old @ bs) db"
    "db\<lparr>admin_audit_log := admin_audit_log db @ as\<rparr> = admin_audit_log_update (\<lambda>old. old @ as) db"
  by (cases db; simp)+

lemmas insert_one = insert_parameters_def insert_values_def insert_row_Some bind_eq_Some_conv append_updates

lemma users_transferred:
  "transfer_one env source (transfer_tables ! 0) n c = (True, n', k, c') \<Longrightarrow> working c = Some db \<Longrightarrow>
     \<exists>rs. list_all2 (user_copied (target_env env)) (sort_key usr_id (users source)) rs
       \<and> c' = c\<lparr>working := Some (users_update (\<lambda>old. old @ rs) db)\<rparr>"
  by (erule transfer_one_copies [where cells = user_cells], assumption)
    (auto simp: table_rows_def insert_one dest!: user_decoded)

lemma sessions_transferred:
  "transfer_one env source (transfer_tables ! Suc 0) n c = (True, n', k, c') \<Longrightarrow> working c = Some db \<Longrightarrow>
     \<exists>rs. list_all2 (session_copied (target_env env)) (sort_key ses_id (sessions source)) rs
       \<and> c' = c\<lparr>working := Some (sessions_update (\<lambda>old. old @ rs) db)\<rparr>"
  by (erule transfer_one_copies [where cells = session_cells], assumption)
    (auto simp: table_rows_def insert_one dest!: session_decoded)

lemma problems_transferred:
  "transfer_one env source (transfer_tables ! 2) n c = (True, n', k, c') \<Longrightarrow> working c = Some db \<Longrightarrow>
     \<exists>rs. list_all2 (problem_copied (target_env env)) (sort_key prb_id (problems source)) rs
       \<and> c' = c\<lparr>working := Some (problems_update (\<lambda>old. old @ rs) db)\<rparr>"
  by (erule transfer_one_copies [where cells = problem_cells], assumption)
    (auto simp: table_rows_def insert_one dest!: problem_decoded)

lemma problem_tests_transferred:
  "transfer_one env source (transfer_tables ! 3) n c = (True, n', k, c') \<Longrightarrow> working c = Some db \<Longrightarrow>
     \<exists>rs. list_all2 (test_copied) (sort_key tst_id (problem_tests source)) rs
       \<and> c' = c\<lparr>working := Some (problem_tests_update (\<lambda>old. old @ rs) db)\<rparr>"
  by (erule transfer_one_copies [where cells = test_cells], assumption)
    (auto simp: table_rows_def insert_one dest!: test_decoded)

lemma submissions_transferred:
  "transfer_one env source (transfer_tables ! 4) n c = (True, n', k, c') \<Longrightarrow> working c = Some db \<Longrightarrow>
     \<exists>rs. list_all2 (submission_copied (target_env env)) (sort_key row_id (submissions source)) rs
       \<and> c' = c\<lparr>working := Some (submissions_update (\<lambda>old. old @ rs) db)\<rparr>"
  by (erule transfer_one_copies [where cells = submission_cells], assumption)
    (auto simp: table_rows_def insert_one dest!: submission_decoded)

lemma admin_audit_log_transferred:
  "transfer_one env source (transfer_tables ! 5) n c = (True, n', k, c') \<Longrightarrow> working c = Some db \<Longrightarrow>
     \<exists>rs. list_all2 (audit_copied (target_env env)) (sort_key aud_id (admin_audit_log source)) rs
       \<and> c' = c\<lparr>working := Some (admin_audit_log_update (\<lambda>old. old @ rs) db)\<rparr>"
  by (erule transfer_one_copies [where cells = audit_cells], assumption)
    (auto simp: table_rows_def insert_one dest!: audit_decoded)

lemma transfer_tables_list:
  "transfer_tables = [transfer_tables ! 0, transfer_tables ! Suc 0, transfer_tables ! 2, transfer_tables ! 3,
     transfer_tables ! 4, transfer_tables ! 5]"
  by (simp add: transfer_tables_def)

lemma stored_rows_zero:
  "stored_rows db = 0 \<longleftrightarrow> users db = [] \<and> problems db = [] \<and> submissions db = [] \<and> sessions db = []
     \<and> admin_audit_log db = []"
  by (auto simp: stored_rows_def)

lemma all_transferred:
  assumes all: "transfer_all env source transfer_tables 3 0 \<lparr>committed = target, working = Some target\<rparr> = (True, n, k, c)"
    and empty: "stored_rows target = 0"
  shows "transferred env source target (set_sequences (the (working c)))"
proof -
  let ?c = "\<lparr>committed = target, working = Some target\<rparr>"
  obtain n1 k1 c1 n2 k2 c2 n3 k3 c3 n4 k4 c4 n5 k5 c5 n6 k6 where
    one: "transfer_one env source (transfer_tables ! 0) 3 ?c = (True, n1, k1, c1)"
    and two: "transfer_one env source (transfer_tables ! Suc 0) n1 c1 = (True, n2, k2, c2)"
    and three: "transfer_one env source (transfer_tables ! 2) n2 c2 = (True, n3, k3, c3)"
    and four: "transfer_one env source (transfer_tables ! 3) n3 c3 = (True, n4, k4, c4)"
    and five: "transfer_one env source (transfer_tables ! 4) n4 c4 = (True, n5, k5, c5)"
    and six: "transfer_one env source (transfer_tables ! 5) n5 c5 = (True, n6, k6, c)"
    using all by (subst (asm) transfer_tables_list) (auto split: prod.splits bool.splits)
  obtain us where us: "list_all2 (user_copied (target_env env)) (sort_key usr_id (users source)) us"
    and c1: "c1 = ?c\<lparr>working := Some (users_update (\<lambda>old. old @ us) target)\<rparr>"
    using users_transferred [OF one, of target] by auto
  obtain ss where ss: "list_all2 (session_copied (target_env env)) (sort_key ses_id (sessions source)) ss"
    and c2: "c2 = c1\<lparr>working := Some (sessions_update (\<lambda>old. old @ ss) (the (working c1)))\<rparr>"
    using sessions_transferred [OF two] by (auto simp: c1)
  obtain ps where ps: "list_all2 (problem_copied (target_env env)) (sort_key prb_id (problems source)) ps"
    and c3: "c3 = c2\<lparr>working := Some (problems_update (\<lambda>old. old @ ps) (the (working c2)))\<rparr>"
    using problems_transferred [OF three] by (auto simp: c2)
  obtain ts where ts: "list_all2 test_copied (sort_key tst_id (problem_tests source)) ts"
    and c4: "c4 = c3\<lparr>working := Some (problem_tests_update (\<lambda>old. old @ ts) (the (working c3)))\<rparr>"
    using problem_tests_transferred [OF four] by (auto simp: c3)
  obtain bs where bs: "list_all2 (submission_copied (target_env env)) (sort_key row_id (submissions source)) bs"
    and c5: "c5 = c4\<lparr>working := Some (submissions_update (\<lambda>old. old @ bs) (the (working c4)))\<rparr>"
    using submissions_transferred [OF five] by (auto simp: c4)
  obtain as where as: "list_all2 (audit_copied (target_env env)) (sort_key aud_id (admin_audit_log source)) as"
    and c: "c = c5\<lparr>working := Some (admin_audit_log_update (\<lambda>old. old @ as) (the (working c5)))\<rparr>"
    using admin_audit_log_transferred [OF six] by (auto simp: c5)
  have "the (working c) = target\<lparr>users := us, sessions := ss, problems := ps,
      problem_tests := problem_tests target @ ts, submissions := bs, admin_audit_log := as\<rparr>"
    using empty unfolding stored_rows_zero by (cases target) (simp add: c c5 c4 c3 c2 c1)
  then show ?thesis
    unfolding transferred_def
    by (intro exI [of _ us] exI [of _ ss] exI [of _ ps] exI [of _ ts] exI [of _ bs] exI [of _ as] conjI us ss ps ts bs as)
      simp
qed

text \<open>
  C12: A transfer that ends with code 0 has copied the whole source: each table of the target holds
  one row for every row of the source, in the order of the keys, with the keys, references, numbers
  and flags unchanged, the texts as the server receives them and the times and JSON texts as it
  reads them, NULL for NULL; and every sequence continues after the largest key of its table.
\<close>

theorem transfer_copies:
  assumes "transfer_main env argv source target = (0, target')"
  shows "\<exists>us ss ps ts bs as.
     list_all2 (user_copied (target_env env)) (sort_key usr_id (users source)) us \<and>
     list_all2 (session_copied (target_env env)) (sort_key ses_id (sessions source)) ss \<and>
     list_all2 (problem_copied (target_env env)) (sort_key prb_id (problems source)) ps \<and>
     list_all2 test_copied (sort_key tst_id (problem_tests source)) ts \<and>
     list_all2 (submission_copied (target_env env)) (sort_key row_id (submissions source)) bs \<and>
     list_all2 (audit_copied (target_env env)) (sort_key aud_id (admin_audit_log source)) as \<and>
     target' = set_sequences (target\<lparr>users := us, sessions := ss, problems := ps,
       problem_tests := problem_tests target @ ts, submissions := bs, admin_audit_log := as\<rparr>)"
  using assms
proof (cases rule: transfer_main_cases [of env argv source target])
  case (copied n k c)
  have "target' = set_sequences (the (working c))"
    using copied(4) assms by simp
  with all_transferred [OF copied(1,2)] show ?thesis
    unfolding transferred_def by simp
qed simp_all

text \<open>
  C11: The rows are transferred all or nothing. The tool ends with code 0 only when the target had no
  users, problems, submissions, sessions and audit entries, and then it holds the whole source. With
  any other code, whichever statement failed and however many rows had been inserted, the target is
  as it was; or, on such a target and after all rows were inserted, it has its old rows with some
  sequences moved to where the transfer would leave them, because no rollback undoes setval; or the
  server had committed the whole transfer when its answer to COMMIT was lost.
\<close>

theorem transfer_atomic:
  "case transfer_main env argv source target of (code, target') \<Rightarrow>
     if code = 0 then stored_rows target = 0 \<and> transferred env source target target'
     else target' = target \<or> stored_rows target = 0 \<and> (\<exists>full. transferred env source target full
       \<and> (sequences_moved target full target' \<or> commit_fault (target_env env) \<and> (\<exists>m. answer_lost env m) \<and> target' = full))"
proof (rule transfer_main_cases [of env argv source target])
  fix n k c
  assume "transfer_all env source transfer_tables 3 0 \<lparr>committed = target, working = Some target\<rparr> = (True, n, k, c)"
    and "stored_rows target = 0"
    and "transfer_main env argv source target = (0, set_sequences (the (working c)))"
  then show ?thesis using all_transferred [of env source target n k c] by simp
next
  fix n k c target'
  assume "transfer_all env source transfer_tables 3 0 \<lparr>committed = target, working = Some target\<rparr> = (True, n, k, c)"
    and "stored_rows target = 0" and "transfer_main env argv source target = (1, target')"
    and "sequences_moved target (set_sequences (the (working c))) target'
      \<or> commit_fault (target_env env) \<and> (\<exists>m. answer_lost env m) \<and> target' = set_sequences (the (working c))"
  then show ?thesis using all_transferred [of env source target n k c] by auto
qed simp

text \<open>A source with a user, who is an administrator, one problem with a test, a queued and a completed submission and
  an audit entry, and a server without faults.\<close>

definition sample_env :: transfer_env where
  "sample_env = \<lparr>source_opens = True, target_refused = False, source_begins = True, prepare_fails = (\<lambda>_. False),
     read_stops = (\<lambda>_. None), target_env = quiet_server\<lparr>parse_timestamp := (\<lambda>s. Some (int (length s)))\<rparr>,
     lower_case = (\<lambda>s. s), answer_lost = (\<lambda>_. False)\<rparr>"

definition sample_source :: "string database" where
  "sample_source = empty_database\<lparr>
     users := [\<lparr>usr_id = 4, usr_username = ''eve'', usr_password_hash = ''y'', usr_created_at = ''2026'', usr_is_admin = False\<rparr>,
       \<lparr>usr_id = 3, usr_username = ''ada'', usr_password_hash = ''x'', usr_created_at = ''2026'', usr_is_admin = True\<rparr>],
     sessions := [\<lparr>ses_id = 1, ses_user_id = 3, ses_token_hash = ''t'', ses_created_at = ''2026'', ses_expires_at = ''2027''\<rparr>],
     problems := [\<lparr>prb_id = ''sum'', prb_title = ''Sum'', prb_description = ''d'', prb_input_format = ''i'',
       prb_output_format = ''o'', prb_difficulty = ''Easy'', prb_tags_json = ''[]'', prb_languages_json = ''[]'',
       prb_examples_json = ''[]'', prb_enabled = True, prb_created_at = ''2026'', prb_updated_at = ''2026'', prb_revision = 1\<rparr>],
     problem_tests := [\<lparr>tst_id = 2, tst_problem_id = ''sum'', tst_input = ''1 2'', tst_expected_output = ''3'',
       tst_position = 0, tst_enabled = True, tst_revision = 1\<rparr>],
     submissions := [\<lparr>row_id = 5, row_problem_id = ''sum'', row_language = ''python'', row_source_code = ''p'',
       row_status = ''completed'', row_verdict = Some ''Accepted'', row_created_at = ''2026'',
       row_completed_at = Some ''2026'', row_user_id = Some 3, row_error_type = None, row_retry_of = None\<rparr>,
      \<lparr>row_id = 6, row_problem_id = ''sum'', row_language = ''python'', row_source_code = ''q'', row_status = ''queued'',
       row_verdict = None, row_created_at = ''2026'', row_completed_at = None, row_user_id = None,
       row_error_type = None, row_retry_of = Some 5\<rparr>],
     admin_audit_log := [\<lparr>aud_id = 1, aud_admin_user_id = 3, aud_action = ''create'', aud_entity_type = ''problem'',
       aud_entity_id = ''sum'', aud_details_json = ''{}'', aud_created_at = ''2026''\<rparr>]\<rparr>"

lemma sample_code: "fst (transfer_main sample_env [[], [], []] sample_source empty_database) = 0"
  by code_simp

theorem transfer_copies_witness:
  "\<exists>us bs. length us = 2 \<and> length bs = 2
     \<and> users (snd (transfer_main sample_env [[], [], []] sample_source empty_database)) = us
     \<and> submissions (snd (transfer_main sample_env [[], [], []] sample_source empty_database)) = bs"
  using transfer_copies [OF prod_eqI [of _ "(0, _)", simplified fst_conv snd_conv, OF sample_code refl]]
  by (auto simp: set_sequences_def sample_source_def dest!: list_all2_lengthD)

end
