(* ===== verification/Descriptors.thy ===== *)
theory Descriptors
  imports Prelude
begin

text \<open>
  Who owns which file descriptor: the classes \<^verbatim>\<open>FileDescriptor\<close> and \<^verbatim>\<open>Pipe\<close> of
  \<^verbatim>\<open>nsjail-python-executor.cpp\<close> with the descriptors \<^verbatim>\<open>run_isolated\<close> opens,
  hands to its child and closes, and the socket pair of \<^verbatim>\<open>isolated-process-executor.cpp\<close>.
  \<open>Supervisor\<close> and \<open>Judge_Channel\<close> model what is read and written; this theory models the table of
  open descriptors around that, in the process and in its child.
\<close>

section \<open>The descriptor table of a process\<close>

text \<open>
  An entry has the number, the open file and the close-on-exec flag. The kernel hands out the lowest
  number that is free. \<open>bad_closes\<close> counts the calls of \<^verbatim>\<open>close\<close> on a number that is not open.
\<close>

datatype open_file = Input_file | Pipe_read nat | Pipe_write nat | Socket nat | Other_file nat

type_synonym entries = "(int \<times> open_file \<times> bool) list"

record descriptor_table =
  open_entries :: entries
  bad_closes :: nat

definition is_open :: "entries \<Rightarrow> int \<Rightarrow> bool" where
  "is_open es d \<longleftrightarrow> d \<in> fst ` set es"

definition lowest_free :: "entries \<Rightarrow> int" where
  "lowest_free es = hd (filter (\<lambda>d. \<not> is_open es d) (map int [0..<Suc (length es)]))"

definition allocate :: "open_file \<Rightarrow> bool \<Rightarrow> descriptor_table \<Rightarrow> int \<times> descriptor_table" where
  "allocate f cloexec t =
     (let d = lowest_free (open_entries t) in (d, t\<lparr>open_entries := (d, f, cloexec) # open_entries t\<rparr>))"

definition without :: "int \<Rightarrow> entries \<Rightarrow> entries" where
  "without d es = filter (\<lambda>x. fst x \<noteq> d) es"

definition sys_close :: "int \<Rightarrow> descriptor_table \<Rightarrow> descriptor_table" where
  "sys_close d t = (if is_open (open_entries t) d then t\<lparr>open_entries := without d (open_entries t)\<rparr>
     else t\<lparr>bad_closes := bad_closes t + 1\<rparr>)"

text \<open>\<^verbatim>\<open>dup2\<close> onto another number closes that and leaves the copy open across \<^verbatim>\<open>execve\<close>;
  onto the same number it does nothing.\<close>

definition sys_dup2 :: "int \<Rightarrow> int \<Rightarrow> entries \<Rightarrow> entries option" where
  "sys_dup2 from onto es = (case map_of es from of None \<Rightarrow> None
     | Some (f, _) \<Rightarrow> Some (if from = onto then es else (onto, f, False) # without onto es))"

text \<open>What is left after a successful \<^verbatim>\<open>execve\<close>\<close>

definition after_exec :: "entries \<Rightarrow> entries" where
  "after_exec es = filter (\<lambda>(_, _, cloexec). \<not> cloexec) es"

section \<open>FileDescriptor and Pipe\<close>

text \<open>The member \<^verbatim>\<open>descriptor_\<close>; -1 owns nothing.\<close>

type_synonym file_descriptor = int

definition fd_valid :: "file_descriptor \<Rightarrow> bool" where
  "fd_valid d \<longleftrightarrow> d \<ge> 0"

definition fd_reset :: "file_descriptor \<Rightarrow> descriptor_table \<Rightarrow> file_descriptor \<times> descriptor_table" where
  "fd_reset d t = (if fd_valid d then (- 1, sys_close d t) else (d, t))"

definition fd_destroy :: "file_descriptor \<Rightarrow> descriptor_table \<Rightarrow> descriptor_table" where
  "fd_destroy d t = snd (fd_reset d t)"

text \<open>The new object and the one moved from\<close>

definition fd_move :: "file_descriptor \<Rightarrow> file_descriptor \<times> file_descriptor" where
  "fd_move other = (other, - 1)"

record pipe =
  read_end :: file_descriptor
  write_end :: file_descriptor

definition pipe_move :: "pipe \<Rightarrow> pipe \<times> pipe" where
  "pipe_move p = (\<lparr>read_end = fst (fd_move (read_end p)), write_end = fst (fd_move (write_end p))\<rparr>,
     \<lparr>read_end = snd (fd_move (read_end p)), write_end = snd (fd_move (write_end p))\<rparr>)"

text \<open>Members are destroyed in the reverse of their order.\<close>

definition pipe_destroy :: "pipe \<Rightarrow> descriptor_table \<Rightarrow> descriptor_table" where
  "pipe_destroy p t = fd_destroy (read_end p) (fd_destroy (write_end p) t)"

text \<open>\<open>k\<close> names the pipe, \<open>refused\<close> is a failure of \<^verbatim>\<open>pipe2\<close>. The value None is the
  \<^verbatim>\<open>ExecutorError\<close>.\<close>

definition make_pipe :: "nat \<Rightarrow> bool \<Rightarrow> descriptor_table \<Rightarrow> pipe option \<times> descriptor_table" where
  "make_pipe k refused t =
     (if refused then (None, t)
      else let (r, t1) = allocate (Pipe_read k) True t; (w, t2) = allocate (Pipe_write k) True t1
        in (Some \<lparr>read_end = r, write_end = w\<rparr>, t2))"

definition result_destroy :: "pipe option \<Rightarrow> descriptor_table \<Rightarrow> descriptor_table" where
  "result_destroy r t = (case r of None \<Rightarrow> t | Some p \<Rightarrow> pipe_destroy p t)"

section \<open>The descriptors of run\_isolated\<close>

record child_descriptors =
  child_input :: int
  child_output :: int
  child_error :: int
  child_exec_error :: int

text \<open>The calls that fail, and which of the two streams ends first.\<close>

record descriptor_faults =
  open_refused :: bool
  pipe_refused :: "nat \<Rightarrow> bool"
  fork_refused :: bool
  stderr_ends_first :: bool

text \<open>What the child makes of its copy of the table before it executes NsJail; None when it exits instead.\<close>

definition child_entries :: "child_descriptors \<Rightarrow> entries \<Rightarrow> entries option" where
  "child_entries c es =
     (case sys_dup2 (child_input c) 0 es of None \<Rightarrow> None
      | Some es1 \<Rightarrow> (case sys_dup2 (child_output c) 1 es1 of None \<Rightarrow> None
        | Some es2 \<Rightarrow> (case sys_dup2 (child_error c) 2 es2 of None \<Rightarrow> None
          | Some es3 \<Rightarrow> Some (after_exec es3))))"

text \<open>
  The table after the function has returned and its locals are destroyed, and the descriptors NsJail
  starts with, None when there is no such process. \<^verbatim>\<open>drain\<close> resets a read end when its stream
  ends, and the loop is left only when both have ended.
\<close>

definition run_isolated_table :: "descriptor_faults \<Rightarrow> descriptor_table \<Rightarrow> descriptor_table \<times> entries option" where
  "run_isolated_table f t =
     (if open_refused f then (fd_destroy (- 1) t, None)
      else let (input, t) = allocate Input_file True t;
         (stdout_result, t) = make_pipe 0 (pipe_refused f 0) t;
         (stderr_result, t) = make_pipe 1 (pipe_refused f 1) t;
         (exec_error_result, t) = make_pipe 2 (pipe_refused f 2) t
        in case (stdout_result, stderr_result, exec_error_result) of
             (Some p0, Some p1, Some p2) \<Rightarrow>
               (let (stdout_pipe, moved0) = pipe_move p0; (stderr_pipe, moved1) = pipe_move p1;
                  (exec_error_pipe, moved2) = pipe_move p2;
                  results_destroy = (\<lambda>t. result_destroy (Some moved0) (result_destroy (Some moved1) (result_destroy (Some moved2) t)))
                in if fork_refused f
                   then (fd_destroy input (results_destroy (pipe_destroy stdout_pipe (pipe_destroy stderr_pipe
                          (pipe_destroy exec_error_pipe t)))), None)
                   else let child = child_entries \<lparr>child_input = input, child_output = write_end stdout_pipe,
                            child_error = write_end stderr_pipe, child_exec_error = write_end exec_error_pipe\<rparr> (open_entries t);
                       (input, t) = fd_reset input t;
                       (w0, t) = fd_reset (write_end stdout_pipe) t;
                       (w1, t) = fd_reset (write_end stderr_pipe) t;
                       (w2, t) = fd_reset (write_end exec_error_pipe) t;
                       (r0, r1, t) = (if stderr_ends_first f
                          then let (r1, t) = fd_reset (read_end stderr_pipe) t; (r0, t) = fd_reset (read_end stdout_pipe) t in (r0, r1, t)
                          else let (r0, t) = fd_reset (read_end stdout_pipe) t; (r1, t) = fd_reset (read_end stderr_pipe) t in (r0, r1, t))
                     in (fd_destroy input (results_destroy (pipe_destroy \<lparr>read_end = r0, write_end = w0\<rparr>
                           (pipe_destroy \<lparr>read_end = r1, write_end = w1\<rparr>
                             (pipe_destroy (exec_error_pipe\<lparr>write_end := w2\<rparr>) t)))), child))
           | _ \<Rightarrow> (fd_destroy input (result_destroy stdout_result (result_destroy stderr_result
                    (result_destroy exec_error_result t))), None))"

section \<open>The descriptors of the judge worker's channel\<close>

record channel_faults =
  socketpair_refused :: bool
  worker_fork_refused :: bool
  flags_refused :: bool
  open_limit :: int

text \<open>
  In the child: close the other end, make its own end survive \<^verbatim>\<open>execve\<close>, and close everything else
  from 3 to below the maximum.
\<close>

definition clear_cloexec :: "int \<Rightarrow> entries \<Rightarrow> entries" where
  "clear_cloexec d es = map (\<lambda>(n, f, flag). (n, f, if n = d then False else flag)) es"

definition close_untrusted :: "int \<Rightarrow> int \<Rightarrow> entries \<Rightarrow> entries" where
  "close_untrusted preserved maximum es = fold (\<lambda>d es. if d \<noteq> preserved then without d es else es) [3..maximum - 1] es"

definition maximum_descriptor :: "channel_faults \<Rightarrow> int" where
  "maximum_descriptor f = (if open_limit f > 3 then open_limit f else 65536)"

definition worker_entries :: "channel_faults \<Rightarrow> int \<times> int \<Rightarrow> entries \<Rightarrow> entries option" where
  "worker_entries f sockets es =
     (let es1 = without (fst sockets) es
      in if flags_refused f then None
         else Some (after_exec (close_untrusted (snd sockets) (maximum_descriptor f) (clear_cloexec (snd sockets) es1))))"

text \<open>The parent closes its end once, whether or not the request could be sent.\<close>

definition channel_table :: "channel_faults \<Rightarrow> descriptor_table \<Rightarrow> descriptor_table \<times> entries option" where
  "channel_table f t =
     (if socketpair_refused f then (t, None)
      else let (s0, t) = allocate (Socket 0) True t; (s1, t) = allocate (Socket 1) True t
        in if worker_fork_refused f then (sys_close s1 (sys_close s0 t), None)
           else (sys_close s0 (sys_close s1 t), worker_entries f (s0, s1) (open_entries t)))"

section \<open>Facts\<close>

lemma is_open_Cons [simp]: "is_open ((d, f, c) # es) n \<longleftrightarrow> n = d \<or> is_open es n"
  by (auto simp: is_open_def)

lemma without_simps [simp]:
  "without d [] = []" "without d ((n, f, c) # es) = (if n = d then without d es else (n, f, c) # without d es)"
  by (simp_all add: without_def)

lemma without_fresh [simp]: "\<not> is_open es d \<Longrightarrow> without d es = es"
  by (induction es) (auto simp: is_open_def)

lemma lowest_free_fresh: "\<not> is_open es (lowest_free es) \<and> 0 \<le> lowest_free es"
proof -
  let ?numbers = "map int [0..<Suc (length es)]"
  have "\<not> set ?numbers \<subseteq> fst ` set es"
  proof
    assume "set ?numbers \<subseteq> fst ` set es"
    then have "card (set ?numbers) \<le> card (fst ` set es)"
      by (intro card_mono) auto
    moreover have "card (set ?numbers) = Suc (length es)"
      by (subst distinct_card) (auto simp: distinct_map simp del: upt_Suc)
    moreover have "card (fst ` set es) \<le> length es"
      using card_length [of "map fst es"] by simp
    ultimately show False
      by simp
  qed
  then have "filter (\<lambda>d. \<not> is_open es d) ?numbers \<noteq> []"
    unfolding filter_empty_conv is_open_def by blast
  then have "lowest_free es \<in> set (filter (\<lambda>d. \<not> is_open es d) ?numbers)"
    unfolding lowest_free_def by (rule hd_in_set)
  then show ?thesis
    unfolding set_filter by (auto simp del: upt_Suc)
qed

lemma allocateE:
  assumes "allocate f c t = (d, t')"
  obtains "\<not> is_open (open_entries t) d" and "0 \<le> d" and "t' = t\<lparr>open_entries := (d, f, c) # open_entries t\<rparr>"
  using assms lowest_free_fresh [of "open_entries t"] that by (auto simp: allocate_def Let_def)

lemma fd_none [simp]: "fd_reset (- 1) t = (- 1, t)" "fd_destroy (- 1) t = t"
  by (simp_all add: fd_reset_def fd_valid_def fd_destroy_def)

lemma fd_owned [simp]:
  "0 \<le> d \<Longrightarrow> fd_reset d t = (- 1, sys_close d t)" "0 \<le> d \<Longrightarrow> fd_destroy d t = sys_close d t"
  by (simp_all add: fd_reset_def fd_valid_def fd_destroy_def)

lemma pipe_moved [simp]: "pipe_move p = (p, \<lparr>read_end = - 1, write_end = - 1\<rparr>)"
  by (simp add: pipe_move_def fd_move_def)

lemmas descriptor_defs = pipe_destroy_def result_destroy_def sys_close_def

section \<open>Nothing is leaked and nothing is closed twice\<close>

text \<open>
  \<open>owns D t0 t\<close>: the table is \<open>t0\<close> with further open descriptors, the numbers \<open>D\<close>.
\<close>

definition owns :: "int set \<Rightarrow> descriptor_table \<Rightarrow> descriptor_table \<Rightarrow> bool" where
  "owns D t0 t \<longleftrightarrow> (\<exists>es. t = t0\<lparr>open_entries := es @ open_entries t0\<rparr> \<and> fst ` set es = D
     \<and> (\<forall>d \<in> D. 0 \<le> d \<and> \<not> is_open (open_entries t0) d))"

lemma owns_refl: "owns {} t t"
  by (simp add: owns_def)

lemma owns_none: "owns {} t0 t \<Longrightarrow> t = t0"
  by (auto simp: owns_def)

lemma owns_valid: "owns D t0 t \<Longrightarrow> d \<in> D \<Longrightarrow> 0 \<le> d"
  by (auto simp: owns_def)

lemma is_open_append: "is_open (es @ es') d \<longleftrightarrow> is_open es d \<or> is_open es' d"
  by (auto simp: is_open_def)

lemma owns_allocate:
  assumes "owns D t0 t" and "allocate f c t = (d, t')"
  shows "owns (insert d D) t0 t' \<and> d \<notin> D"
proof -
  obtain es where es: "t = t0\<lparr>open_entries := es @ open_entries t0\<rparr>" "fst ` set es = D"
    "\<forall>d \<in> D. 0 \<le> d \<and> \<not> is_open (open_entries t0) d"
    using assms(1) by (auto simp: owns_def)
  obtain "\<not> is_open (open_entries t) d" "0 \<le> d" and t': "t' = t\<lparr>open_entries := (d, f, c) # open_entries t\<rparr>"
    using assms(2) by (rule allocateE)
  then have "\<not> is_open es d" "\<not> is_open (open_entries t0) d" "0 \<le> d"
    by (simp_all add: es is_open_append)
  moreover have "t' = t0\<lparr>open_entries := ((d, f, c) # es) @ open_entries t0\<rparr>"
    by (simp add: t' es)
  ultimately show ?thesis
    using es unfolding owns_def is_open_def by (intro conjI exI [of _ "(d, f, c) # es"]) auto
qed

lemma owns_close:
  assumes "owns D t0 t" and "d \<in> D"
  shows "owns (D - {d}) t0 (sys_close d t)"
proof -
  obtain es where es: "t = t0\<lparr>open_entries := es @ open_entries t0\<rparr>" "fst ` set es = D"
    "\<forall>d \<in> D. 0 \<le> d \<and> \<not> is_open (open_entries t0) d"
    using assms(1) by (auto simp: owns_def)
  have "without d (es @ open_entries t0) = without d es @ open_entries t0"
    using es(3) assms(2) without_fresh [of "open_entries t0" d] by (simp add: without_def)
  moreover have "fst ` set (without d es) = D - {d}"
    using es(2) by (auto simp: without_def)
  moreover have "is_open (es @ open_entries t0) d"
    using es(2) assms(2) by (simp add: is_open_def image_Un)
  ultimately show ?thesis
    using es unfolding owns_def sys_close_def by (intro exI [of _ "without d es"]) auto
qed

lemma owns_destroy: "owns D t0 t \<Longrightarrow> d \<in> D \<Longrightarrow> owns (D - {d}) t0 (fd_destroy d t)"
  by (simp add: owns_valid owns_close)

lemma owns_pipe_destroy:
  assumes "owns D t0 t" and "{read_end p, write_end p} \<subseteq> D" and "read_end p \<noteq> write_end p"
  shows "owns (D - {read_end p, write_end p}) t0 (pipe_destroy p t)"
proof -
  have "owns (D - {write_end p}) t0 (fd_destroy (write_end p) t)"
    using assms by (intro owns_destroy) auto
  then have "owns (D - {write_end p} - {read_end p}) t0 (pipe_destroy p t)"
    unfolding pipe_destroy_def using assms by (intro owns_destroy) auto
  moreover have "D - {write_end p} - {read_end p} = D - {read_end p, write_end p}"
    by auto
  ultimately show ?thesis
    by simp
qed

text \<open>What a result of \<open>make_pipe\<close> owns\<close>

definition ends :: "pipe option \<Rightarrow> int set" where
  "ends r = (case r of None \<Rightarrow> {} | Some p \<Rightarrow> {read_end p, write_end p})"

lemma owns_make_pipe:
  assumes "owns D t0 t" and "make_pipe k refused t = (r, t')"
  shows "owns (ends r \<union> D) t0 t' \<and> ends r \<inter> D = {} \<and> (\<forall>p. r = Some p \<longrightarrow> read_end p \<noteq> write_end p)"
proof (cases refused)
  case True
  then show ?thesis
    using assms by (simp add: make_pipe_def ends_def)
next
  case False
  obtain a t1 where a: "allocate (Pipe_read k) True t = (a, t1)"
    by fastforce
  obtain b t2 where b: "allocate (Pipe_write k) True t1 = (b, t2)"
    by fastforce
  have "owns (insert a D) t0 t1 \<and> a \<notin> D" and "owns (insert b (insert a D)) t0 t2 \<and> b \<notin> insert a D"
    using owns_allocate assms(1) a b by blast+
  moreover have "r = Some \<lparr>read_end = a, write_end = b\<rparr>" "t' = t2"
    using assms(2) False a b by (simp_all add: make_pipe_def)
  moreover have "insert b (insert a D) = {a, b} \<union> D"
    by auto
  ultimately show ?thesis
    by (simp add: ends_def)
qed

lemma owns_result_destroy:
  "owns D t0 t \<Longrightarrow> ends r \<subseteq> D \<Longrightarrow> (\<forall>p. r = Some p \<longrightarrow> read_end p \<noteq> write_end p) \<Longrightarrow>
     owns (D - ends r) t0 (result_destroy r t)"
  by (cases r) (auto simp: ends_def result_destroy_def owns_pipe_destroy)

lemma ends_Some [simp]: "ends (Some p) = {read_end p, write_end p}" "ends None = {}"
  by (simp_all add: ends_def)

lemma owns_release:
  "owns (ends r \<union> D) t0 t \<Longrightarrow> ends r \<inter> D = {} \<Longrightarrow> (\<forall>p. r = Some p \<longrightarrow> read_end p \<noteq> write_end p) \<Longrightarrow>
     owns D t0 (result_destroy r t)"
  using owns_result_destroy [of "ends r \<union> D" t0 t r] by (simp add: Un_Diff Diff_triv Int_commute)

lemma owns_release_one: "owns (insert d D) t0 t \<Longrightarrow> d \<notin> D \<Longrightarrow> owns D t0 (fd_destroy d t)"
  using owns_destroy [of "insert d D" t0 t d] by simp

text \<open>The ways through \<open>run_isolated_table\<close>: no process; a process whose streams have ended.\<close>

lemma unused_pipes_destroyed:
  assumes "owns (ends r2 \<union> (ends r1 \<union> (ends r0 \<union> {input}))) t0 t"
    and "ends r2 \<inter> (ends r1 \<union> (ends r0 \<union> {input})) = {}" and "ends r1 \<inter> (ends r0 \<union> {input}) = {}" and "ends r0 \<inter> {input} = {}"
    and "\<forall>p. r0 = Some p \<longrightarrow> read_end p \<noteq> write_end p" and "\<forall>p. r1 = Some p \<longrightarrow> read_end p \<noteq> write_end p"
    and "\<forall>p. r2 = Some p \<longrightarrow> read_end p \<noteq> write_end p"
  shows "fd_destroy input (result_destroy r0 (result_destroy r1 (result_destroy r2 t))) = t0"
proof -
  have "owns {input} t0 (result_destroy r0 (result_destroy r1 (result_destroy r2 t)))"
    by (intro owns_release assms)
  then show ?thesis
    using owns_release_one [of input "{}"] owns_none by simp
qed

lemma owns_close_all:
  "owns D t0 t \<Longrightarrow> distinct ds \<Longrightarrow> set ds \<subseteq> D \<Longrightarrow> owns (D - set ds) t0 (fold sys_close ds t)"
proof (induction ds arbitrary: D t)
  case (Cons d ds)
  have "owns (D - {d}) t0 (sys_close d t)"
    using Cons.prems by (intro owns_close) auto
  then have "owns (D - {d} - set ds) t0 (fold sys_close ds (sys_close d t))"
    using Cons.prems by (intro Cons.IH) auto
  then show ?case
    using Diff_insert2 [of D d "set ds"] by simp
qed simp

lemma closed_all: "owns (set ds) t0 t \<Longrightarrow> distinct ds \<Longrightarrow> fold sys_close ds t = t0"
  using owns_close_all [of "set ds" t0 t ds] owns_none by simp

lemma used_pipes_closed:
  assumes "owns {i, a0, b0, a1, b1, a2, b2} t0 t" and "distinct [i, a0, b0, a1, b1, a2, b2]"
  shows "sys_close a2 (sys_close a1 (sys_close a0 (sys_close b2 (sys_close b1 (sys_close b0 (sys_close i t)))))) = t0"
    and "sys_close a2 (sys_close a0 (sys_close a1 (sys_close b2 (sys_close b1 (sys_close b0 (sys_close i t)))))) = t0"
proof -
  have "set [i, b0, b1, b2, a0, a1, a2] = {i, a0, b0, a1, b1, a2, b2}"
    "set [i, b0, b1, b2, a1, a0, a2] = {i, a0, b0, a1, b1, a2, b2}"
    by (simp_all add: set_eq_subset)
  then have first: "owns (set [i, b0, b1, b2, a0, a1, a2]) t0 t" and second: "owns (set [i, b0, b1, b2, a1, a0, a2]) t0 t"
    using assms(1) by presburger+
  have "distinct [i, b0, b1, b2, a0, a1, a2]" "distinct [i, b0, b1, b2, a1, a0, a2]"
    using assms(2) by auto
  from closed_all [OF first this(1)] closed_all [OF second this(2)]
  show "sys_close a2 (sys_close a1 (sys_close a0 (sys_close b2 (sys_close b1 (sys_close b0 (sys_close i t)))))) = t0"
    "sys_close a2 (sys_close a0 (sys_close a1 (sys_close b2 (sys_close b1 (sys_close b0 (sys_close i t)))))) = t0"
    by simp_all
qed

lemma run_isolated_opened:
  assumes "allocate Input_file True t = (i, t')" and "make_pipe 0 q0 t' = (r0, t1)" and "make_pipe 1 q1 t1 = (r1, t2)"
    and "make_pipe 2 q2 t2 = (r2, t3)"
  shows "owns (ends r2 \<union> (ends r1 \<union> (ends r0 \<union> {i}))) t t3 \<and> ends r2 \<inter> (ends r1 \<union> (ends r0 \<union> {i})) = {}
     \<and> ends r1 \<inter> (ends r0 \<union> {i}) = {} \<and> ends r0 \<inter> {i} = {} \<and> (\<forall>p. r0 = Some p \<longrightarrow> read_end p \<noteq> write_end p)
     \<and> (\<forall>p. r1 = Some p \<longrightarrow> read_end p \<noteq> write_end p) \<and> (\<forall>p. r2 = Some p \<longrightarrow> read_end p \<noteq> write_end p)"
proof -
  have first: "owns {i} t t'"
    using owns_allocate [OF owns_refl assms(1)] by simp
  note second = owns_make_pipe [OF first assms(2)]
  note third = owns_make_pipe [OF second [THEN conjunct1] assms(3)]
  note fourth = owns_make_pipe [OF third [THEN conjunct1] assms(4)]
  show ?thesis
    using second third fourth by (intro conjI) (elim conjE, assumption)+
qed

lemma run_isolated_no_leak: "fst (run_isolated_table f t) = t"
proof (cases "open_refused f")
  case False
  obtain i t0 where i: "allocate Input_file True t = (i, t0)"
    by fastforce
  obtain r0 t1 where p0: "make_pipe 0 (pipe_refused f 0) t0 = (r0, t1)"
    by fastforce
  obtain r1 t2 where p1: "make_pipe 1 (pipe_refused f 1) t1 = (r1, t2)"
    by fastforce
  obtain r2 t3 where p2: "make_pipe 2 (pipe_refused f 2) t2 = (r2, t3)"
    by fastforce
  note opened = run_isolated_opened [OF i p0 p1 p2]
  have unused: "fd_destroy i (result_destroy r0 (result_destroy r1 (result_destroy r2 t3))) = t"
    using opened unused_pipes_destroyed [of r2 r1 r0 i t t3] by blast
  consider (no_pipe) "r0 = None \<or> r1 = None \<or> r2 = None" | (pipes) "r0 \<noteq> None" "r1 \<noteq> None" "r2 \<noteq> None"
    by blast
  then show ?thesis
  proof cases
    case no_pipe
    then show ?thesis
      using unused False by (auto simp: run_isolated_table_def i p0 p1 p2 simp del: One_nat_def split: option.splits)
  next
    case pipes
    then obtain a0 b0 a1 b1 a2 b2 where r: "r0 = Some \<lparr>read_end = a0, write_end = b0\<rparr>"
      "r1 = Some \<lparr>read_end = a1, write_end = b1\<rparr>" "r2 = Some \<lparr>read_end = a2, write_end = b2\<rparr>"
      by (metis option.exhaust pipe.surjective unit.exhaust)
    have "ends r2 \<union> (ends r1 \<union> (ends r0 \<union> {i})) = {i, a0, b0, a1, b1, a2, b2}"
      by (simp add: r set_eq_subset)
    then have owned: "owns {i, a0, b0, a1, b1, a2, b2} t t3"
      using opened [THEN conjunct1] by simp
    have apart: "distinct [i, a0, b0, a1, b1, a2, b2]"
      using opened by (auto simp: r)
    note closed = used_pipes_closed [OF owned apart]
    have valid: "0 \<le> i" "0 \<le> a0" "0 \<le> b0" "0 \<le> a1" "0 \<le> b1" "0 \<le> a2" "0 \<le> b2"
      using owns_valid [OF owned] by simp_all
    show ?thesis
      using unused closed valid False
      by (simp add: run_isolated_table_def i p0 p1 p2 r result_destroy_def pipe_destroy_def del: One_nat_def)
  qed
qed (simp add: run_isolated_table_def)

lemma channel_no_leak: "fst (channel_table f t) = t"
proof (cases "socketpair_refused f")
  case False
  obtain a t1 where a: "allocate (Socket 0) True t = (a, t1)"
    by fastforce
  obtain b t2 where b: "allocate (Socket 1) True t1 = (b, t2)"
    by fastforce
  note first = owns_allocate [OF owns_refl a]
  note second = owns_allocate [OF first [THEN conjunct1] b]
  have "owns (set [a, b]) t t2" "owns (set [b, a]) t t2" "distinct [a, b]" "distinct [b, a]"
    using first second by (auto simp: insert_commute)
  then show ?thesis
    using closed_all [of "[a, b]" t t2] closed_all [of "[b, a]" t t2] False a b by (simp add: channel_table_def)
qed (simp add: channel_table_def)

text \<open>
  C29: Whatever call fails, \<^verbatim>\<open>run_isolated\<close> in the worker and \<^verbatim>\<open>IsolatedProcessExecutor::run\<close>
  in the server close every descriptor they have opened, each exactly once, and no other: the table
  of the process is the same before and after, and no number is closed that is not open.
\<close>

theorem descriptors_no_leak: "fst (run_isolated_table f t) = t \<and> fst (channel_table g t') = t'"
  by (simp add: run_isolated_no_leak channel_no_leak)

section \<open>What the processes inherit\<close>

lemma set_close_untrusted:
  "set (close_untrusted preserved maximum es) = {x \<in> set es. \<not> (3 \<le> fst x \<and> fst x < maximum \<and> fst x \<noteq> preserved)}"
proof -
  have "set (fold (\<lambda>d es. if d \<noteq> preserved then without d es else es) ds es)
      = {x \<in> set es. \<not> (fst x \<in> set ds \<and> fst x \<noteq> preserved)}" for ds es
    by (induction ds arbitrary: es) (auto simp: without_def)
  then show ?thesis
    unfolding close_untrusted_def by auto
qed

lemma distinct_close_untrusted: "distinct (map fst es) \<Longrightarrow> distinct (map fst (close_untrusted preserved maximum es))"
proof -
  have "distinct (map fst es) \<Longrightarrow> distinct (map fst (fold (\<lambda>d es. if d \<noteq> preserved then without d es else es) ds es))"
    for ds es
    by (induction ds arbitrary: es) (auto simp: without_def distinct_map_filter)
  then show "distinct (map fst es) \<Longrightarrow> ?thesis"
    unfolding close_untrusted_def .
qed

text \<open>A process whose standard streams survive \<^verbatim>\<open>execve\<close>\<close>

definition standard_streams :: "entries \<Rightarrow> bool" where
  "standard_streams es \<longleftrightarrow> distinct (map fst es) \<and> (\<forall>d \<in> {0, 1, 2}. \<exists>f. (d, f, False) \<in> set es)"

definition standard :: "int \<Rightarrow> bool" where
  "standard d \<longleftrightarrow> d = 0 \<or> d = 1 \<or> d = 2"

lemma standard_open: "standard_streams es \<Longrightarrow> standard d \<Longrightarrow> is_open es d"
  by (force simp: standard_streams_def standard_def is_open_def)

lemma worker_inherits:
  assumes "standard_streams (open_entries t)" and "\<forall>x \<in> set (open_entries t). 0 \<le> fst x \<and> fst x < maximum_descriptor g"
    and "snd (channel_table g t) = Some worker"
  obtains channel where "standard_streams worker" and "\<not> standard channel"
    and "set worker = {x \<in> set (open_entries t). standard (fst x) \<and> \<not> snd (snd x)} \<union> {(channel, Socket 1, False)}"
proof -
  obtain a t1 where a: "allocate (Socket 0) True t = (a, t1)"
    by fastforce
  obtain b t2 where b: "allocate (Socket 1) True t1 = (b, t2)"
    by fastforce
  have worker: "worker = after_exec (close_untrusted b (maximum_descriptor g) (clear_cloexec b (without a (open_entries t2))))"
    using assms(3) a b by (simp add: channel_table_def worker_entries_def Let_def split: if_splits)
  have fresh: "\<not> is_open (open_entries t) a" "\<not> is_open (open_entries t) b" "a \<noteq> b" "0 \<le> a" "0 \<le> b"
    and t2: "open_entries t2 = (b, Socket 1, True) # (a, Socket 0, True) # open_entries t"
    using a b by (auto elim!: allocateE)
  have nonstandard: "\<not> standard a" "\<not> standard b"
    using fresh standard_open [OF assms(1)] by blast+
  have old: "x \<in> set (open_entries t) \<Longrightarrow> fst x \<noteq> b" for x
    using fresh(2) by (auto simp: is_open_def)
  have cleared: "clear_cloexec b (without a (open_entries t2)) = (b, Socket 1, False) # open_entries t"
    using fresh old by (auto simp: t2 clear_cloexec_def intro!: map_idI)
  have worker_set: "set worker = {x \<in> set (open_entries t). standard (fst x) \<and> \<not> snd (snd x)} \<union> {(b, Socket 1, False)}"
    using assms(2) old by (auto simp: worker cleared after_exec_def set_close_untrusted standard_def)
  have "distinct (map fst worker)"
    using assms(1) fresh(2)
    by (auto simp: worker cleared after_exec_def standard_streams_def is_open_def
        intro!: distinct_map_filter distinct_close_untrusted)
  then have "standard_streams worker"
    using assms(1) by (auto simp: standard_streams_def worker_set standard_def)
  then show ?thesis
    using nonstandard(2) worker_set by (rule that)
qed

lemma map_of_skip [simp]: "\<not> is_open es d \<Longrightarrow> map_of es d = None"
  by (auto simp: is_open_def map_of_eq_None_iff)

lemma allocate_entries: "allocate f c t = (d, t') \<Longrightarrow> open_entries t' = (d, f, c) # open_entries t"
  by (auto simp: allocate_def Let_def)

lemma make_pipe_entries:
  "make_pipe k refused t = (Some \<lparr>read_end = a, write_end = b\<rparr>, t') \<Longrightarrow>
     open_entries t' = (b, Pipe_write k, True) # (a, Pipe_read k, True) # open_entries t"
  by (auto simp: make_pipe_def dest!: allocate_entries split: if_splits prod.splits)

lemma sys_dup2_copy:
  assumes "sys_dup2 from onto es = Some es'" and "map_of es from = Some (f, c)" and "from \<noteq> onto"
  shows "set es' = insert (onto, f, False) {x \<in> set es. fst x \<noteq> onto}"
    and "d \<noteq> onto \<Longrightarrow> map_of es' d = map_of es d"
proof -
  have es': "es' = (onto, f, False) # without onto es"
    using assms by (simp add: sys_dup2_def)
  have "d \<noteq> onto \<Longrightarrow> map_of (without onto es) d = map_of es d"
    by (induction es) (auto simp: without_def)
  then show "set es' = insert (onto, f, False) {x \<in> set es. fst x \<noteq> onto}"
    and "d \<noteq> onto \<Longrightarrow> map_of es' d = map_of es d"
    by (auto simp: es' without_def)
qed

lemma three_streams:
  "insert (2, h, False) {x \<in> insert (1, g, False) {x \<in> insert (0, f, False) {x \<in> S. fst x \<noteq> 0}. fst x \<noteq> 1}. fst x \<noteq> 2}
     = {(0, f, False), (1, g, False), (2, h, False)} \<union> {x \<in> S. \<not> standard (fst x)}" for S :: "(int \<times> open_file \<times> bool) set"
  by (auto simp: standard_def)

lemma jail_inherits:
  assumes streams: "standard_streams worker"
    and run: "snd (run_isolated_table f \<lparr>open_entries = worker, bad_closes = k\<rparr>) = Some jail"
  shows "set jail = {(0, Input_file, False), (1, Pipe_write 0, False), (2, Pipe_write 1, False)}
     \<union> {x \<in> set worker. \<not> standard (fst x) \<and> \<not> snd (snd x)}"
proof -
  obtain i t0 where i: "allocate Input_file True \<lparr>open_entries = worker, bad_closes = k\<rparr> = (i, t0)"
    by fastforce
  obtain r0 t1 where p0: "make_pipe 0 (pipe_refused f 0) t0 = (r0, t1)"
    by fastforce
  obtain r1 t2 where p1: "make_pipe 1 (pipe_refused f 1) t1 = (r1, t2)"
    by fastforce
  obtain r2 t3 where p2: "make_pipe 2 (pipe_refused f 2) t2 = (r2, t3)"
    by fastforce
  have "\<not> open_refused f" "r0 \<noteq> None" "r1 \<noteq> None" "r2 \<noteq> None" "\<not> fork_refused f"
    using run by (auto simp: run_isolated_table_def i p0 p1 p2 simp del: One_nat_def split: if_splits option.splits)
  then obtain a0 b0 a1 b1 a2 b2 where r: "r0 = Some \<lparr>read_end = a0, write_end = b0\<rparr>"
    "r1 = Some \<lparr>read_end = a1, write_end = b1\<rparr>" "r2 = Some \<lparr>read_end = a2, write_end = b2\<rparr>"
    by (metis option.exhaust pipe.surjective unit.exhaust)
  have child: "child_entries \<lparr>child_input = i, child_output = b0, child_error = b1, child_exec_error = b2\<rparr> (open_entries t3)
      = Some jail"
    using run \<open>\<not> open_refused f\<close> \<open>\<not> fork_refused f\<close>
    by (auto simp: run_isolated_table_def i p0 p1 p2 r Let_def simp del: One_nat_def split: prod.splits if_splits)
  note opened = run_isolated_opened [OF i p0 p1 p2]
  have fresh: "\<forall>d \<in> ends r2 \<union> (ends r1 \<union> (ends r0 \<union> {i})). \<not> is_open worker d"
    using opened [THEN conjunct1] by (auto simp: owns_def)
  have nonstandard: "\<not> standard d" if "d \<in> {i, a0, b0, a1, b1, a2, b2}" for d
    using fresh that standard_open [OF streams, of d] by (auto simp: r)
  have apart: "distinct [i, a0, b0, a1, b1, a2, b2]"
    using opened by (auto simp: r)
  have entries: "open_entries t3 = (b2, Pipe_write 2, True) # (a2, Pipe_read 2, True) # (b1, Pipe_write 1, True)
      # (a1, Pipe_read 1, True) # (b0, Pipe_write 0, True) # (a0, Pipe_read 0, True) # (i, Input_file, True) # worker"
    using allocate_entries [OF i] make_pipe_entries [OF p0 [unfolded r]] make_pipe_entries [OF p1 [unfolded r]]
      make_pipe_entries [OF p2 [unfolded r]] by simp
  have found: "map_of (open_entries t3) i = Some (Input_file, True)" "map_of (open_entries t3) b0 = Some (Pipe_write 0, True)"
    "map_of (open_entries t3) b1 = Some (Pipe_write 1, True)"
    using apart by (auto simp: entries)
  obtain es1 es2 es3 where d0: "sys_dup2 i 0 (open_entries t3) = Some es1" and d1: "sys_dup2 b0 1 es1 = Some es2"
    and d2: "sys_dup2 b1 2 es2 = Some es3" and jail: "jail = after_exec es3"
    using child by (auto simp: child_entries_def split: option.splits)
  have away: "i \<noteq> 0" "b0 \<noteq> 0" "b0 \<noteq> 1" "b1 \<noteq> 0" "b1 \<noteq> 1" "b1 \<noteq> 2"
    using nonstandard [of i] nonstandard [of b0] nonstandard [of b1] by (simp_all add: standard_def)
  note s1 = sys_dup2_copy [OF d0 found(1) away(1)]
  have "map_of es1 b0 = Some (Pipe_write 0, True)" "map_of es1 b1 = Some (Pipe_write 1, True)"
    using s1(2) found away by simp_all
  note s2 = sys_dup2_copy [OF d1 this(1) away(3)] and later = this(2)
  have "map_of es2 b1 = Some (Pipe_write 1, True)"
    using s2(2) later away by simp
  note s3 = sys_dup2_copy [OF d2 this away(6)]
  have es3: "set es3 = {(0, Input_file, False), (1, Pipe_write 0, False), (2, Pipe_write 1, False)}
      \<union> {x \<in> set (open_entries t3). \<not> standard (fst x)}"
    unfolding s3(1) s2(1) s1(1) by (rule three_streams)
  have kept: "x \<in> set (open_entries t3) \<and> \<not> snd (snd x) \<longleftrightarrow> x \<in> set worker \<and> \<not> snd (snd x)" for x
    by (cases x) (auto simp: entries)
  have "x \<in> set jail \<longleftrightarrow> x \<in> set es3 \<and> \<not> snd (snd x)" for x
    by (auto simp: jail after_exec_def)
  then have "x \<in> set jail \<longleftrightarrow> x \<in> {(0, Input_file, False), (1, Pipe_write 0, False), (2, Pipe_write 1, False)}
      \<or> (x \<in> set worker \<and> \<not> snd (snd x)) \<and> \<not> standard (fst x)" for x
    unfolding es3 kept [symmetric] by auto
  then show ?thesis
    by blast
qed

text \<open>
  C28: NsJail starts with four open descriptors, whatever the server had open: its standard streams are
  the input file and the two output pipes, and the fourth is the worker's end of the channel to the
  server, which the server made inheritable and the worker never protects again. No descriptor of the
  server (its database connections, sockets and files) is among them.
\<close>

theorem jail_descriptors:
  assumes "standard_streams (open_entries server)" and "\<forall>x \<in> set (open_entries server). 0 \<le> fst x \<and> fst x < maximum_descriptor g"
    and "snd (channel_table g server) = Some worker"
    and "snd (run_isolated_table f \<lparr>open_entries = worker, bad_closes = k\<rparr>) = Some jail"
  shows "\<exists>channel. \<not> standard channel \<and> set jail = {(0, Input_file, False), (1, Pipe_write 0, False),
     (2, Pipe_write 1, False), (channel, Socket 1, False)}"
proof -
  obtain channel where worker: "standard_streams worker" "\<not> standard channel"
    "set worker = {x \<in> set (open_entries server). standard (fst x) \<and> \<not> snd (snd x)} \<union> {(channel, Socket 1, False)}"
    using assms(1-3) by (rule worker_inherits)
  have "{x \<in> set worker. \<not> standard (fst x) \<and> \<not> snd (snd x)} = {(channel, Socket 1, False)}"
    using worker(2) unfolding worker(3) by auto
  then have "set jail = {(0, Input_file, False), (1, Pipe_write 0, False), (2, Pipe_write 1, False)} \<union> {(channel, Socket 1, False)}"
    using jail_inherits [OF worker(1) assms(4)] by (simp only:)
  then show ?thesis
    using worker(2) by auto
qed

text \<open>A server with a database connection and an inheritable log file.\<close>

definition busy_server :: descriptor_table where
  "busy_server = \<lparr>open_entries = [(0, Other_file 0, False), (1, Other_file 1, False), (2, Other_file 2, False),
     (3, Other_file 3, True), (5, Other_file 5, False)], bad_closes = 0\<rparr>"

definition no_channel_faults :: channel_faults where
  "no_channel_faults = \<lparr>socketpair_refused = False, worker_fork_refused = False, flags_refused = False, open_limit = 16\<rparr>"

definition no_descriptor_faults :: descriptor_faults where
  "no_descriptor_faults = \<lparr>open_refused = False, pipe_refused = (\<lambda>_. False), fork_refused = False, stderr_ends_first = True\<rparr>"

definition busy_worker :: entries where
  "busy_worker = [(6, Socket 1, False), (0, Other_file 0, False), (1, Other_file 1, False), (2, Other_file 2, False)]"

lemma busy_server_worker: "snd (channel_table no_channel_faults busy_server) = Some busy_worker"
  by code_simp

lemma busy_worker_jail:
  "snd (run_isolated_table no_descriptor_faults \<lparr>open_entries = busy_worker, bad_closes = 0\<rparr>)
     = Some [(2, Pipe_write 1, False), (1, Pipe_write 0, False), (0, Input_file, False), (6, Socket 1, False)]"
proof -
  let ?es0 = "(3, Input_file, True) # busy_worker"
  let ?es1 = "(5, Pipe_write 0, True) # (4, Pipe_read 0, True) # ?es0"
  let ?es2 = "(8, Pipe_write 1, True) # (7, Pipe_read 1, True) # ?es1"
  let ?es3 = "(10, Pipe_write 2, True) # (9, Pipe_read 2, True) # ?es2"
  have steps: "allocate Input_file True \<lparr>open_entries = busy_worker, bad_closes = 0\<rparr> = (3, \<lparr>open_entries = ?es0, bad_closes = 0\<rparr>)"
    "make_pipe 0 False \<lparr>open_entries = ?es0, bad_closes = 0\<rparr> = (Some \<lparr>read_end = 4, write_end = 5\<rparr>, \<lparr>open_entries = ?es1, bad_closes = 0\<rparr>)"
    "make_pipe 1 False \<lparr>open_entries = ?es1, bad_closes = 0\<rparr> = (Some \<lparr>read_end = 7, write_end = 8\<rparr>, \<lparr>open_entries = ?es2, bad_closes = 0\<rparr>)"
    "make_pipe 2 False \<lparr>open_entries = ?es2, bad_closes = 0\<rparr> = (Some \<lparr>read_end = 9, write_end = 10\<rparr>, \<lparr>open_entries = ?es3, bad_closes = 0\<rparr>)"
    by code_simp+
  have "child_entries \<lparr>child_input = 3, child_output = 5, child_error = 8, child_exec_error = 10\<rparr> ?es3
      = Some [(2, Pipe_write 1, False), (1, Pipe_write 0, False), (0, Input_file, False), (6, Socket 1, False)]"
    by code_simp
  then show ?thesis
    by (simp add: run_isolated_table_def no_descriptor_faults_def steps Let_def del: One_nat_def split: prod.splits)
qed

theorem jail_descriptors_witness:
  "\<exists>jail channel. snd (run_isolated_table no_descriptor_faults \<lparr>open_entries = busy_worker, bad_closes = 0\<rparr>) = Some jail
     \<and> \<not> standard channel \<and> set jail = {(0, Input_file, False), (1, Pipe_write 0, False),
     (2, Pipe_write 1, False), (channel, Socket 1, False)}"
  using jail_descriptors [OF _ _ busy_server_worker busy_worker_jail] busy_worker_jail
  by (auto simp: standard_streams_def busy_server_def no_channel_faults_def maximum_descriptor_def)

end
