(* ===== verification/Judged_Site.thy ===== *)
theory Judged_Site
  imports Pg_Server Submission_Worker Problem_Judge
begin

text \<open>
  The whole way of a submission: the request handlers of \<^verbatim>\<open>main.cpp\<close>, the queue, one round of a
  worker (\<^verbatim>\<open>submission-worker.cpp\<close>) with the judge (\<^verbatim>\<open>problem-judge.cpp\<close>) on the stored
  problems, and the page of the submission, all on one PostgreSQL database.
\<close>

definition site_judge ::
    "'j json_lib \<Rightarrow> 'j json_text_lib \<Rightarrow> pg_env \<Rightarrow> int database \<Rightarrow> 'x executor \<Rightarrow> 'x judge" where
  "site_judge J W e db executor =
     problem_judge_object executor (\<lambda>i. service_find_for_judging (pg_problems J W (\<lambda>_. 0)) e i db)"





lemma outcome_record_request [simp]:
  "judge_request_of (outcome_record stored out t x) = judge_request_of x"
  "sr_source_code (outcome_record stored out t x) = sr_source_code x"
  "sr_problem_id (outcome_record stored out t x) = sr_problem_id x"
  "sr_user_id (outcome_record stored out t x) = sr_user_id x"
  by (cases "(stored, out, t, x)" rule: outcome_record.cases; simp add: judge_request_of_def)+




section \<open>An example\<close>

text \<open>The example site with one hidden test, and an executor under which every program prints 3.\<close>

definition tested_database :: "int database" where
  "tested_database = site_database\<lparr>problem_tests := [\<lparr>tst_id = 1, tst_problem_id = ''two-sum'', tst_input = ''1 2'',
     tst_expected_output = ''3'', tst_position = 0, tst_enabled = True, tst_revision = 1\<rparr>]\<rparr>"

definition three_executor :: "nat executor" where
  "three_executor request n = (Inr \<lparr>exit_code = 0, standard_output = ''3'', standard_error = [],
     timed_out = False, execution_error_type = None\<rparr>, Suc n)"

definition tested_create :: "(repository_error + submission_record) \<times> int database" where
  "tested_create = create_op (submission_store_of site) (submission_call site_env 0) site_request tested_database"

definition tested_stored :: "int database" where
  "tested_stored = snd tested_create"



lemma tested_judged:
  "fst (site_judge plain_json site_text quiet_server tested_stored three_executor
     \<lparr>jr_problem_id = ''two-sum'', jr_language = ''python'', jr_source_code = ''print(3)''\<rparr> 0) = Returns (Judged accepted)"
  by code_simp



end
