(* ===== verification/Spec2Isabelle.thy ===== *)
theory Spec2Isabelle
  imports Sqlite_Submissions Pg_Submissions Judging_System Progress Problem_Judge Catalog Json_Api
    Pg_Auth Sqlite_Auth Pg_Problems Sqlite_Problems Startup Sandbox Database_Transfer Descriptors Judged_Site
begin

text \<open>
  \<^bold>\<open>Algorithm Trainer: the backend.\<close> The program is a server that stores programming problems
  with hidden tests, accepts solutions, runs them in a sandbox and stores verdicts. This development
  models the C++ of \<^verbatim>\<open>src/backend/\<close> and proves what its parts promise each other and
  their users. Paths below are relative to \<^verbatim>\<open>src/backend/src/\<close>; the structs are those of
  \<^verbatim>\<open>src/backend/include/algorithm-trainer/\<close>.

  \<^bold>\<open>The parts and how they interact.\<close> \<^verbatim>\<open>main.cpp\<close> migrates the database, opens three
  services on it (accounts, problems, submissions), starts two worker threads and registers the HTTP
  routes. A handler authenticates the caller through the account service, reads or edits problems
  through the problem repository, and stores a submission through the submission repository, which
  is also the queue. A worker claims the oldest claimable submission, hands it to the judge, and
  stores the outcome. The judge runs the hidden tests in order; each run goes through an executor
  that starts a worker process and exchanges one framed JSON message with it; that process runs the
  program under NsJail. Every service has an implementation on PostgreSQL and one on SQLite.

  \<^bold>\<open>Theories, in the order of their imports.\<close>
  \<^descr> \<open>Prelude\<close>: integers, characters and strings of the C++ library; list and count lemmas.
  \<^descr> \<open>Core_Types\<close>: the structs and enums (\<^verbatim>\<open>judge.cpp\<close>,
    \<^verbatim>\<open>submission-record.cpp\<close>, headers).
  \<^descr> \<open>Schema\<close>: the tables as lists of rows, their constraints, and what
    \<^verbatim>\<open>INSERT\<close> and \<^verbatim>\<open>UPDATE\<close> do or refuse.
  \<^descr> \<open>Submission_Repository\<close>: the interface \<^verbatim>\<open>SubmissionRepository\<close> as a record of
    functions, and its contract, the locale \<open>submission_store\<close>: each operation on the list of
    records a database stands for. \<open>Submission_Queries\<close> has the SQL both repositories share;
    \<open>Sqlite_Engine\<close>, \<open>Sqlite_Submissions\<close> and \<open>Pg_Client\<close>, \<open>Pg_Submissions\<close> are
    the two implementations (\<^verbatim>\<open>sqlite-submission-repository.cpp\<close>,
    \<^verbatim>\<open>postgresql-client.cpp\<close>, \<^verbatim>\<open>postgresql-submission-repository.cpp\<close>), each
    with its \<open>interpretation\<close>. \<open>Progress\<close> shows what the streak and completion queries
    compute.
  \<^descr> \<open>Submission_Service\<close>, \<open>Submission_Worker\<close>: \<^verbatim>\<open>submission-service.cpp\<close> and
    \<^verbatim>\<open>submission-worker.cpp\<close> over any repository. \<open>Judging_System\<close>: handlers and
    workers interleaved, a step relation at the granularity of repository calls, with its invariants
    proved once inside \<open>submission_store\<close>.
  \<^descr> \<open>Problem_Judge\<close>: \<^verbatim>\<open>problem-judge.cpp\<close> and \<^verbatim>\<open>mock-judge.cpp\<close>.
  \<^descr> \<open>Judge_Channel\<close>: the executor that runs each program in a worker process, both ends of the
    framed channel and the worker's \<^verbatim>\<open>main\<close>
    (\<^verbatim>\<open>isolated-process-executor.cpp\<close>, \<^verbatim>\<open>judge-worker-main.cpp\<close>).
    \<open>Supervisor\<close> and \<open>Sandbox\<close>: the supervision of one process, and the files, the NsJail command
    line, compilation and runs around it (\<^verbatim>\<open>nsjail-python-executor.cpp\<close>).
  \<^descr> \<open>Case_Generators\<close>, \<open>Catalog\<close>: the hidden tests and built-in problems of
    \<^verbatim>\<open>problem.cpp\<close>.
  \<^descr> \<open>Json_Api\<close>: request validation and serializers (\<^verbatim>\<open>submission.cpp\<close>,
    \<^verbatim>\<open>admin-validation.h\<close>, \<^verbatim>\<open>problem.cpp\<close>, parts of
    \<^verbatim>\<open>main.cpp\<close>).
  \<^descr> \<open>Auth_Provider\<close>, \<open>Pg_Auth\<close>, \<open>Sqlite_Auth\<close>: accounts and sessions, the
    contract \<open>auth_store\<close> and the two services (\<^verbatim>\<open>postgresql-auth-service.cpp\<close>,
    \<^verbatim>\<open>auth-service.cpp\<close>).
  \<^descr> \<open>Problem_Repository\<close>, \<open>Problem_Queries\<close>, \<open>Pg_Problems\<close>, \<open>Sqlite_Problems\<close>:
    problems and hidden tests, the abstract catalogue with its edits, the contract
    \<open>problem_store\<close>, and the two repositories (\<^verbatim>\<open>postgresql-problem-repository.cpp\<close>,
    \<^verbatim>\<open>sqlite-problem-repository.cpp\<close>, \<^verbatim>\<open>problem-service.cpp\<close>).
  \<^descr> \<open>Http_Server\<close>: every handler and the route table of \<^verbatim>\<open>main.cpp\<close>, over the
    interfaces; the locale \<open>guarded_site\<close>. \<open>Pg_Server\<close>: the server on PostgreSQL.
  \<^descr> \<open>Migrations\<close>, \<open>Startup\<close>: the migration runners and \<^verbatim>\<open>main\<close>.
  \<^descr> \<open>Descriptors\<close>: who owns which file descriptor in the server, the worker and NsJail (the classes
    \<^verbatim>\<open>FileDescriptor\<close> and \<^verbatim>\<open>Pipe\<close> of \<^verbatim>\<open>nsjail-python-executor.cpp\<close>, the socket pair
    of \<^verbatim>\<open>isolated-process-executor.cpp\<close>).
  \<^descr> \<open>Judged_Site\<close>: a submission from the request through queue, worker and judge to its page.
  \<^descr> \<open>Transfer_Rows\<close>, \<open>Database_Transfer\<close>: the tool that moves a SQLite database to PostgreSQL
    (\<^verbatim>\<open>sqlite-to-postgresql.cpp\<close>).

  \<^bold>\<open>State.\<close> The state of the whole server is the database, the record \<open>database\<close> of
  \<open>Schema\<close>: one list of rows per table, in the order of insertion, and one sequence per
  generated identifier. Its type parameter is the type of time stamps: \<open>string\<close> on SQLite (the
  text the engine stores), \<open>int\<close> on PostgreSQL. An operation takes an environment and the
  database, and returns its result (\<open>error + value\<close>, every early return of the source a branch)
  with the database after it. Text parameters of PostgreSQL pass through \<open>c_str\<close>, as the client
  hands them over as C strings.

  \<^bold>\<open>What is a parameter.\<close> Code outside the repository is an argument of the definitions that
  call it. The database engine: an environment per call says which statement fails, which connection
  is lost, and what time it is; the meaning of each SQL statement is written out from its text. A
  statement that fails has had no effect, and a transaction that fails is rolled back; what PostgreSQL
  does not roll back -- identifiers handed out, \<^verbatim>\<open>setval\<close> -- and a COMMIT whose answer is lost
  are modelled where a theorem says what a failure leaves behind (\<open>Pg_Problems\<close>,
  \<open>Database_Transfer\<close>).
  JsonCpp: a record of functions, with its documented laws as the predicates \<open>json_laws\<close> and, for
  text, \<open>text_laws\<close>. libsodium: hashing and encoding functions, with the laws a theorem needs
  named as hypotheses. Drogon: a request is what handlers read of it. The migration scripts: a
  function on the tables. Theorems with such hypotheses have witnesses at concrete instances.

  \<^bold>\<open>What the theorems show.\<close> Queue: along every interleaving of handlers and workers and
  whatever statements fail, no submission is held by two workers, limits hold, and terminal records
  never change (\<open>pg_system_safe\<close>, \<open>pg_results_final\<close>); on a server without faults a worker
  empties the queue and its loop ends (\<open>pg_worker_drains_queue\<close>). Judge: accepted exactly when
  every enabled test passes; the first failure decides. Accounts: no sequence of public operations
  creates or changes an administrator; a login whose password does not verify is refused with one and
  the same error (\<open>pg_login_uniform_error\<close>); sessions last exactly thirty days; logging out ends one
  session. Problems: any sequence of edits acts on the catalogue as the abstract specification does,
  on both databases; stale revisions are refused. HTTP: administrator routes are guarded, and visitors
  change nothing protected; a user's accepted submission is stored once. Start-up: migrations run once,
  seeding stores exactly the missing problems with their tests and is idempotent, and a server that
  serves is ready. Catalogue: the expected answers of the generators are the optimal or correct ones,
  and so are those of the built-in hidden tests.
  Sandbox: the worker process is transparent (\<open>sandboxed_run_transparent\<close>) and cannot make the
  server believe a result it did not send whole (\<open>isolated_run_no_forged_result\<close>); output is reported
  exactly up to the limit, signals are sent in order and after the grace period, and the supervision
  ends exactly when the program lets every reading of its pipes end and the pipes are closed at last
  (\<open>supervise_terminates\<close>: no program keeps NsJail alive, but one that fills a pipe without pause can
  hold \<^verbatim>\<open>drain\<close>); programs run on exactly what was submitted, and the command line, with its
  limits and its filter that refuses by default, confines compiler and program; no descriptor is leaked or closed twice (\<open>descriptors_no_leak\<close>), and
  NsJail inherits its streams and the worker's channel only (\<open>jail_descriptors\<close>). All together: the
  page of a submission says Accepted exactly when its hidden tests passed
  (\<open>pg_submission_is_judged\<close>). Transfer: exit code 0 means that every row was copied
  (\<open>transfer_copies\<close>); rows are transferred all or none, and a failed transfer changes at most
  sequences, unless only the answer to its COMMIT was lost (\<open>transfer_atomic\<close>).

  \<^bold>\<open>Bounds and fuel.\<close> \<open>worker_loop\<close> runs on fuel because it ends only when the stop flag is
  raised; the liveness theorem gives the fuel that is enough: any number above the number of rounds
  before the flag is seen, where the rounds are at least the queued submissions.
  The loops on descriptors consume a list of the kernel's answers and have the value None when it ends
  first; \<open>plentiful\<close> is enough for the bytes to be moved. The supervision loop consumes the rounds
  observed; \<open>supervise_terminates\<close> shows, on any kernel that obeys \<open>kernel_laws\<close> (the clock goes
  on, a process sent SIGKILL is reported dead), that some number of rounds is enough exactly under
  \<open>drains_end\<close> and \<open>pipes_close\<close>, which are up to the program.
  All other loops are structural recursions or \<open>fun\<close> with a termination proof. Sizes compared
  with \<^verbatim>\<open>std::size_t\<close> limits are 64-bit words; identifiers are integers with their 64-bit range
  where they are parsed or converted.

  \<^bold>\<open>Not modelled.\<close>
  NsJail, the kernel and the
  compilers are parameters: which of their calls fail, in what pieces data arrives and how a process
  behaves are arguments; scheduling is visible only as the order of steps.
  The React frontend, the deployment files and the scripts are not C++ of the server. The tests
  describe the code and are not modelled. Logging, and the condition variable and sleeping intervals of
  the worker pool, which affect only timing, are left out.
\<close>

section \<open>Sample data\<close>

text \<open>A first submission, on which the theorems below are applied.\<close>

definition sample_request :: submission_request where
  "sample_request = \<lparr>rq_problem_id = ''a-plus-b'', rq_language = ''python'',
     rq_code = ''print(1)'', rq_user_id = None\<rparr>"

definition sample_row :: "string \<Rightarrow> int submission_row" where
  "sample_row status = \<lparr>row_id = 1, row_problem_id = ''a-plus-b'', row_language = ''python'',
     row_source_code = ''print(1)'', row_status = status, row_verdict = None, row_created_at = 7,
     row_completed_at = None, row_user_id = None, row_error_type = None, row_retry_of = None\<rparr>"

definition sample_database :: "string \<Rightarrow> int database" where
  "sample_database status = empty_database\<lparr>submissions := [sample_row status], submissions_seq := 1\<rparr>"

definition idle_system :: "'s \<Rightarrow> 's system" where
  "idle_system s = \<lparr>store = s, phase = \<lambda>_. Idle\<rparr>"

lemma sample_create:
  "pg_create to_string default_limits quiet_server sample_request empty_database
    = (Inr (record_of to_string (sample_row ''queued'')), sample_database ''queued'')"
  by code_simp

lemma sample_claim:
  "pg_claim_next to_string default_limits quiet_server (sample_database ''queued'')
    = (Inr (Some (record_of to_string (sample_row ''running''))), sample_database ''running'')"
  by code_simp

lemma wf_sample [simp]: "wf_submissions (sample_database ''queued'')"
  using pg.create_keeps_ok [OF wf_empty_database, of to_string default_limits quiet_server
      sample_request] sample_create by (simp add: pg_repository_def)

lemma within_limits_empty [simp]: "within_limits lim (records_of ts empty_database)"
  by (simp add: within_limits_def records_of_def empty_database_def limit_value_def active_of_def
      running_of_def)

text \<open>A run in which a submission is stored and claimed by worker 0.\<close>

lemma sample_run:
  "system_steps (pg_repository to_string default_limits) (idle_system empty_database)
     (set_phase 0 (Judging 1) (sample_database ''running'') (idle_system (sample_database ''queued'')))"
proof (rule converse_rtranclp_into_rtranclp, rule_tac [2] r_into_rtranclp)
  let ?repo = "pg_repository to_string default_limits"
  have "create_op ?repo quiet_server sample_request (store (idle_system empty_database))
      = (Inr (record_of to_string (sample_row ''queued'')), sample_database ''queued'')"
    by (simp add: pg_repository_def idle_system_def sample_create)
  from system_step.Submit [OF this]
  show "system_step ?repo (idle_system empty_database) (idle_system (sample_database ''queued''))"
    by (simp add: idle_system_def)
  have "claim_next_op ?repo quiet_server (store (idle_system (sample_database ''queued'')))
      = (Inr (Some (record_of to_string (sample_row ''running''))), sample_database ''running'')"
    by (simp add: pg_repository_def idle_system_def sample_claim)
  from system_step.Claim [OF _ this, of 0]
  show "system_step ?repo (idle_system (sample_database ''queued''))
      (set_phase 0 (Judging 1) (sample_database ''running'') (idle_system (sample_database ''queued'')))"
    by (simp add: idle_system_def sample_row_def)
qed

section \<open>The judging system on PostgreSQL\<close>

lemma idle_system_ok:
  "wf_submissions db \<Longrightarrow> within_limits lim (records_of ts db) \<Longrightarrow>
     system_ok wf_submissions (records_of ts) lim (idle_system db)"
  by (simp add: system_ok_def idle_system_def)

text \<open>
  C2: Safety of the judging system. However submissions, retries, claims, results, failures and
  restarts interleave, and whichever statements fail: no submission is held by two workers, every
  held submission is running, and the queue never exceeds its three admission limits.
\<close>

theorem pg_system_safe:
  assumes "wf_submissions db" "within_limits lim (records_of ts db)"
    "system_steps (pg_repository ts lim) (idle_system db) y"
  shows "wf_submissions (store y) \<and> claims_ok (records_of ts (store y)) (phase y)
    \<and> within_limits lim (records_of ts (store y))"
  using pg.steps_preserve [OF assms(3) idle_system_ok [OF assms(1,2)]] by (simp add: system_ok_def)

theorem pg_system_safe_witness:
  "wf_submissions (sample_database ''running'')
   \<and> claims_ok (records_of to_string (sample_database ''running'')) ((\<lambda>_. Idle)(0 := Judging 1))
   \<and> within_limits default_limits (records_of to_string (sample_database ''running''))"
  using pg_system_safe [OF wf_empty_database within_limits_empty sample_run]
  by (simp add: set_phase_def idle_system_def)

text \<open>
  C3: Nothing is lost and results are final. Along every run a stored submission keeps its number,
  problem, language, source code, owner and creation time, and once it is completed or failed its
  record never changes again.
\<close>

theorem pg_results_final:
  assumes "wf_submissions db" "within_limits lim (records_of ts db)"
    "system_steps (pg_repository ts lim) (idle_system db) y"
  shows "evolves (records_of ts db) (records_of ts (store y))"
  using pg.steps_preserve [OF assms(3) idle_system_ok [OF assms(1,2)]] by (simp add: idle_system_def)

theorem pg_results_final_witness:
  "evolves (records_of to_string empty_database) (records_of to_string (sample_database ''running''))"
  using pg_results_final [OF wf_empty_database within_limits_empty sample_run]
  by (simp add: set_phase_def idle_system_def)

text \<open>
  C4: Liveness of the queue. One worker on a healthy server, started when no submission is running,
  leaves every submission completed or failed, whatever the judge answers, provided the stop flag is
  raised after at least as many rounds as there are queued submissions; the loop itself ends.
\<close>

theorem pg_worker_drains_queue:
  assumes "wf_submissions db" "\<And>k i. pg_healthy (es k i)"
    "below 0 (maximum_running_submissions_per_user lim)"
    "\<forall>r \<in> set (records_of ts db). sr_status r \<noteq> running"
    "count_where (\<lambda>r. sr_status r = queued) (records_of ts db) \<le> rounds" "rounds < fuel"
  shows "\<exists>db' j'. worker_loop (pg_repository ts lim) judge (\<lambda>k. rounds \<le> k) es fuel 0 0 (db, j)
      = Some (db', j') \<and> (\<forall>r \<in> set (records_of ts db'). terminal r)
    \<and> map sr_id (records_of ts db') = map sr_id (records_of ts db)"
  using pg.worker_drains [where k = 0 and N = rounds, OF assms(1-4)] assms(5,6) by fastforce

theorem pg_worker_drains_queue_witness:
  "\<exists>db' j'. worker_loop (pg_repository to_string default_limits) (\<lambda>_ j. (Throws, j)) (\<lambda>k. 1 \<le> k)
      (\<lambda>_ _. quiet_server) 2 0 0 (sample_database ''queued'', ()) = Some (db', j')
    \<and> (\<forall>r \<in> set (records_of to_string db'). terminal r)
    \<and> map sr_id (records_of to_string db')
       = map sr_id (records_of to_string (sample_database ''queued''))"
  by (rule pg_worker_drains_queue [OF wf_sample])
    (simp_all add: sample_database_def sample_row_def empty_database_def records_of_def record_of_def
      parse_status_def below_def int64_of_size_def default_limits_def)

end
